(* ===== verification/Prelude.thy ===== *)
theory Prelude
  imports Main "HOL-Library.Word"
begin

unbundle bit_operations_syntax

text \<open>
  Shared vocabulary of the development: the machine integers of the program as words, the outcome
  type of a computation that may return a value, return an error or panic, arithmetic on
  \<open>usize\<close>, and the byte-level encoding and decoding of integers with the lemmas the components use.

  The target has 64-bit pointers. A \<open>usize\<close> is a natural number; an addition or a multiplication
  whose result does not fit 64 bits is the outcome \<open>Panic\<close>, as in every profile with overflow
  checks (development, test and fuzzing builds). A computation proved not to panic therefore behaves
  the same in a release build, where the same operation would wrap around.
\<close>

section \<open>Types and automation\<close>

type_synonym u8 = "8 word"
type_synonym u16 = "16 word"
type_synonym u32 = "32 word"
type_synonym u64 = "64 word"
type_synonym u128 = "128 word"

text \<open>A 64-bit signed integer in two's complement: the word, read with \<^const>\<open>sint\<close>.\<close>

type_synonym i64 = "64 word"

text \<open>A slice or vector of bytes; a Rust string is the list of its UTF-8 bytes.\<close>

type_synonym bytes = "u8 list"

named_theorems comp_iff \<open>when a composed computation returns, fails or panics\<close>
named_theorems reader_simps \<open>values of the bounds-checked readers\<close>
named_theorems const_defs \<open>the constants of the program\<close>

section \<open>Outcomes\<close>

datatype ('e, 'a) comp = Ok 'a | Err 'e | Panic

primrec chain :: "('e, 'a) comp \<Rightarrow> ('a \<Rightarrow> ('e, 'b) comp) \<Rightarrow> ('e, 'b) comp" where
  "chain (Ok a) f = f a"
| "chain (Err e) f = Err e"
| "chain Panic f = Panic"

primrec ok_or :: "'a option \<Rightarrow> 'e \<Rightarrow> ('e, 'a) comp" where
  "ok_or None e = Err e"
| "ok_or (Some a) e = Ok a"

primrec map_err :: "('e \<Rightarrow> 'f) \<Rightarrow> ('e, 'a) comp \<Rightarrow> ('f, 'a) comp" where
  "map_err g (Ok a) = Ok a"
| "map_err g (Err e) = Err (g e)"
| "map_err g Panic = Panic"

text \<open>An \<open>Option\<close>-valued call that panics where the callee does: \<open>None\<close> is the panic.\<close>

primrec or_panic :: "'a option \<Rightarrow> ('e, 'a) comp" where
  "or_panic None = Panic"
| "or_panic (Some a) = Ok a"

lemma chain_cong [fundef_cong]:
  assumes "m = m'" and "\<And>x. m' = Ok x \<Longrightarrow> f x = g x"
  shows "chain m f = chain m' g"
  using assms by (cases m') auto

lemma chain_assoc [simp]: "chain (chain m f) g = chain m (\<lambda>x. chain (f x) g)"
  by (cases m) auto

lemma chain_Ok_right [simp]: "chain m Ok = m"
  by (cases m) auto

lemma chain_eq_Ok [comp_iff]: "chain m f = Ok b \<longleftrightarrow> (\<exists>a. m = Ok a \<and> f a = Ok b)"
  by (cases m) auto

lemma chain_eq_Err [comp_iff]: "chain m f = Err e \<longleftrightarrow> m = Err e \<or> (\<exists>a. m = Ok a \<and> f a = Err e)"
  by (cases m) auto

lemma chain_eq_Panic [comp_iff]: "chain m f = Panic \<longleftrightarrow> m = Panic \<or> (\<exists>a. m = Ok a \<and> f a = Panic)"
  by (cases m) auto

lemma ok_or_eq_Ok [comp_iff]: "ok_or x e = Ok a \<longleftrightarrow> x = Some a"
  by (cases x) auto

lemma ok_or_eq_Err [comp_iff]: "ok_or x e = Err e' \<longleftrightarrow> x = None \<and> e = e'"
  by (cases x) auto

lemma ok_or_no_panic [simp]: "ok_or x e \<noteq> Panic"
  by (cases x) auto

lemma map_err_eq_Ok [comp_iff]: "map_err g m = Ok a \<longleftrightarrow> m = Ok a"
  by (cases m) auto

lemma map_err_eq_Err [comp_iff]: "map_err g m = Err e \<longleftrightarrow> (\<exists>e'. m = Err e' \<and> e = g e')"
  by (cases m) auto

lemma map_err_eq_Panic [comp_iff]: "map_err g m = Panic \<longleftrightarrow> m = Panic"
  by (cases m) auto

lemma or_panic_eq_Ok [comp_iff]: "or_panic x = Ok a \<longleftrightarrow> x = Some a"
  by (cases x) auto

lemma or_panic_eq_Panic [comp_iff]: "or_panic x = Panic \<longleftrightarrow> x = None"
  by (cases x) auto

lemma or_panic_no_Err [simp]: "or_panic x \<noteq> Err e"
  by (cases x) auto

lemma comp_chain_split:
  "P (chain m f) \<longleftrightarrow>
    (\<forall>a. m = Ok a \<longrightarrow> P (f a)) \<and> (\<forall>e. m = Err e \<longrightarrow> P (Err e)) \<and> (m = Panic \<longrightarrow> P Panic)"
  by (cases m) auto

text \<open>A loop that runs a fallible body over a list and collects the results.\<close>

fun traverse :: "('a \<Rightarrow> ('e, 'b) comp) \<Rightarrow> 'a list \<Rightarrow> ('e, 'b list) comp" where
  "traverse f [] = Ok []"
| "traverse f (x # xs) = chain (f x) (\<lambda>y. chain (traverse f xs) (\<lambda>ys. Ok (y # ys)))"

lemma traverse_Ok: "(\<And>x. x \<in> set xs \<Longrightarrow> f x = Ok (g x)) \<Longrightarrow> traverse f xs = Ok (map g xs)"
  by (induction xs) auto

section \<open>Arithmetic on usize and on words\<close>

definition usize_add :: "nat \<Rightarrow> nat \<Rightarrow> ('e, nat) comp" where
  "usize_add a b = (if a + b < 2 ^ 64 then Ok (a + b) else Panic)"

definition usize_mul :: "nat \<Rightarrow> nat \<Rightarrow> ('e, nat) comp" where
  "usize_mul a b = (if a * b < 2 ^ 64 then Ok (a * b) else Panic)"

definition checked_add_usize :: "nat \<Rightarrow> nat \<Rightarrow> nat option" where
  "checked_add_usize a b = (if a + b < 2 ^ 64 then Some (a + b) else None)"

definition checked_mul_usize :: "nat \<Rightarrow> nat \<Rightarrow> nat option" where
  "checked_mul_usize a b = (if a * b < 2 ^ 64 then Some (a * b) else None)"

text \<open>Unsigned arithmetic on words: the panicking, the checked and the saturating operations.\<close>

definition word_add :: "'w::len word \<Rightarrow> 'w word \<Rightarrow> ('e, 'w word) comp" where
  "word_add a b = (if unat a + unat b < 2 ^ LENGTH('w) then Ok (a + b) else Panic)"

definition word_mul :: "'w::len word \<Rightarrow> 'w word \<Rightarrow> ('e, 'w word) comp" where
  "word_mul a b = (if unat a * unat b < 2 ^ LENGTH('w) then Ok (a * b) else Panic)"

definition word_sub :: "'w::len word \<Rightarrow> 'w word \<Rightarrow> ('e, 'w word) comp" where
  "word_sub a b = (if b \<le> a then Ok (a - b) else Panic)"

definition checked_add :: "'w::len word \<Rightarrow> 'w word \<Rightarrow> 'w word option" where
  "checked_add a b = (if unat a + unat b < 2 ^ LENGTH('w) then Some (a + b) else None)"

definition checked_sub :: "'w::len word \<Rightarrow> 'w word \<Rightarrow> 'w word option" where
  "checked_sub a b = (if b \<le> a then Some (a - b) else None)"

definition checked_mul :: "'w::len word \<Rightarrow> 'w word \<Rightarrow> 'w word option" where
  "checked_mul a b = (if unat a * unat b < 2 ^ LENGTH('w) then Some (a * b) else None)"

definition saturating_mul :: "'w::len word \<Rightarrow> 'w word \<Rightarrow> 'w word" where
  "saturating_mul a b = (if unat a * unat b < 2 ^ LENGTH('w) then a * b else - 1)"

definition saturating_sub :: "'w::len word \<Rightarrow> 'w word \<Rightarrow> 'w word" where
  "saturating_sub a b = (if b \<le> a then a - b else 0)"

lemma usize_add_Ok [simp]: "a + b < 2 ^ 64 \<Longrightarrow> usize_add a b = Ok (a + b)"
  by (simp add: usize_add_def)

lemma usize_mul_Ok [simp]: "a * b < 2 ^ 64 \<Longrightarrow> usize_mul a b = Ok (a * b)"
  by (simp add: usize_mul_def)

lemma usize_add_eq_Ok [comp_iff]: "usize_add a b = Ok c \<longleftrightarrow> a + b < 2 ^ 64 \<and> c = a + b"
  by (auto simp: usize_add_def)

lemma usize_add_eq_Panic [comp_iff]: "usize_add a b = Panic \<longleftrightarrow> 2 ^ 64 \<le> a + b"
  by (auto simp: usize_add_def)

lemma usize_add_no_Err [simp]: "usize_add a b \<noteq> Err e"
  by (simp add: usize_add_def)

lemma unat_mult_fit:
  "unat (a :: 'w::len word) * unat b < 2 ^ LENGTH('w) \<Longrightarrow> unat (a * b) = unat a * unat b"
  by (simp add: unat_word_ariths)

lemma unat_add_fit:
  "unat (a :: 'w::len word) + unat b < 2 ^ LENGTH('w) \<Longrightarrow> unat (a + b) = unat a + unat b"
  by (simp add: unat_word_ariths)

lemma unat_u64_less: "unat (x :: u64) < 2 ^ 64"
  using unsigned_less [of x] by simp

lemma unat_of_nat_fit: "n < 2 ^ LENGTH('w) \<Longrightarrow> unat (of_nat n :: 'w::len word) = n"
  by (simp add: unat_of_nat)

lemma checked_mul_SomeD:
  "checked_mul (a :: 'w::len word) b = Some c \<Longrightarrow>
    unat c = unat a * unat b \<and> unat a * unat b < 2 ^ LENGTH('w)"
  by (auto simp: checked_mul_def unat_mult_fit split: if_splits)

lemma unat_saturating_mul:
  "unat (saturating_mul (a :: 'w::len word) b) = min (unat a * unat b) (2 ^ LENGTH('w) - 1)"
proof (cases "unat a * unat b < 2 ^ LENGTH('w)")
  case True
  then show ?thesis
    by (simp add: saturating_mul_def unat_mult_fit)
next
  case False
  then have "min (unat a * unat b) (2 ^ LENGTH('w) - 1) = 2 ^ LENGTH('w) - 1"
    by linarith
  with False show ?thesis
    by (simp add: saturating_mul_def unsigned_minus_1_eq_mask mask_eq_exp_minus_1)
qed

section \<open>Slices\<close>

text \<open>\<open>data.get(a..b)\<close>: the bytes from \<open>a\<close> up to \<open>b\<close>, or nothing when the range is not inside.\<close>

definition slice_get :: "'x list \<Rightarrow> nat \<Rightarrow> nat \<Rightarrow> 'x list option" where
  "slice_get xs a b = (if a \<le> b \<and> b \<le> length xs then Some (take (b - a) (drop a xs)) else None)"

text \<open>\<open>data.get(a..)\<close>.\<close>

definition slice_from :: "'x list \<Rightarrow> nat \<Rightarrow> 'x list option" where
  "slice_from xs a = (if a \<le> length xs then Some (drop a xs) else None)"

lemma slice_get_eq_Some:
  "slice_get xs a b = Some ys \<longleftrightarrow> a \<le> b \<and> b \<le> length xs \<and> ys = take (b - a) (drop a xs)"
  by (auto simp: slice_get_def)

lemma length_slice_get: "slice_get xs a b = Some ys \<Longrightarrow> length ys = b - a"
  by (auto simp: slice_get_eq_Some)

text \<open>The window of \<open>n\<close> elements at \<open>off\<close> (the part of it that exists).\<close>

abbreviation window :: "nat \<Rightarrow> nat \<Rightarrow> 'x list \<Rightarrow> 'x list" where
  "window off n xs \<equiv> take n (drop off xs)"

lemma window_of_window:
  "window a n (window b m xs) = window (b + a) (min n (m - a)) xs"
  by (simp add: drop_take ac_simps min.commute)

lemma window_min_length [simp]:
  "window off (min (length xs - off) n) xs = window off n xs"
  by (simp add: min_def)

lemma window_append: "window off n xs @ window (off + n) m xs = window off (n + m) xs"
proof -
  have "drop (off + n) xs = drop n (drop off xs)"
    by (simp add: ac_simps)
  then show ?thesis
    by (simp add: take_add)
qed

text \<open>\<open>data[off..off + n].copy_from_slice(bs)\<close>, for a range inside the data.\<close>

definition copy_at :: "nat \<Rightarrow> 'x list \<Rightarrow> 'x list \<Rightarrow> 'x list" where
  "copy_at off bs xs = take off xs @ bs @ drop (off + length bs) xs"

lemma length_copy_at [simp]:
  "off + length bs \<le> length xs \<Longrightarrow> length (copy_at off bs xs) = length xs"
  by (simp add: copy_at_def)

lemma window_copy_at_same:
  "\<lbrakk>off + length bs \<le> length xs; n = length bs\<rbrakk> \<Longrightarrow> window off n (copy_at off bs xs) = bs"
  by (simp add: copy_at_def)

lemma nth_copy_at:
  "\<lbrakk>off + length bs \<le> length xs; i < length xs\<rbrakk> \<Longrightarrow>
    copy_at off bs xs ! i = (if off \<le> i \<and> i < off + length bs then bs ! (i - off) else xs ! i)"
  by (auto simp: copy_at_def nth_append)

lemma window_copy_at_other:
  assumes "off + length bs \<le> length xs" and "off' + n \<le> off \<or> off + length bs \<le> off'"
  shows "window off' n (copy_at off bs xs) = window off' n xs"
  using assms by (intro nth_equalityI) (auto simp: nth_copy_at)

lemma window_copy_at_inside:
  assumes "off + length bs \<le> length xs" and "off \<le> o'" and "o' + n \<le> off + length bs"
  shows "window o' n (copy_at off bs xs) = window (o' - off) n bs"
  using assms by (intro nth_equalityI) (auto simp: nth_copy_at)

text \<open>Copying into one part of a concatenation, or at the end of a prefix.\<close>

lemma copy_at_copy_at:
  assumes "off + length xs + length ys \<le> length buf"
  shows "copy_at (off + length xs) ys (copy_at off xs buf) = copy_at off (xs @ ys) buf"
  using assms by (simp add: copy_at_def ac_simps)

lemma copy_at_left: "off + length bs \<le> length xs \<Longrightarrow> copy_at off bs (xs @ ys) = copy_at off bs xs @ ys"
  by (simp add: copy_at_def)

lemma copy_at_right: "length xs \<le> off \<Longrightarrow> copy_at off bs (xs @ ys) = xs @ copy_at (off - length xs) bs ys"
  by (simp add: copy_at_def)

lemma copy_at_window:
  assumes "a + n \<le> length xs" and "off + length bs \<le> n"
  shows "copy_at a (copy_at off bs (window a n xs)) xs = copy_at (a + off) bs xs"
  using assms by (intro nth_equalityI) (auto simp: nth_copy_at)

lemma set_copy_at: "set (copy_at off bs xs) \<subseteq> set bs \<union> set xs"
  by (auto simp: copy_at_def dest: in_set_takeD in_set_dropD)

text \<open>
  \<open>data[off..off + n].copy_from_slice(bs)\<close> and a function applied to \<open>&mut data[a..b]\<close>, with the
  panic of a range that is not inside the data.
\<close>

definition write_at :: "nat \<Rightarrow> 'x list \<Rightarrow> 'x list \<Rightarrow> ('e, 'x list) comp" where
  "write_at off bs xs = (if off + length bs \<le> length xs then Ok (copy_at off bs xs) else Panic)"

definition on_slice :: "nat \<Rightarrow> nat \<Rightarrow> ('x list \<Rightarrow> ('e, 'x list) comp) \<Rightarrow> 'x list \<Rightarrow> ('e, 'x list) comp" where
  "on_slice a b f xs =
    (case slice_get xs a b of
      None \<Rightarrow> Panic
    | Some part \<Rightarrow> chain (f part) (\<lambda>part'. Ok (copy_at a part' xs)))"

lemma write_at_Ok [simp]: "off + length bs \<le> length xs \<Longrightarrow> write_at off bs xs = Ok (copy_at off bs xs)"
  by (simp add: write_at_def)

lemma on_slice_write:
  "\<lbrakk>off + length bs \<le> b - a; a \<le> b; b \<le> length xs\<rbrakk> \<Longrightarrow>
    on_slice a b (write_at off bs) xs = Ok (copy_at (a + off) bs xs)"
  using copy_at_window [of a "b - a" xs off bs] by (simp add: on_slice_def slice_get_def)

text \<open>The \<open>i\<close>-th element of a list of encodings of equal width.\<close>

lemma window_concat_map:
  assumes "\<And>x. x \<in> set xs \<Longrightarrow> length (f x) = w" and "i < length xs"
  shows "window (i * w) w (concat (map f xs)) = f (xs ! i)"
  using assms
proof (induction xs arbitrary: i)
  case (Cons x xs)
  then show ?case
    by (cases i) auto
qed simp

lemma length_concat_map:
  "(\<And>x. x \<in> set xs \<Longrightarrow> length (f x) = w) \<Longrightarrow> length (concat (map f xs)) = length xs * w"
  by (induction xs) auto

section \<open>Integers as little-endian bytes\<close>

fun from_le_bytes :: "bytes \<Rightarrow> 'w::len word" where
  "from_le_bytes [] = 0"
| "from_le_bytes (b # bs) = ucast b OR push_bit 8 (from_le_bytes bs)"

definition to_le_bytes :: "nat \<Rightarrow> 'w::len word \<Rightarrow> bytes" where
  "to_le_bytes n w = map (\<lambda>i. ucast (drop_bit (8 * i) w)) [0..<n]"

lemma length_to_le_bytes [simp]: "length (to_le_bytes n w) = n"
  by (simp add: to_le_bytes_def)

lemma bit_from_le_bytes:
  "bit (from_le_bytes bs :: 'w::len word) k \<longleftrightarrow>
    k < LENGTH('w) \<and> k div 8 < length bs \<and> bit (bs ! (k div 8)) (k mod 8)"
proof (induction bs arbitrary: k)
  case Nil
  then show ?case by simp
next
  case (Cons b bs)
  show ?case
  proof (cases "k < 8")
    case True
    then show ?thesis
      by (auto simp: bit_or_iff bit_push_bit_iff bit_ucast_iff Cons.IH)
  next
    case False
    then have sh: "k div 8 = Suc ((k - 8) div 8)" and md: "k mod 8 = (k - 8) mod 8"
      by (simp_all add: le_div_geq le_mod_geq)
    have "\<not> bit b k"
      using False by (auto dest: bit_imp_le_length)
    then show ?thesis
      using False
      by (auto simp: bit_or_iff bit_push_bit_iff bit_ucast_iff Cons.IH sh md)
  qed
qed

lemma bit_to_le_bytes:
  "i < n \<Longrightarrow> bit (to_le_bytes n (w :: 'w::len word) ! i) j \<longleftrightarrow> j < 8 \<and> bit w (8 * i + j)"
  by (auto simp: to_le_bytes_def bit_ucast_iff bit_drop_bit_eq ac_simps dest: bit_imp_le_length)

lemma from_le_to_le:
  assumes "LENGTH('w) \<le> 8 * n"
  shows "from_le_bytes (to_le_bytes n w) = (w :: 'w::len word)"
proof (rule bit_word_eqI)
  fix k assume "k < LENGTH('w)"
  then have "k div 8 < n"
    using assms by auto
  with \<open>k < LENGTH('w)\<close> show "bit (from_le_bytes (to_le_bytes n w) :: 'w word) k \<longleftrightarrow> bit w k"
    by (simp add: bit_from_le_bytes bit_to_le_bytes)
qed

lemma to_le_from_le:
  assumes "8 * length bs \<le> LENGTH('w)"
  shows "to_le_bytes (length bs) (from_le_bytes bs :: 'w::len word) = bs"
proof (rule nth_equalityI)
  fix i assume "i < length (to_le_bytes (length bs) (from_le_bytes bs :: 'w word))"
  then have i: "i < length bs" by simp
  show "to_le_bytes (length bs) (from_le_bytes bs :: 'w word) ! i = bs ! i"
  proof (rule bit_word_eqI)
    fix j :: nat assume j: "j < LENGTH(8)"
    then have "8 * i + j < LENGTH('w)"
      using i assms by auto
    with i j show "bit (to_le_bytes (length bs) (from_le_bytes bs :: 'w word) ! i) j = bit (bs ! i) j"
      by (simp add: bit_to_le_bytes bit_from_le_bytes)
  qed
qed simp

lemma unat_from_le_bytes_less: "unat (from_le_bytes bs :: 'w::len word) < 2 ^ (8 * length bs)"
proof (cases "8 * length bs < LENGTH('w)")
  case True
  have "take_bit (8 * length bs) (from_le_bytes bs :: 'w word) = from_le_bytes bs"
    by (rule bit_eqI) (auto simp: bit_take_bit_iff bit_from_le_bytes)
  then have "unat (from_le_bytes bs :: 'w word) = take_bit (8 * length bs) (unat (from_le_bytes bs :: 'w word))"
    by (metis unsigned_take_bit_eq)
  then show ?thesis
    by (metis take_bit_nat_less_exp)
next
  case False
  then have "(2::nat) ^ LENGTH('w) \<le> 2 ^ (8 * length bs)"
    by (intro power_increasing) auto
  then show ?thesis
    using unsigned_less [of "from_le_bytes bs :: 'w word", where ?'a = nat] by linarith
qed

section \<open>Byte strings\<close>

text \<open>The UTF-8 bytes of an ASCII literal of the source.\<close>

definition str :: "string \<Rightarrow> bytes" where
  "str s = map of_char s"

lemma length_str [simp]: "length (str s) = length s"
  by (simp add: str_def)

end
