(* ===== verification/Errors.thy ===== *)
theory Errors
  imports Prelude
begin

text \<open>
  The error type of the decryptor (\<open>core/src/error.rs\<close>) and the part of \<open>std::io::Error\<close> the
  program distinguishes: an interrupted call (retried), the end of the file inside \<open>read_exact\<close>,
  the invalid argument of a seek, an error of the operating system by its code, an error of
  the program wrapped by \<open>io::Error::other\<close>, and a message wrapped by it.
\<close>

datatype FileVaultError =
    Io io_error
  | NotCoreStorage u16
  | UnsupportedEncryptionMethod u32
  | MetadataStructureMissing string
  | Base64 string
  | KeyUnwrap string
  | OutOfRange string
and io_error =
    Interrupted
  | UnexpectedEof
  | InvalidInput string
  | Os nat
  | Other FileVaultError
  | Message string

type_synonym 'a fv = "(FileVaultError, 'a) comp"
type_synonym 'a io_result = "(io_error, 'a) comp"

section \<open>Messages\<close>

text \<open>Decimal and hexadecimal rendering, as \<open>Display\<close> and \<open>LowerHex\<close> of the unsigned integers.\<close>

definition digit_char :: "nat \<Rightarrow> char" where
  "digit_char d = (if d < 10 then char_of (48 + d) else char_of (87 + d))"

fun show_radix :: "nat \<Rightarrow> nat \<Rightarrow> string" where
  "show_radix r n =
    (if r < 2 \<or> n < r then [digit_char n] else show_radix r (n div r) @ [digit_char (n mod r)])"

declare show_radix.simps [simp del]

abbreviation show_nat :: "nat \<Rightarrow> string" where
  "show_nat \<equiv> show_radix 10"

text \<open>\<open>{:#06x}\<close>: the prefix \<open>0x\<close> and zeros up to a total width of six.\<close>

definition show_hex06 :: "nat \<Rightarrow> string" where
  "show_hex06 n = (let ds = show_radix 16 n in ''0x'' @ replicate (4 - length ds) (CHR ''0'') @ ds)"

text \<open>
  The message of each error (the \<open>#[error(...)]\<close> attributes). The message of an I/O error is the
  platform's and stays a parameter.
\<close>

definition quote :: char where
  "quote = char_of (34 :: nat)"

fun display :: "(io_error \<Rightarrow> string) \<Rightarrow> FileVaultError \<Rightarrow> string" where
  "display show_io (Io e) = ''i/o error: '' @ show_io e"
| "display show_io (NotCoreStorage found) =
     ''not a CoreStorage volume: signature at offset 88 was '' @ show_hex06 (unat found) @
     '', expected 0x5343 ('' @ [quote] @ ''CS'' @ [quote] @ '')''"
| "display show_io (UnsupportedEncryptionMethod found) =
     ''unsupported encryption method '' @ show_nat (unat found) @
     '': only 2 (AES-XTS-128) is supported''"
| "display show_io (MetadataStructureMissing what) =
     ''required metadata structure not found: '' @ what"
| "display show_io (Base64 what) = ''base64 decode failed for '' @ what"
| "display show_io (KeyUnwrap what) =
     ''key unwrap failed for '' @ what @ '': wrong password or corrupt wrapped key''"
| "display show_io (OutOfRange what) = ''value out of range: '' @ what"

end
