(* ===== verification/Io.thy ===== *)
theory Io
  imports Errors
begin

text \<open>
  The part of \<open>std::io\<close> the program uses. A reader of the program is any type with \<open>Read\<close> and
  \<open>Seek\<close>; generic code gets the two methods as a record of functions over the reader's state, the
  way a trait's methods reach generic code. The record's \<open>read\<close> takes the length of the buffer and
  returns the bytes it wrote. The locale \<open>image_reader\<close> is the contract of a reader over a
  byte image: reads return consecutive bytes of the image, as few as the reader likes, with finitely
  many interruptions. Its lemmas say what the loops \<open>read_exact\<close> and \<open>read_full_or_eof\<close> of the
  program do on every such reader, and that they return. \<open>std::io::Cursor\<close> is the first
  interpretation; the decrypted volume is a later one.
\<close>

section \<open>Readers\<close>

datatype seek_from = Start u64 | End i64 | Current i64

record 'r read_seek =
  rd_read :: "'r \<Rightarrow> nat \<Rightarrow> 'r \<times> bytes io_result"
  rd_seek :: "'r \<Rightarrow> seek_from \<Rightarrow> 'r \<times> u64 io_result"

text \<open>
  A stateful computation over a reader: the new state and the outcome, or \<open>None\<close> when it does not
  return.
\<close>

type_synonym ('r, 'e, 'a) action = "'r \<Rightarrow> ('r \<times> ('e, 'a) comp) option"

definition return :: "('e, 'a) comp \<Rightarrow> ('r, 'e, 'a) action" where
  "return c r = Some (r, c)"

definition andThen :: "('r, 'e, 'a) action \<Rightarrow> ('a \<Rightarrow> ('r, 'e, 'b) action) \<Rightarrow> ('r, 'e, 'b) action" where
  "andThen m f r =
    (case m r of
      None \<Rightarrow> None
    | Some (r', Ok a) \<Rightarrow> f a r'
    | Some (r', Err e) \<Rightarrow> Some (r', Err e)
    | Some (r', Panic) \<Rightarrow> Some (r', Panic))"

text \<open>The conversion of an I/O error by the question mark (\<open>#[from] std::io::Error\<close>).\<close>

definition from_io :: "('r, io_error, 'a) action \<Rightarrow> ('r, FileVaultError, 'a) action" where
  "from_io m r = map_option (\<lambda>(r', c). (r', map_err Io c)) (m r)"

definition seek_start :: "'r read_seek \<Rightarrow> u64 \<Rightarrow> ('r, io_error, u64) action" where
  "seek_start ops off r = Some (rd_seek ops r (Start off))"

lemma andThen_return [simp]: "andThen (return (Ok a)) f = f a"
  by (rule ext) (simp add: andThen_def return_def)

lemma andThen_return_Err [simp]: "andThen (return (Err e)) f = return (Err e)"
  by (rule ext) (simp add: andThen_def return_def)

lemma andThen_return_Panic [simp]: "andThen (return Panic) f = return Panic"
  by (rule ext) (simp add: andThen_def return_def)

lemma andThen_eq_Ok:
  "andThen a f r = Some (r', Ok x) \<longleftrightarrow> (\<exists>r1 y. a r = Some (r1, Ok y) \<and> f y r1 = Some (r', Ok x))"
  by (auto simp: andThen_def split: option.splits prod.splits comp.splits)

lemma return_eq_Some: "return c r = Some (r', d) \<longleftrightarrow> r' = r \<and> c = d"
  by (auto simp: return_def)

lemma andThen_Ok: "m r = Some (r', Ok a) \<Longrightarrow> andThen m f r = f a r'"
  by (simp add: andThen_def)

lemma andThen_Err: "m r = Some (r', Err e) \<Longrightarrow> andThen m f r = Some (r', Err e)"
  by (simp add: andThen_def)

section \<open>Loops over a reader\<close>

text \<open>
  \<open>Read::read_exact\<close>: the loop of the standard library, with the bytes read so far as accumulator
  and the number still missing. A reader that reports more bytes than the rest of the buffer holds,
  which its contract forbids, makes the slice behind them panic.
\<close>

partial_function (option) read_exact_loop ::
  "'r read_seek \<Rightarrow> nat \<Rightarrow> bytes \<Rightarrow> 'r \<Rightarrow> ('r \<times> bytes io_result) option" where
  "read_exact_loop ops n acc r =
    (if n = 0 then Some (r, Ok acc)
     else
       (case rd_read ops r n of
         (r', Ok bs) \<Rightarrow>
           (if bs = [] then Some (r', Err UnexpectedEof)
            else if length bs \<le> n then read_exact_loop ops (n - length bs) (acc @ bs) r'
            else Some (r', Panic))
       | (r', Err e) \<Rightarrow> (if e = Interrupted then read_exact_loop ops n acc r' else Some (r', Err e))
       | (r', Panic) \<Rightarrow> Some (r', Panic)))"

definition read_exact :: "'r read_seek \<Rightarrow> nat \<Rightarrow> ('r, io_error, bytes) action" where
  "read_exact ops n = read_exact_loop ops n []"

section \<open>The contract of an image reader\<close>

text \<open>
  \<open>image\<close> is the content, \<open>pos\<close> the position, and \<open>patience\<close> bounds the interruptions still to
  come. A seek to an offset that fits a signed 64-bit integer succeeds; beyond that a file's seek
  fails, a cursor's does not.
\<close>

locale image_reader =
  fixes ops :: "'r read_seek"
    and ok :: "'r \<Rightarrow> bool"
    and image :: "'r \<Rightarrow> bytes"
    and pos :: "'r \<Rightarrow> nat"
    and patience :: "'r \<Rightarrow> nat"
  assumes image_small: "ok r \<Longrightarrow> length (image r) < 2 ^ 63"
    and seek_start_law: "\<lbrakk>ok r; rd_seek ops r (Start off) = (r', sres)\<rbrakk> \<Longrightarrow>
      ok r' \<and> image r' = image r \<and>
      (sres = Ok off \<and> pos r' = unat off \<or> 2 ^ 63 \<le> unat off \<and> (\<exists>e. sres = Err e))"
    and read_law: "\<lbrakk>ok r; 0 < n; n < 2 ^ 64; rd_read ops r n = (r', res)\<rbrakk> \<Longrightarrow>
      ok r' \<and> image r' = image r \<and>
      (res = Err Interrupted \<and> pos r' = pos r \<and> patience r' < patience r \<or>
       patience r' \<le> patience r \<and>
       (\<exists>bs. res = Ok bs \<and> bs = window (pos r) (length bs) (image r) \<and> length bs \<le> n \<and>
         pos r' = pos r + length bs \<and> (bs = [] \<longrightarrow> length (image r) \<le> pos r)))"
begin

text \<open>One step of a reading loop: interrupted, at the end, or some bytes further.\<close>

lemma read_cases:
  assumes "ok r" and "0 < n" and "n < 2 ^ 64"
  obtains
    (interrupted) r' where "rd_read ops r n = (r', Err Interrupted)" "ok r'" "image r' = image r"
      "pos r' = pos r" "patience r' < patience r"
  | (eof) r' where "rd_read ops r n = (r', Ok [])" "ok r'" "image r' = image r" "pos r' = pos r"
      "length (image r) \<le> pos r"
  | (some_bytes) r' k where "rd_read ops r n = (r', Ok (window (pos r) k (image r)))" "ok r'"
      "image r' = image r" "patience r' \<le> patience r" "0 < k" "k \<le> n" "pos r + k \<le> length (image r)" "pos r' = pos r + k"
proof -
  obtain r' res where rd: "rd_read ops r n = (r', res)"
    by (cases "rd_read ops r n")
  note law = read_law [OF assms rd]
  then consider "res = Err Interrupted" "pos r' = pos r" "patience r' < patience r"
    | bs where "patience r' \<le> patience r" "res = Ok bs" "bs = window (pos r) (length bs) (image r)" "length bs \<le> n"
        "pos r' = pos r + length bs" "bs = [] \<longrightarrow> length (image r) \<le> pos r"
    by blast
  then show thesis
  proof cases
    case 1
    with rd law interrupted show ?thesis by blast
  next
    case (2 bs)
    show ?thesis
    proof (cases "bs = []")
      case True
      with 2 rd law eof show ?thesis by auto
    next
      case False
      have "length bs = min (length bs) (length (image r) - pos r)"
        using arg_cong [OF 2(3), of length] by simp
      then have "pos r + length bs \<le> length (image r)"
        using False by (cases bs) auto
      with 2 False rd law some_bytes [of r' "length bs"] show ?thesis by simp
    qed
  qed
qed

lemma read_exact_loop_correct:
  assumes "ok r" and "n < 2 ^ 64"
  shows "\<exists>r'. ok r' \<and> image r' = image r \<and>
    read_exact_loop ops n acc r =
      Some (r', if n = 0 \<or> pos r + n \<le> length (image r)
                then Ok (acc @ window (pos r) n (image r)) else Err UnexpectedEof) \<and>
    (n = 0 \<or> pos r + n \<le> length (image r) \<longrightarrow> pos r' = pos r + n)"
  using assms
proof (induction "n + patience r" arbitrary: n acc r rule: less_induct)
  case less
  show ?case
  proof (cases "n = 0")
    case True
    with less.prems show ?thesis by (auto simp: read_exact_loop.simps)
  next
    case False
    then have "0 < n" by simp
    with less.prems(1) show ?thesis
      using less.prems(2)
    proof (cases rule: read_cases)
      case (interrupted r')
      with less.hyps [of n r' acc] less.prems(2) False show ?thesis
        by (subst read_exact_loop.simps) auto
    next
      case (eof r')
      with False less.prems show ?thesis
        by (subst read_exact_loop.simps) auto
    next
      case (some_bytes r' k)
      then have len: "length (window (pos r) k (image r)) = k"
        by simp
      have ih: "\<exists>r''. ok r'' \<and> image r'' = image r' \<and>
          read_exact_loop ops (n - k) (acc @ window (pos r) k (image r)) r' =
            Some (r'', if n - k = 0 \<or> pos r' + (n - k) \<le> length (image r')
              then Ok ((acc @ window (pos r) k (image r)) @ window (pos r') (n - k) (image r'))
              else Err UnexpectedEof) \<and>
          (n - k = 0 \<or> pos r' + (n - k) \<le> length (image r') \<longrightarrow> pos r'' = pos r' + (n - k))"
        using some_bytes less.prems(2) by (intro less.hyps) auto
      have "window (pos r) k (image r) @ window (pos r + k) (n - k) (image r) =
          window (pos r) n (image r)"
        using some_bytes by (simp add: window_append)
      moreover have "read_exact_loop ops n acc r =
          read_exact_loop ops (n - k) (acc @ window (pos r) k (image r)) r'"
        using False some_bytes len by (subst read_exact_loop.simps) auto
      moreover have "n - k = 0 \<or> pos r' + (n - k) \<le> length (image r') \<longleftrightarrow> pos r + n \<le> length (image r)"
        using some_bytes by auto
      ultimately show ?thesis
        using ih False some_bytes by auto
    qed
  qed
qed

lemma seek_start_cases:
  assumes "ok r"
  obtains
    (sought) r' where "seek_start ops off r = Some (r', Ok off)" "ok r'" "image r' = image r"
      "pos r' = unat off"
  | (refused) r' e where "seek_start ops off r = Some (r', Err e)" "ok r'" "image r' = image r"
      "2 ^ 63 \<le> unat off"
proof -
  obtain r' res where sk: "rd_seek ops r (Start off) = (r', res)"
    by (cases "rd_seek ops r (Start off)")
  from seek_start_law [OF assms sk] sk show thesis
    using sought refused by (auto simp: seek_start_def)
qed

text \<open>
  The bootstrap's access pattern, a seek followed by \<open>read_exact\<close>: the bytes of the image at that
  offset, or an I/O error when the image ends before.
\<close>

lemma seek_read_exact:
  assumes "ok r" and "0 < n" and "n < 2 ^ 64"
  shows "\<exists>r'. ok r' \<and> image r' = image r \<and>
    (if unat off + n \<le> length (image r)
     then andThen (from_io (seek_start ops off)) (\<lambda>_. from_io (read_exact ops n)) r =
            Some (r', Ok (window (unat off) n (image r)))
     else \<exists>e. andThen (from_io (seek_start ops off)) (\<lambda>_. from_io (read_exact ops n)) r =
            Some (r', Err (Io e)))"
  using assms(1)
proof (cases rule: seek_start_cases [where off = off])
  case (sought r')
  then show ?thesis
    using read_exact_loop_correct [of r' n "[]"] assms(2,3)
    by (auto simp: andThen_def from_io_def read_exact_def)
next
  case (refused r' e)
  then show ?thesis
    using image_small [OF assms(1)] assms(2) by (auto simp: andThen_def from_io_def)
qed

end

section \<open>std::io::Cursor\<close>

record cursor =
  cur_data :: bytes
  cur_pos :: u64

text \<open>A signed offset added to a position; \<open>None\<close> when the result is not a \<open>u64\<close>.\<close>

definition checked_add_signed :: "u64 \<Rightarrow> i64 \<Rightarrow> u64 option" where
  "checked_add_signed base off =
    (if 0 \<le> sint off then checked_add base off else checked_sub base (- off))"

definition cursor_read :: "cursor \<Rightarrow> nat \<Rightarrow> cursor \<times> bytes io_result" where
  "cursor_read c n =
    (let bs = take n (drop (min (unat (cur_pos c)) (length (cur_data c))) (cur_data c))
     in (c\<lparr>cur_pos := cur_pos c + of_nat (length bs)\<rparr>, Ok bs))"

fun cursor_seek :: "cursor \<Rightarrow> seek_from \<Rightarrow> cursor \<times> u64 io_result" where
  "cursor_seek c (Start n) = (c\<lparr>cur_pos := n\<rparr>, Ok n)"
| "cursor_seek c (End n) =
     (case checked_add_signed (of_nat (length (cur_data c))) n of
       Some p \<Rightarrow> (c\<lparr>cur_pos := p\<rparr>, Ok p)
     | None \<Rightarrow> (c, Err (InvalidInput ''invalid seek to a negative or overflowing position'')))"
| "cursor_seek c (Current n) =
     (case checked_add_signed (cur_pos c) n of
       Some p \<Rightarrow> (c\<lparr>cur_pos := p\<rparr>, Ok p)
     | None \<Rightarrow> (c, Err (InvalidInput ''invalid seek to a negative or overflowing position'')))"

definition cursor_ops :: "cursor read_seek" where
  "cursor_ops = \<lparr>rd_read = cursor_read, rd_seek = cursor_seek\<rparr>"

definition cursor_new :: "bytes \<Rightarrow> cursor" where
  "cursor_new bs = \<lparr>cur_data = bs, cur_pos = 0\<rparr>"

definition cursor_ok :: "cursor \<Rightarrow> bool" where
  "cursor_ok c \<longleftrightarrow> length (cur_data c) < 2 ^ 63"

lemma cursor_image: "length img < 2 ^ 63 \<Longrightarrow> cursor_ok (cursor_new img)" "cur_data (cursor_new img) = img"
  by (simp_all add: cursor_ok_def cursor_new_def)

abbreviation cursor_offset :: "cursor \<Rightarrow> nat" where
  "cursor_offset c \<equiv> unat (cur_pos c)"

interpretation cur: image_reader cursor_ops cursor_ok cur_data cursor_offset "\<lambda>_. 0"
proof unfold_locales
  fix r r' :: cursor and off sres
  assume "cursor_ok r" and "rd_seek cursor_ops r (Start off) = (r', sres)"
  then show "cursor_ok r' \<and> cur_data r' = cur_data r \<and>
      (sres = Ok off \<and> cursor_offset r' = unat off \<or> 2 ^ 63 \<le> unat off \<and> (\<exists>e. sres = Err e))"
    by (auto simp: cursor_ops_def cursor_ok_def)
next
  fix r r' :: cursor and n :: nat and res
  assume ok: "cursor_ok r" and n: "0 < n" "n < 2 ^ 64" and rd: "rd_read cursor_ops r n = (r', res)"
  let ?bs = "window (unat (cur_pos r)) n (cur_data r)"
  have r': "r' = r\<lparr>cur_pos := cur_pos r + of_nat (length ?bs)\<rparr>" and res: "res = Ok ?bs"
    using rd by (auto simp: cursor_ops_def cursor_read_def Let_def min_def)
  have "unat (cur_pos r + of_nat (length ?bs)) = unat (cur_pos r) + length ?bs"
  proof (cases "unat (cur_pos r) < length (cur_data r)")
    case True
    then have "unat (cur_pos r) + length ?bs < 2 ^ 63"
      using ok by (simp add: cursor_ok_def)
    then show ?thesis
      by (simp add: unat_word_ariths unat_of_nat)
  next
    case False
    then show ?thesis by simp
  qed
  then show "cursor_ok r' \<and> cur_data r' = cur_data r \<and>
      (res = Err Interrupted \<and> cursor_offset r' = cursor_offset r \<and> (0::nat) < 0 \<or>
       (0::nat) \<le> 0 \<and> (\<exists>bs. res = Ok bs \<and> bs = window (cursor_offset r) (length bs) (cur_data r) \<and>
         length bs \<le> n \<and> cursor_offset r' = cursor_offset r + length bs \<and>
         (bs = [] \<longrightarrow> length (cur_data r) \<le> cursor_offset r)))"
    using ok n by (auto simp: r' res cursor_ok_def)
qed (simp add: cursor_ok_def)

end
