(* ===== verification/Primitives.thy ===== *)
theory Primitives
  imports Prelude
begin

text \<open>
  The third-party crates the program calls, as a record of functions that every definition using
  them takes as its first argument: \<open>xts-mode\<close> over \<open>aes\<close>, \<open>pbkdf2\<close> over \<open>hmac\<close> and \<open>sha2\<close>,
  \<open>aes-kw\<close>, \<open>sha2\<close>, \<open>base64\<close> and \<open>uuid\<close>. What the program relies on is stated as named
  hypotheses, predicates on the record that say what those crates document.

  \<^item> \<open>xts_decrypt_area P k1 k2 u i b\<close>: \<open>Xts128::decrypt_area\<close> on the buffer \<open>b\<close> with units of \<open>u\<close>
    bytes, first index \<open>i\<close> and the default tweak; \<open>None\<close> when it panics.
  \<^item> \<open>pbkdf2_sha256 P pw salt rounds\<close>: the sixteen bytes derived, \<open>None\<close> when the call fails.
  \<^item> \<open>kw_unwrap P kek wrapped\<close>: RFC 3394 key unwrap, \<open>None\<close> when the integrity check fails.
  \<^item> \<open>sha256 P bs\<close>: the 32-byte digest.
  \<^item> \<open>base64_decode P bs\<close>: the standard alphabet's decoder, \<open>None\<close> on malformed input.
  \<^item> \<open>uuid_parse P s\<close> and \<open>uuid_hyphenated P bs\<close>: \<open>Uuid::parse_str\<close> and the hyphenated form.
\<close>

record prims =
  xts_decrypt_area :: "bytes \<Rightarrow> bytes \<Rightarrow> nat \<Rightarrow> u128 \<Rightarrow> bytes \<Rightarrow> bytes option"
  pbkdf2_sha256 :: "bytes \<Rightarrow> bytes \<Rightarrow> u32 \<Rightarrow> bytes option"
  kw_unwrap :: "bytes \<Rightarrow> bytes \<Rightarrow> bytes option"
  sha256 :: "bytes \<Rightarrow> bytes"
  base64_decode :: "bytes \<Rightarrow> bytes option"
  uuid_parse :: "bytes \<Rightarrow> bytes option"
  uuid_hyphenated :: "bytes \<Rightarrow> bytes"

section \<open>What the crates document\<close>

text \<open>
  An area is decrypted unit by unit, the index going up by one; a last, shorter unit is decrypted
  too (with ciphertext stealing) if it holds at least one AES block, and panics otherwise. The
  length does not change.
\<close>

definition xts_documented :: "prims \<Rightarrow> bool" where
  "xts_documented P \<longleftrightarrow>
    (\<forall>k1 k2 u i. length k1 = 16 \<and> length k2 = 16 \<and> 16 \<le> u \<longrightarrow>
      xts_decrypt_area P k1 k2 u i [] = Some [] \<and>
      (\<forall>a. 16 \<le> length a \<and> length a \<le> u \<longrightarrow>
        (\<exists>x. xts_decrypt_area P k1 k2 u i a = Some x \<and> length x = length a)) \<and>
      (\<forall>a. 0 < length a \<and> length a < 16 \<longrightarrow> xts_decrypt_area P k1 k2 u i a = None) \<and>
      (\<forall>a x b. i + 1 \<noteq> 0 \<and> length a = u \<and> xts_decrypt_area P k1 k2 u i a = Some x \<longrightarrow>
        xts_decrypt_area P k1 k2 u i (a @ b) =
          map_option ((@) x) (xts_decrypt_area P k1 k2 u (i + 1) b)))"

definition kdf_documented :: "prims \<Rightarrow> bool" where
  "kdf_documented P \<longleftrightarrow>
    (\<forall>pw salt rounds. 0 < rounds \<longrightarrow>
      (\<exists>k. pbkdf2_sha256 P pw salt rounds = Some k \<and> length k = 16)) \<and>
    (\<forall>kek w k. length w = 24 \<and> kw_unwrap P kek w = Some k \<longrightarrow> length k = 16) \<and>
    (\<forall>bs. length (sha256 P bs) = 32)"

definition uuid_documented :: "prims \<Rightarrow> bool" where
  "uuid_documented P \<longleftrightarrow>
    (\<forall>s u. uuid_parse P s = Some u \<longrightarrow> length u = 16) \<and>
    (\<forall>u. length u = 16 \<longrightarrow> uuid_parse P (uuid_hyphenated P u) = Some u)"

section \<open>Consequences for areas of any length\<close>

definition xts_keyed :: "prims \<Rightarrow> bytes \<Rightarrow> bytes \<Rightarrow> nat \<Rightarrow> bool" where
  "xts_keyed P k1 k2 u \<longleftrightarrow> xts_documented P \<and> length k1 = 16 \<and> length k2 = 16 \<and> 16 \<le> u"

lemma xts_nil: "xts_keyed P k1 k2 u \<Longrightarrow> xts_decrypt_area P k1 k2 u i [] = Some []"
  unfolding xts_keyed_def xts_documented_def by blast

lemma xts_unit:
  assumes "xts_keyed P k1 k2 u" and "16 \<le> length a" and "length a \<le> u"
  obtains x where "xts_decrypt_area P k1 k2 u i a = Some x" and "length x = length a"
  using assms unfolding xts_keyed_def xts_documented_def by blast

lemma xts_short:
  "\<lbrakk>xts_keyed P k1 k2 u; 0 < length a; length a < 16\<rbrakk> \<Longrightarrow> xts_decrypt_area P k1 k2 u i a = None"
  unfolding xts_keyed_def xts_documented_def by blast

lemma xts_cons:
  "\<lbrakk>xts_keyed P k1 k2 u; i + 1 \<noteq> 0; length a = u; xts_decrypt_area P k1 k2 u i a = Some x\<rbrakk> \<Longrightarrow>
    xts_decrypt_area P k1 k2 u i (a @ b) = map_option ((@) x) (xts_decrypt_area P k1 k2 u (i + 1) b)"
  unfolding xts_keyed_def xts_documented_def by blast

lemma word_succ_room:
  assumes "unat (i :: 'w::len word) + Suc n < 2 ^ LENGTH('w)"
  shows "i + 1 \<noteq> 0" and "unat (i + 1) = Suc (unat i)"
proof -
  show eq: "unat (i + 1) = Suc (unat i)"
    using assms by (simp add: unat_word_ariths)
  then show "i + 1 \<noteq> 0"
    by (metis nat.distinct(1) unsigned_0)
qed

lemma map_option_append_Nil [simp]: "map_option ((@) []) m = m"
  by (cases m) auto

lemma map_option_append:
  "map_option ((@) (x @ y)) m = map_option ((@) x) (map_option ((@) y) m)"
  by (cases m) auto

text \<open>Whole units: decryption succeeds, keeps the length, and splits at every unit boundary.\<close>

lemma xts_whole_units:
  assumes "xts_keyed P k1 k2 u" and "length a = n * u" and "unat i + n < 2 ^ 128"
  shows "\<exists>x. xts_decrypt_area P k1 k2 u i a = Some x \<and> length x = length a \<and>
    (\<forall>b. xts_decrypt_area P k1 k2 u i (a @ b) =
      map_option ((@) x) (xts_decrypt_area P k1 k2 u (i + of_nat n) b))"
  using assms(2,3)
proof (induction n arbitrary: a i)
  case 0
  then show ?case
    using xts_nil [OF assms(1)] by simp
next
  case (Suc n)
  let ?D = "xts_decrypt_area P k1 k2 u"
  have u: "16 \<le> u"
    using assms(1) by (simp add: xts_keyed_def)
  obtain h t where a: "a = h @ t" and h: "length h = u" and t: "length t = n * u"
    using Suc.prems(1) by (intro that [of "take u a" "drop u a"]) auto
  obtain x where x: "?D i h = Some x" "length x = u"
    using xts_unit [OF assms(1), of h i] h u by auto
  have room: "i + 1 \<noteq> 0" "unat (i + 1) = Suc (unat i)"
    using word_succ_room [of i n] Suc.prems(2) by simp_all
  obtain y where y: "?D (i + 1) t = Some y" "length y = length t"
      "\<And>b. ?D (i + 1) (t @ b) = map_option ((@) y) (?D (i + 1 + of_nat n) b)"
    using Suc.IH [OF t, of "i + 1"] Suc.prems(2) room by auto
  have "?D i a = Some (x @ y)"
    using xts_cons [OF assms(1) room(1) h x(1), of t] y(1) by (simp add: a)
  moreover have "?D i (a @ b) = map_option ((@) (x @ y)) (?D (i + of_nat (Suc n)) b)" for b
    using xts_cons [OF assms(1) room(1) h x(1), of "t @ b"] y(3) [of b]
    by (simp add: a map_option_append ac_simps)
  ultimately show ?case
    using x y h by (auto simp: a)
qed

text \<open>
  An area decrypts exactly when its last, partial unit is empty or holds a whole AES block; the
  length is kept.
\<close>

lemma xts_area:
  assumes "xts_keyed P k1 k2 u" and "unat i + length a div u < 2 ^ 128"
  shows "if 0 < length a mod u \<and> length a mod u < 16
    then xts_decrypt_area P k1 k2 u i a = None
    else \<exists>x. xts_decrypt_area P k1 k2 u i a = Some x \<and> length x = length a"
proof -
  let ?D = "xts_decrypt_area P k1 k2 u" and ?n = "length a div u"
  let ?w = "take (?n * u) a" and ?r = "drop (?n * u) a"
  have u: "0 < u"
    using assms(1) by (simp add: xts_keyed_def)
  have len: "length ?w = ?n * u" "length ?r = length a mod u"
    by (simp_all add: minus_div_mult_eq_mod)
  obtain x where x: "length x = length ?w"
      "?D i (?w @ ?r) = map_option ((@) x) (?D (i + of_nat ?n) ?r)"
    using xts_whole_units [OF assms(1) len(1) assms(2)] by blast
  show ?thesis
  proof (cases "?r = []")
    case True
    then show ?thesis
      using x xts_nil [OF assms(1)] len by auto
  next
    case False
    then have pos: "0 < length ?r" by simp
    show ?thesis
    proof (cases "length ?r < 16")
      case True
      with x pos len show ?thesis
        using xts_short [OF assms(1) pos True] by simp
    next
      case False
      have "length ?r \<le> u"
        using u len(2) by (simp add: less_imp_le)
      then obtain y where "?D (i + of_nat ?n) ?r = Some y" "length y = length ?r"
        using xts_unit [OF assms(1), of ?r "i + of_nat ?n"] False by auto
      with x False len show ?thesis by auto
    qed
  qed
qed

section \<open>A concrete instance\<close>

text \<open>
  Functions that satisfy every hypothesis above, so that a property resting on them can be shown
  to apply: an area is masked with the low byte of its unit index, a wrapped key is its key after
  an eight-byte check value, the other functions are simple total functions.
\<close>

function mask_area :: "nat \<Rightarrow> u128 \<Rightarrow> bytes \<Rightarrow> bytes option" where
  "mask_area u i b =
    (if b = [] then Some []
     else if u = 0 \<or> length b < 16 then None
     else map_option ((@) (map (\<lambda>x. x XOR ucast i) (take u b))) (mask_area u (i + 1) (drop u b)))"
  by pat_completeness auto
termination
  by (relation "measure (\<lambda>(u, i, b). length b)") auto

declare mask_area.simps [simp del]

definition demo_prims :: prims where
  "demo_prims =
    \<lparr>xts_decrypt_area = (\<lambda>k1 k2 u i b. mask_area u i b),
     pbkdf2_sha256 = (\<lambda>pw salt rounds. Some (take 16 (pw @ replicate 16 0))),
     kw_unwrap = (\<lambda>kek w. if take 8 w = take 8 kek then Some (take 16 (drop 8 w @ replicate 16 0)) else None),
     sha256 = (\<lambda>bs. take 32 (bs @ replicate 32 0)),
     base64_decode = Some,
     uuid_parse = (\<lambda>s. if length s = 16 then Some s else None),
     uuid_hyphenated = (\<lambda>bs. bs)\<rparr>"

lemma mask_area_nil [simp]: "mask_area u i [] = Some []"
  by (simp add: mask_area.simps)

lemma mask_area_append:
  "\<lbrakk>16 \<le> u; length a = u\<rbrakk> \<Longrightarrow>
    mask_area u i (a @ b) = map_option ((@) (map (\<lambda>x. x XOR ucast i) a)) (mask_area u (i + 1) b)"
  by (subst mask_area.simps) auto

lemma mask_area_unit:
  "\<lbrakk>16 \<le> length a; length a \<le> u\<rbrakk> \<Longrightarrow> mask_area u i a = Some (map (\<lambda>x. x XOR ucast i) a)"
  by (subst mask_area.simps) auto

lemma demo_documented:
  "xts_documented demo_prims" "kdf_documented demo_prims" "uuid_documented demo_prims"
proof -
  show "xts_documented demo_prims"
    by (auto simp: xts_documented_def demo_prims_def mask_area_append mask_area_unit)
      (subst mask_area.simps, simp)
qed (auto simp: kdf_documented_def uuid_documented_def demo_prims_def split: if_splits)

end
