(* ===== verification/Xts.thy ===== *)
theory Xts
  imports Primitives Errors
begin

text \<open>
  The AES-XTS-128 wrapper (\<open>core/src/xts.rs\<close>): the whole buffer is handed to \<open>xts-mode\<close>, which
  works in place; the model returns the new buffer.
\<close>

definition decrypt_units ::
  "prims \<Rightarrow> bytes \<Rightarrow> bytes \<Rightarrow> bytes \<Rightarrow> nat \<Rightarrow> u128 \<Rightarrow> ('e, bytes) comp" where
  "decrypt_units P buffer key1 key2 unit_size first_unit_index =
    or_panic (xts_decrypt_area P key1 key2 unit_size first_unit_index buffer)"

lemma decrypt_units_no_Err [simp]: "decrypt_units P b k1 k2 u i \<noteq> Err e"
  by (simp add: decrypt_units_def)

lemma decrypt_units_cases:
  assumes "xts_keyed P k1 k2 u" and "unat i + length b div u < 2 ^ 128"
  shows "if 0 < length b mod u \<and> length b mod u < 16
    then decrypt_units P b k1 k2 u i = Panic
    else \<exists>x. decrypt_units P b k1 k2 u i = Ok x \<and> length x = length b"
  using xts_area [OF assms] by (auto simp: decrypt_units_def split: if_splits)

text \<open>Units are independent: a run of whole units in the middle decrypts to the middle of the whole.\<close>

lemma decrypt_units_window:
  assumes "xts_keyed P k1 k2 u" and "length b = m * u" and "f + n \<le> m" and "unat i + m < 2 ^ 128"
    and "decrypt_units P b k1 k2 u i = Ok x"
  shows "decrypt_units P (window (f * u) (n * u) b) k1 k2 u (i + of_nat f) =
    Ok (window (f * u) (n * u) x)"
proof -
  let ?D = "xts_decrypt_area P k1 k2 u"
  let ?a = "take (f * u) b" and ?c = "window (f * u) (n * u) b" and ?r = "drop (f * u + n * u) b"
  have b: "b = ?a @ ?c @ ?r"
    by (metis append_take_drop_id drop_drop add.commute)
  have "f * u + n * u \<le> length b"
    using mult_le_mono1 [OF assms(3), of u] by (simp add: assms(2) add_mult_distrib)
  then have la: "length ?a = f * u" and lc: "length ?c = n * u"
    by simp_all
  have room: "unat i + f < 2 ^ 128" "unat (i + of_nat f :: u128) + n < 2 ^ 128"
    using assms(3,4) by (simp_all add: unat_word_ariths unat_of_nat)
  obtain xa where xa: "length xa = length ?a"
      "?D i (?a @ ?c @ ?r) = map_option ((@) xa) (?D (i + of_nat f) (?c @ ?r))"
    using xts_whole_units [OF assms(1) la room(1)] by blast
  obtain xc where xc: "?D (i + of_nat f) ?c = Some xc" "length xc = length ?c"
      "?D (i + of_nat f) (?c @ ?r) = map_option ((@) xc) (?D (i + of_nat f + of_nat n) ?r)"
    using xts_whole_units [OF assms(1) lc room(2)] by blast
  have "?D i b = map_option ((@) xa) (map_option ((@) xc) (?D (i + of_nat f + of_nat n) ?r))"
    using xa(2) xc(3) b by metis
  then obtain xr where "x = xa @ xc @ xr"
    using assms(5) by (auto simp: decrypt_units_def comp_iff)
  then have "window (f * u) (n * u) x = xc"
    using xa xc la lc by simp
  with xc show ?thesis
    by (simp add: decrypt_units_def)
qed

end
