(* ===== verification/Rust_Str.thy ===== *)
theory Rust_Str
  imports Errors "HOL-Library.Monad_Syntax"
begin

text \<open>
  The parts of the standard library's slices and strings the metadata extraction uses:
  \<open>windows\<close> and \<open>position\<close>, the validity of UTF-8, \<open>trim\<close> (Unicode white space on UTF-8 bytes) and
  \<open>from_str_radix\<close> of the unsigned integers.
\<close>

section \<open>Windows and position\<close>

definition windows :: "nat \<Rightarrow> 'a list \<Rightarrow> 'a list list" where
  "windows n xs = map (\<lambda>i. window i n xs) [0..<length xs + 1 - n]"

fun position :: "('a \<Rightarrow> bool) \<Rightarrow> 'a list \<Rightarrow> nat option" where
  "position p [] = None"
| "position p (x # xs) = (if p x then Some 0 else map_option Suc (position p xs))"

lemma position_eq_Some:
  "position p xs = Some i \<longleftrightarrow> i < length xs \<and> p (xs ! i) \<and> (\<forall>j<i. \<not> p (xs ! j))"
proof (induction xs arbitrary: i)
  case (Cons x xs)
  show ?case
  proof (cases "p x")
    case True
    then show ?thesis by (auto simp: less_Suc_eq_0_disj intro: ccontr)
  next
    case False
    then show ?thesis
      by (cases i) (auto simp: Cons.IH All_less_Suc2)
  qed
qed simp

lemma position_eq_None: "position p xs = None \<longleftrightarrow> (\<forall>x\<in>set xs. \<not> p x)"
  by (induction xs) auto

section \<open>ASCII and UTF-8\<close>

definition is_ascii_whitespace :: "u8 \<Rightarrow> bool" where
  "is_ascii_whitespace b \<longleftrightarrow> b \<in> {0x20, 0x09, 0x0A, 0x0C, 0x0D}"

definition in_range :: "u8 \<Rightarrow> u8 \<Rightarrow> u8 \<Rightarrow> bool" where
  "in_range lo hi b \<longleftrightarrow> lo \<le> b \<and> b \<le> hi"

abbreviation utf8_cont :: "u8 \<Rightarrow> bool" where
  "utf8_cont \<equiv> in_range 0x80 0xBF"

text \<open>The range of the second byte of a three- or four-byte sequence, by its first byte.\<close>

definition utf8_second :: "u8 \<Rightarrow> u8 \<Rightarrow> bool" where
  "utf8_second b0 b1 \<longleftrightarrow>
    (if b0 = 0xE0 then in_range 0xA0 0xBF b1
     else if b0 = 0xED then in_range 0x80 0x9F b1
     else if b0 = 0xF0 then in_range 0x90 0xBF b1
     else if b0 = 0xF4 then in_range 0x80 0x8F b1
     else utf8_cont b1)"

fun utf8_valid :: "bytes \<Rightarrow> bool" where
  "utf8_valid [] = True"
| "utf8_valid (b0 # bs) =
    (if b0 < 0x80 then utf8_valid bs
     else if in_range 0xC2 0xDF b0 then
       (case bs of b1 # rest \<Rightarrow> utf8_cont b1 \<and> utf8_valid rest | _ \<Rightarrow> False)
     else if in_range 0xE0 0xEF b0 then
       (case bs of b1 # b2 # rest \<Rightarrow> utf8_second b0 b1 \<and> utf8_cont b2 \<and> utf8_valid rest | _ \<Rightarrow> False)
     else if in_range 0xF0 0xF4 b0 then
       (case bs of
         b1 # b2 # b3 # rest \<Rightarrow>
           utf8_second b0 b1 \<and> utf8_cont b2 \<and> utf8_cont b3 \<and> utf8_valid rest
       | _ \<Rightarrow> False)
     else False)"

lemma utf8_valid_ascii: "(\<forall>b\<in>set bs. b < 0x80) \<Longrightarrow> utf8_valid bs"
  by (induction bs) auto

section \<open>Trimming\<close>

text \<open>The UTF-8 encodings of the characters with the property \<open>White_Space\<close>.\<close>

definition white_space :: "bytes list" where
  "white_space =
    map (\<lambda>b. [b]) [0x09, 0x0A, 0x0B, 0x0C, 0x0D, 0x20] @
    [[0xC2, 0x85], [0xC2, 0xA0], [0xE1, 0x9A, 0x80]] @
    map (\<lambda>b. [0xE2, 0x80, b])
      [0x80, 0x81, 0x82, 0x83, 0x84, 0x85, 0x86, 0x87, 0x88, 0x89, 0x8A, 0xA8, 0xA9, 0xAF] @
    [[0xE2, 0x81, 0x9F], [0xE3, 0x80, 0x80]]"

definition is_white :: "bytes \<Rightarrow> bool" where
  "is_white c \<longleftrightarrow> c \<in> set white_space"

function trim_start :: "bytes \<Rightarrow> bytes" where
  "trim_start s =
    (if s = [] then []
     else if is_white (take 1 s) then trim_start (drop 1 s)
     else if is_white (take 2 s) then trim_start (drop 2 s)
     else if is_white (take 3 s) then trim_start (drop 3 s)
     else s)"
  by pat_completeness auto
termination
  by (relation "measure length") auto

declare trim_start.simps [simp del]

function trim_end :: "bytes \<Rightarrow> bytes" where
  "trim_end s =
    (let n = length s in
     if s = [] then []
     else if is_white (drop (n - 1) s) then trim_end (take (n - 1) s)
     else if is_white (drop (n - 2) s) then trim_end (take (n - 2) s)
     else if is_white (drop (n - 3) s) then trim_end (take (n - 3) s)
     else s)"
  by pat_completeness auto
termination
  by (relation "measure length") auto

declare trim_end.simps [simp del]

definition trim :: "bytes \<Rightarrow> bytes" where
  "trim s = trim_end (trim_start s)"

lemma white_space_bytes:
  assumes "is_white c" and "b \<in> set c" and "b < 0x80"
  shows "b \<in> {0x09, 0x0A, 0x0B, 0x0C, 0x0D, 0x20}"
  using assms by (auto simp: is_white_def white_space_def)

lemma is_white_one:
  assumes "\<And>b. b \<in> set c \<Longrightarrow> 0x21 \<le> b \<and> b < 0x80"
  shows "\<not> is_white c"
proof
  assume w: "is_white c"
  then have "c \<noteq> []"
    by (auto simp: is_white_def white_space_def)
  then obtain b where b: "b \<in> set c"
    by (cases c) auto
  with white_space_bytes [OF w b] assms [OF b] show False
    by auto
qed

lemma trim_visible:
  assumes "\<And>b. b \<in> set s \<Longrightarrow> 0x21 \<le> b \<and> b < 0x80"
  shows "trim s = s"
proof -
  have pre: "\<not> is_white (take k s)" and suf: "\<not> is_white (drop k s)" for k
    using assms by (auto intro!: is_white_one dest: in_set_takeD in_set_dropD)
  then have "trim_start s = s" and "trim_end s = s"
    by (simp_all add: trim_start.simps trim_end.simps Let_def)
  then show ?thesis
    by (simp add: trim_def)
qed

section \<open>Numbers\<close>

definition to_digit :: "nat \<Rightarrow> u8 \<Rightarrow> nat option" where
  "to_digit radix b =
    (let d = (if in_range 0x30 0x39 b then unat b - 48
              else if in_range 0x61 0x7A b then unat b - 87
              else if in_range 0x41 0x5A b then unat b - 55
              else radix)
     in if d < radix then Some d else None)"

fun parse_digits :: "nat \<Rightarrow> nat \<Rightarrow> nat \<Rightarrow> bytes \<Rightarrow> nat option" where
  "parse_digits width radix acc [] = Some acc"
| "parse_digits width radix acc (b # bs) =
    (case to_digit radix b of
      None \<Rightarrow> None
    | Some d \<Rightarrow>
        if acc * radix < 2 ^ width \<and> acc * radix + d < 2 ^ width
        then parse_digits width radix (acc * radix + d) bs
        else None)"

text \<open>
  \<open>from_str_radix\<close> of an unsigned type: one leading plus sign is accepted, an empty string or a lone
  sign is not, a minus sign is an invalid digit, and a value that does not fit is an error.
\<close>

definition from_str_radix :: "bytes \<Rightarrow> nat \<Rightarrow> 'w::len word option" where
  "from_str_radix s radix =
    map_option of_nat
      (case s of
        [] \<Rightarrow> None
      | b # rest \<Rightarrow>
          if (b = 0x2B \<or> b = 0x2D) \<and> rest = [] then None
          else if b = 0x2B then parse_digits LENGTH('w) radix 0 rest
          else parse_digits LENGTH('w) radix 0 s)"

section \<open>Printing and parsing numbers\<close>

lemma of_char_u8: "(of_char (char_of (n :: nat)) :: u8) = of_nat (n mod 256)"
  by (metis of_char_of of_nat_of_char)

lemma digit_byte:
  assumes "d < 16"
  shows "(of_char (digit_char d) :: u8) = of_nat (if d < 10 then 48 + d else 87 + d)"
  using assms by (simp add: digit_char_def of_char_u8)

lemma digit_byte_visible:
  assumes "d < 16"
  shows "0x30 \<le> (of_char (digit_char d) :: u8) \<and> (of_char (digit_char d) :: u8) < 0x80"
  using assms by (auto simp: digit_byte word_le_nat_alt word_less_nat_alt unat_of_nat)

lemma to_digit_digit_char:
  assumes "d < radix" and "radix \<le> 16"
  shows "to_digit radix (of_char (digit_char d)) = Some d"
  using assms
  by (auto simp: to_digit_def digit_byte in_range_def word_le_nat_alt unat_of_nat Let_def)

lemma str_append [simp]: "str (xs @ ys) = str xs @ str ys"
  by (simp add: str_def)

lemma str_Cons [simp]: "str (c # cs) = of_char c # str cs" and str_Nil [simp]: "str [] = []"
  by (simp_all add: str_def)

lemma parse_digits_append:
  "parse_digits w r acc (xs @ ys) = Option.bind (parse_digits w r acc xs) (\<lambda>a. parse_digits w r a ys)"
  by (induction xs arbitrary: acc) (auto split: option.splits)

lemma show_radix_small: "n < r \<Longrightarrow> show_radix r n = [digit_char n]"
  by (subst show_radix.simps) simp

lemma show_radix_nonempty: "show_radix r n \<noteq> []"
  by (subst show_radix.simps) simp

lemma show_radix_visible:
  assumes "2 \<le> r" and "r \<le> 16" and "b \<in> set (str (show_radix r n))"
  shows "0x30 \<le> b \<and> b < 0x80"
  using assms
proof (induction r n rule: show_radix.induct)
  case (1 r n)
  show ?case
  proof (cases "n < r")
    case True
    then have "b = of_char (digit_char n)"
      using "1.prems" by (simp add: show_radix.simps [of r n])
    then show ?thesis
      using digit_byte_visible [of n] True "1.prems" by simp
  next
    case False
    then have "b = of_char (digit_char (n mod r)) \<or> b \<in> set (str (show_radix r (n div r)))"
      using "1.prems" by (subst (asm) show_radix.simps [of r n]) auto
    moreover have "n mod r < 16"
      using "1.prems" by (metis less_le_trans mod_less_divisor not_numeral_le_zero gr_zeroI)
    ultimately show ?thesis
      using "1.IH" "1.prems" False digit_byte_visible by auto
  qed
qed

lemma parse_digits_show:
  assumes "2 \<le> r" and "r \<le> 16" and "n < 2 ^ w"
  shows "parse_digits w r 0 (str (show_radix r n)) = Some n"
  using assms
proof (induction r n rule: show_radix.induct)
  case (1 r n)
  show ?case
  proof (cases "n < r")
    case True
    then show ?thesis
      using "1.prems" by (simp add: show_radix.simps [of r n] to_digit_digit_char)
  next
    case False
    have "n div r < 2 ^ w" and "n div r * r < 2 ^ w"
      using "1.prems"(3) div_le_dividend [of n r] div_times_less_eq_dividend [of n r]
      by (simp_all only: le_less_trans)
    moreover have "to_digit r (of_char (digit_char (n mod r))) = Some (n mod r)"
      using "1.prems" by (intro to_digit_digit_char) auto
    ultimately show ?thesis
      using False "1.prems" "1.IH"
      by (subst show_radix.simps [of r n]) (simp add: parse_digits_append mult.commute)
  qed
qed

lemma from_str_radix_show:
  assumes "2 \<le> r" and "r \<le> 16"
  shows "from_str_radix (str (show_radix r (unat w))) r = Some (w :: 'w::len word)"
proof -
  have n: "unat w < 2 ^ LENGTH('w)"
    by (rule unsigned_less)
  obtain b rest where s: "str (show_radix r (unat w)) = b # rest"
    using show_radix_nonempty [of r "unat w"] by (cases "show_radix r (unat w)") auto
  have "0x30 \<le> b"
    using show_radix_visible [OF assms, of b "unat w"] by (simp add: s)
  then have "b \<noteq> 0x2B" "b \<noteq> 0x2D"
    by auto
  then show ?thesis
    using parse_digits_show [OF assms n] by (simp add: from_str_radix_def s)
qed

end
