(* ===== verification/Context_Scan.thy ===== *)
theory Context_Scan
  imports Rust_Str
begin

text \<open>
  The substring machine of \<open>core/src/context.rs\<close>: \<open>find_sub\<close>, the tagged-value scanner
  \<open>extract_tagged_from\<close>, and the contract every caller of a scanner relies on, the locale
  \<open>scanner\<close>: a successful scan moves the cursor forward and stays inside the metadata.
\<close>

section \<open>Definitions\<close>

definition find_sub :: "bytes \<Rightarrow> bytes \<Rightarrow> nat option" where
  "find_sub haystack needle =
    (if needle = [] \<or> length needle > length haystack then None
     else position (\<lambda>w. w = needle) (windows (length needle) haystack))"

definition key_tag :: "bytes \<Rightarrow> bytes" where
  "key_tag key_name = str ''<key>'' @ key_name @ str ''</key>''"

definition extract_tagged_from ::
  "bytes \<Rightarrow> bytes \<Rightarrow> bytes \<Rightarrow> bytes \<Rightarrow> nat \<Rightarrow> (bytes \<times> nat) option" where
  "extract_tagged_from metadata key_name open_tag close_tag from_pos =
    (let key = key_tag key_name in
     do {
       tail \<leftarrow> slice_from metadata from_pos;
       rel \<leftarrow> find_sub tail key;
       start \<leftarrow> checked_add_usize from_pos rel;
       after_key \<leftarrow> checked_add_usize start (length key);
       rest \<leftarrow> slice_from metadata after_key;
       open_rel \<leftarrow> find_sub rest open_tag;
       open_abs \<leftarrow> checked_add_usize after_key open_rel;
       opened \<leftarrow> slice_from metadata open_abs;
       gt_rel \<leftarrow> find_sub opened (str ''>'');
       gt_abs \<leftarrow> checked_add_usize open_abs gt_rel;
       inner_start \<leftarrow> checked_add_usize gt_abs 1;
       body \<leftarrow> slice_from metadata inner_start;
       close_rel \<leftarrow> find_sub body close_tag;
       inner_end \<leftarrow> checked_add_usize inner_start close_rel;
       inner \<leftarrow> slice_get metadata inner_start inner_end;
       past \<leftarrow> checked_add_usize inner_end (length close_tag);
       Some (inner, past)
     })"

definition extract_tagged :: "bytes \<Rightarrow> bytes \<Rightarrow> bytes \<Rightarrow> bytes \<Rightarrow> bytes option" where
  "extract_tagged metadata key_name open_tag close_tag =
    map_option fst (extract_tagged_from metadata key_name open_tag close_tag 0)"

section \<open>Substring search\<close>

text \<open>The first place where the needle occurs.\<close>

definition occurs_at :: "bytes \<Rightarrow> bytes \<Rightarrow> nat \<Rightarrow> bool" where
  "occurs_at haystack needle i \<longleftrightarrow>
    i + length needle \<le> length haystack \<and> window i (length needle) haystack = needle"

lemma find_sub_eq_Some:
  "find_sub haystack needle = Some i \<longleftrightarrow>
    needle \<noteq> [] \<and> occurs_at haystack needle i \<and> (\<forall>j<i. \<not> occurs_at haystack needle j)"
proof (cases "needle = [] \<or> length needle > length haystack")
  case True
  then show ?thesis
    by (auto simp: find_sub_def occurs_at_def)
next
  case False
  then have nth: "windows (length needle) haystack ! j = needle \<longleftrightarrow> occurs_at haystack needle j"
    if "j < length haystack + 1 - length needle" for j
    using that by (auto simp: windows_def occurs_at_def)
  have len: "length (windows (length needle) haystack) = length haystack + 1 - length needle"
    by (simp add: windows_def)
  have "find_sub haystack needle = Some i \<longleftrightarrow>
      i < length haystack + 1 - length needle \<and> occurs_at haystack needle i \<and>
      (\<forall>j<i. \<not> occurs_at haystack needle j)"
    using False nth by (auto simp: find_sub_def position_eq_Some len)
  also have "\<dots> \<longleftrightarrow> needle \<noteq> [] \<and> occurs_at haystack needle i \<and>
      (\<forall>j<i. \<not> occurs_at haystack needle j)"
    using False by (auto simp: occurs_at_def)
  finally show ?thesis .
qed

lemma find_sub_eq_None:
  "find_sub haystack needle = None \<longleftrightarrow> needle = [] \<or> (\<forall>i. \<not> occurs_at haystack needle i)"
proof
  assume none: "find_sub haystack needle = None"
  show "needle = [] \<or> (\<forall>i. \<not> occurs_at haystack needle i)"
  proof (rule ccontr)
    assume "\<not> ?thesis"
    then obtain i where "needle \<noteq> []" "occurs_at haystack needle i" by blast
    moreover define m where "m = (LEAST i. occurs_at haystack needle i)"
    ultimately have "find_sub haystack needle = Some m"
      by (auto simp: find_sub_eq_Some intro: LeastI dest: not_less_Least)
    with none show False by simp
  qed
next
  assume "needle = [] \<or> (\<forall>i. \<not> occurs_at haystack needle i)"
  then show "find_sub haystack needle = None"
    by (cases "find_sub haystack needle") (auto simp: find_sub_eq_Some)
qed

lemma find_sub_bound: "find_sub haystack needle = Some i \<Longrightarrow> i + length needle \<le> length haystack"
  by (simp add: find_sub_eq_Some occurs_at_def)

text \<open>What follows the first occurrence does not matter.\<close>

lemma find_sub_append:
  assumes "find_sub (pre @ needle) needle = Some (length pre)"
  shows "find_sub (pre @ needle @ post) needle = Some (length pre)"
proof -
  have "occurs_at (pre @ needle @ post) needle j \<longleftrightarrow> occurs_at (pre @ needle) needle j"
    if "j \<le> length pre" for j
    using that by (auto simp: occurs_at_def)
  then show ?thesis
    using assms by (simp add: find_sub_eq_Some)
qed

text \<open>A needle whose first byte does not occur before.\<close>

lemma find_sub_fresh:
  assumes "b \<notin> set pre"
  shows "find_sub (pre @ (b # bs) @ post) (b # bs) = Some (length pre)"
proof -
  have "\<not> occurs_at (pre @ (b # bs) @ post) (b # bs) j" if "j < length pre" for j
  proof
    assume "occurs_at (pre @ (b # bs) @ post) (b # bs) j"
    then have "hd (window j (Suc (length bs)) (pre @ (b # bs) @ post)) = b"
      by (simp add: occurs_at_def)
    then have "pre ! j = b"
      using that by (simp add: hd_drop_conv_nth nth_append)
    with that assms show False
      by auto
  qed
  then show ?thesis
    by (simp add: find_sub_eq_Some occurs_at_def)
qed

section \<open>Scanners\<close>

text \<open>
  A run of a scanner from a cursor: the values of consecutive successful scans and the cursor after
  the last one.
\<close>

inductive scan_run :: "(nat \<Rightarrow> ('v \<times> nat) option) \<Rightarrow> nat \<Rightarrow> 'v list \<Rightarrow> nat \<Rightarrow> bool"
  for scan :: "nat \<Rightarrow> ('v \<times> nat) option" where
  scan_stop: "scan_run scan c [] c"
| scan_step: "\<lbrakk>scan c = Some (v, c'); scan_run scan c' vs e\<rbrakk> \<Longrightarrow> scan_run scan c (v # vs) e"

inductive_simps scan_run_Nil [simp]: "scan_run scan c [] e"
inductive_simps scan_run_Cons: "scan_run scan c (v # vs) e"

lemma scan_run_snoc:
  "\<lbrakk>scan_run scan c vs e; scan e = Some (v, e')\<rbrakk> \<Longrightarrow> scan_run scan c (vs @ [v]) e'"
  by (induction rule: scan_run.induct) (auto intro: scan_run.intros)

lemma scan_run_deterministic:
  "\<lbrakk>scan_run scan c vs e; scan_run scan c ws e'; length vs = length ws\<rbrakk> \<Longrightarrow> vs = ws \<and> e = e'"
proof (induction arbitrary: ws e' rule: scan_run.induct)
  case (scan_stop c)
  then show ?case by simp
next
  case (scan_step c v c' vs e)
  from scan_step.prems obtain w ws' c'' where ws: "ws = w # ws'" "scan c = Some (w, c'')"
      "scan_run scan c'' ws' e'"
    by (cases ws) (auto simp: scan_run_Cons)
  then have "w = v" "scan_run scan c' ws' e'"
    using scan_step.hyps(1) by simp_all
  with scan_step.IH [of ws' e'] scan_step.prems(2) show ?case
    by (simp add: ws(1))
qed

locale scanner =
  fixes scan :: "nat \<Rightarrow> ('v \<times> nat) option" and bound :: nat
  assumes progress: "scan c = Some (v, e) \<Longrightarrow> c < e \<and> e \<le> bound"
begin

lemma run_advances: "scan_run scan c vs e \<Longrightarrow> c + length vs \<le> e"
  by (induction rule: scan_run.induct) (auto dest: progress)

lemma run_bounded: "scan_run scan c vs e \<Longrightarrow> e \<le> max c bound"
  by (induction rule: scan_run.induct) (auto dest!: progress)

text \<open>So a loop over scans stops: no run is longer than the metadata.\<close>

lemma run_length: "scan_run scan c vs e \<Longrightarrow> c \<le> bound \<Longrightarrow> length vs \<le> bound - c"
  using run_advances [of c vs e] run_bounded [of c vs e] by simp

end

lemma checked_add_usize_eq_Some [simp]:
  "checked_add_usize a b = Some c \<longleftrightarrow> a + b < 2 ^ 64 \<and> c = a + b"
  by (auto simp: checked_add_usize_def)

lemma slice_from_eq_Some [simp]:
  "slice_from xs a = Some ys \<longleftrightarrow> a \<le> length xs \<and> ys = drop a xs"
  by (auto simp: slice_from_def)

lemma extract_tagged_from_progress:
  assumes "extract_tagged_from metadata key_name open_tag close_tag c = Some (v, e)"
  shows "c < e \<and> e \<le> length metadata"
  using assms
  by (auto simp: extract_tagged_from_def Let_def bind_eq_Some_conv slice_get_eq_Some key_tag_def
      dest!: find_sub_bound)

interpretation tagged: scanner "extract_tagged_from metadata key_name open_tag close_tag" "length metadata"
  for metadata key_name open_tag close_tag
  by unfold_locales (rule extract_tagged_from_progress)

section \<open>Printing and scanning a tagged value\<close>

text \<open>
  A plist fragment as the scanner sees it: the key, anything up to the opening tag, the tag's
  attributes, the value and the closing tag.
\<close>

definition tagged_value :: "bytes \<Rightarrow> bytes \<Rightarrow> bytes \<Rightarrow> bytes \<Rightarrow> bytes \<Rightarrow> bytes \<Rightarrow> bytes" where
  "tagged_value key_name gap open_tag attrs v close_tag =
    key_tag key_name @ gap @ open_tag @ attrs @ str ''>'' @ v @ close_tag"

lemma find_sub_prefix: "needle \<noteq> [] \<Longrightarrow> find_sub (needle @ post) needle = Some 0"
  by (simp add: find_sub_eq_Some occurs_at_def)

lemma find_sub_self: "needle \<noteq> [] \<Longrightarrow> find_sub needle needle = Some 0"
  using find_sub_prefix [of needle "[]"] by simp

lemma find_sub_gap:
  assumes "find_sub (pre @ needle) needle = Some (length pre)" and "md = pre @ needle @ post"
  shows "find_sub md needle = Some (length pre)"
  using find_sub_append [OF assms(1)] assms(2) by simp

lemma str_gt: "str ''>'' = [0x3E]"
  by (simp add: str_def)

lemma extract_tagged_fromI:
  assumes "length md < 2 ^ 63" and "c \<le> length md"
    and "find_sub (drop c md) (key_tag key_name) = Some r1"
    and "p = c + r1 + length (key_tag key_name)"
    and "find_sub (drop p md) open_tag = Some r2"
    and "find_sub (drop (p + r2) md) (str ''>'') = Some r3"
    and "q = p + r2 + r3 + 1"
    and "find_sub (drop q md) close_tag = Some r4"
  shows "extract_tagged_from md key_name open_tag close_tag c =
    Some (window q r4 md, q + r4 + length close_tag)"
proof -
  have "p \<le> length md" and "q \<le> length md" and "q + r4 + length close_tag \<le> length md"
    using assms(2-8) by (auto dest!: find_sub_bound)
  then show ?thesis
    using assms
    by (simp add: extract_tagged_from_def Let_def slice_from_def slice_get_def checked_add_usize_def)
qed

text \<open>Scanning a printed fragment gives the value back and leaves the cursor behind it.\<close>

lemma extract_tagged_from_printed:
  assumes md: "md = front @ pre @ tagged_value key_name gap open_tag attrs v (lt # ct) @ post"
    and small: "length md < 2 ^ 63"
    and key: "find_sub (pre @ key_tag key_name) (key_tag key_name) = Some (length pre)"
    and gap: "find_sub (gap @ open_tag) open_tag = Some (length gap)"
    and attrs: "0x3E \<notin> set (open_tag @ attrs)"
    and v: "lt \<notin> set v"
  shows "extract_tagged_from md key_name open_tag (lt # ct) (length front) =
    Some (v, length (front @ pre @ tagged_value key_name gap open_tag attrs v (lt # ct)))"
proof -
  let ?key = "key_tag key_name"
  let ?rest = "v @ (lt # ct) @ post"
  let ?p = "length front + length pre + length ?key"
  let ?q = "?p + length gap + length (open_tag @ attrs) + 1"
  have d1: "drop (length front) md = pre @ ?key @ gap @ open_tag @ attrs @ str ''>'' @ ?rest"
    and d2: "drop ?p md = gap @ open_tag @ attrs @ str ''>'' @ ?rest"
    and d3: "drop (?p + length gap) md = (open_tag @ attrs) @ [0x3E] @ ?rest"
    and d4: "drop ?q md = ?rest"
    by (simp_all add: md tagged_value_def str_gt)
  have "extract_tagged_from md key_name open_tag (lt # ct) (length front) =
      Some (window ?q (length v) md, ?q + length v + length (lt # ct))"
  proof (rule extract_tagged_fromI [OF small _ _ refl _ _ refl])
    show "length front \<le> length md"
      by (simp add: md)
    show "find_sub (drop (length front) md) ?key = Some (length pre)"
      unfolding d1 by (rule find_sub_append [OF key])
    show "find_sub (drop ?p md) open_tag = Some (length gap)"
      unfolding d2 by (rule find_sub_append [OF gap])
    show "find_sub (drop (?p + length gap) md) (str ''>'') = Some (length (open_tag @ attrs))"
      unfolding d3 str_gt by (rule find_sub_fresh [OF attrs])
    show "find_sub (drop ?q md) (lt # ct) = Some (length v)"
      unfolding d4 by (rule find_sub_fresh [OF v])
  qed
  then show ?thesis
    by (simp only: d4) (simp add: tagged_value_def str_gt)
qed

lemma find_sub_split:
  assumes "find_sub xs needle = Some i"
  shows "xs = take i xs @ needle @ drop (i + length needle) xs"
proof -
  have "xs = take i xs @ window i (length needle) xs @ drop (length needle) (drop i xs)"
    by (metis append_take_drop_id)
  then show ?thesis
    using assms by (simp add: find_sub_eq_Some occurs_at_def ac_simps)
qed

text \<open>
  Conversely every scanned value stands in the metadata: after the cursor and after an occurrence
  of the key, right behind a closing bracket, up to the first closing tag that follows.
\<close>

lemma extract_tagged_from_sound:
  assumes "extract_tagged_from md key_name open_tag close_tag c = Some (v, e)"
  obtains pre gap tag post
  where "md = take c md @ pre @ key_tag key_name @ gap @ tag @ str ''>'' @ v @ close_tag @ post"
    and "e + length post = length md"
    and "find_sub (v @ close_tag @ post) close_tag = Some (length v)"
proof -
  from assms obtain r1 r2 r3 r4 p q where
      r1: "find_sub (drop c md) (key_tag key_name) = Some r1" and p: "p = c + r1 + length (key_tag key_name)"
    and r2: "find_sub (drop p md) open_tag = Some r2"
    and r3: "find_sub (drop (p + r2) md) (str ''>'') = Some r3" and q: "q = p + r2 + r3 + 1"
    and r4: "find_sub (drop q md) close_tag = Some r4"
    and v: "v = window q r4 md" and e: "e = q + r4 + length close_tag"
    and le: "q + r4 \<le> length md"
    by (auto simp: extract_tagged_from_def Let_def bind_eq_Some_conv slice_get_eq_Some)
  define post where "post = drop (q + r4 + length close_tag) md"
  have s4: "drop q md = v @ close_tag @ post"
    using find_sub_split [OF r4] by (simp add: v post_def ac_simps)
  have s3: "drop (p + r2) md = take r3 (drop (p + r2) md) @ str ''>'' @ drop q md"
    using find_sub_split [OF r3] by (simp add: q ac_simps str_gt)
  have s2: "drop p md = take r2 (drop p md) @ drop (p + r2) md"
    by (metis append_take_drop_id drop_drop add.commute)
  have s1: "drop c md = take r1 (drop c md) @ key_tag key_name @ drop p md"
    using find_sub_split [OF r1] by (simp add: p ac_simps)
  have "md = take c md @ take r1 (drop c md) @ key_tag key_name @ take r2 (drop p md) @
      take r3 (drop (p + r2) md) @ str ''>'' @ v @ close_tag @ post"
    using s1 s2 s3 s4 by (metis append_take_drop_id)
  moreover have "e + length post = length md"
    using le find_sub_bound [OF r4] by (simp add: e post_def)
  moreover have "find_sub (v @ close_tag @ post) close_tag = Some (length v)"
    using r4 le unfolding s4 by (simp add: v)
  ultimately show thesis
    by (rule that)
qed

section \<open>Properties\<close>

text \<open>
  Substring search is exact: it returns the least offset at which the needle occurs in the
  haystack, and nothing when the needle is empty or does not occur.
\<close>

theorem find_sub_first:
  "find_sub haystack needle =
    (if needle \<noteq> [] \<and> (\<exists>i. occurs_at haystack needle i)
     then Some (LEAST i. occurs_at haystack needle i) else None)"
proof (cases "needle \<noteq> [] \<and> (\<exists>i. occurs_at haystack needle i)")
  case True
  then have "find_sub haystack needle = Some (LEAST i. occurs_at haystack needle i)"
    by (auto simp: find_sub_eq_Some intro: LeastI dest: not_less_Least)
  with True show ?thesis by simp
next
  case False
  then show ?thesis
    by (auto simp: find_sub_eq_None)
qed

text \<open>
  C36 A scan never leaves the metadata and never invents a value: the value returned stands in the
  metadata after the cursor and after an occurrence of the key, right behind a closing bracket and
  up to the first closing tag, and the new cursor is the position behind that tag, strictly after
  the old one.
\<close>

theorem extract_tagged_from_inside:
  assumes "extract_tagged_from md key_name open_tag close_tag c = Some (v, e)"
  shows "c < e \<and> e \<le> length md \<and>
    (\<exists>pre gap tag post.
      md = take c md @ pre @ key_tag key_name @ gap @ tag @ str ''>'' @ v @ close_tag @ post \<and>
      e + length post = length md \<and> find_sub (v @ close_tag @ post) close_tag = Some (length v))"
proof -
  obtain pre gap tag post where
      "md = take c md @ pre @ key_tag key_name @ gap @ tag @ str ''>'' @ v @ close_tag @ post"
      "e + length post = length md" "find_sub (v @ close_tag @ post) close_tag = Some (length v)"
    using extract_tagged_from_sound [OF assms] by blast
  then show ?thesis
    using extract_tagged_from_progress [OF assms] by blast
qed

theorem extract_tagged_from_inside_witness:
  "extract_tagged_from (str ''<key>K</key><s a>v</s>'') (str ''K'') (str ''<s'') (str ''</s>'') 0 =
    Some (str ''v'', 22) \<and> (0::nat) < 22"
proof -
  have s: "extract_tagged_from (str ''<key>K</key><s a>v</s>'') (str ''K'') (str ''<s'') (str ''</s>'') 0 =
      Some (str ''v'', 22)"
    using extract_tagged_from_printed [OF refl, of "[]" "[]" "str ''K''" "[]" "str ''<s''" "str '' a''"
        "str ''v''" "0x3C" "str ''/s>''" "[]"]
    by (simp add: tagged_value_def key_tag_def find_sub_self)
  show ?thesis
    using extract_tagged_from_inside [OF s] s by simp
qed

end
