(* ===== verification/Context.thy ===== *)
theory Context
  imports Context_Scan Primitives
begin

text \<open>
  Extraction of the encryption context and of the logical-volume information from the decrypted
  metadata (\<open>core/src/context.rs\<close>), over the scanner of \<open>Context_Scan\<close>.
\<close>

section \<open>Data\<close>

datatype ProtectorKind = Password | Recovery | Institutional | Unknown

record Protector =
  pr_user_type :: u32
  pr_kind :: ProtectorKind

record EncryptionContext =
  ec_salt :: bytes
  ec_iterations :: u32
  ec_wrapped_kek :: bytes
  ec_wrapped_vmk :: bytes
  ec_protectors :: "Protector list"
  ec_conversion_status :: "bytes option"

record LogicalVolumeInfo =
  lv_size :: u64
  lv_family_uuid :: bytes
  lv_identifier :: "bytes option"
  lv_name :: "bytes option"

definition from_user_type :: "u32 \<Rightarrow> ProtectorKind" where
  "from_user_type user_type =
    (if user_type = 0x10000001 then Password
     else if user_type = 0x10000009 then Recovery
     else if user_type = 0x10000005 \<or> user_type = 0x1000000f then Institutional
     else Unknown)"

primrec label :: "ProtectorKind \<Rightarrow> string" where
  "label Password = ''password''"
| "label Recovery = ''recovery''"
| "label Institutional = ''institutional''"
| "label Unknown = ''unknown''"

definition PW_SALT_OFFSET :: nat where
  [const_defs]: "PW_SALT_OFFSET = 8"

definition PW_WRAPPED_KEK_OFFSET :: nat where
  [const_defs]: "PW_WRAPPED_KEK_OFFSET = 32"

definition PW_ITERATIONS_OFFSET :: nat where
  [const_defs]: "PW_ITERATIONS_OFFSET = 168"

definition KEK_WRAPPED_VMK_OFFSET :: nat where
  [const_defs]: "KEK_WRAPPED_VMK_OFFSET = 8"

definition MAX_BASE64_BLOB :: nat where
  [const_defs]: "MAX_BASE64_BLOB = 4096"

section \<open>Typed values\<close>

definition extract_data :: "prims \<Rightarrow> bytes \<Rightarrow> bytes \<Rightarrow> bytes option" where
  "extract_data P metadata key_name =
    do {
      v \<leftarrow> extract_tagged metadata key_name (str ''<data ID='') (str ''</data>'');
      let trimmed = filter (\<lambda>b. \<not> is_ascii_whitespace b) v;
      if length trimmed > MAX_BASE64_BLOB then None else base64_decode P trimmed
    }"

definition extract_string :: "bytes \<Rightarrow> bytes \<Rightarrow> bytes option" where
  "extract_string metadata key_name =
    do {
      v \<leftarrow> extract_tagged metadata key_name (str ''<string ID='') (str ''</string>'');
      if utf8_valid v then Some v else None
    }"

text \<open>The number in an \<open>integer\<close> element: hexadecimal after \<open>0x\<close>, decimal otherwise.\<close>

definition parse_integer_text :: "bytes \<Rightarrow> 'w::len word option" where
  "parse_integer_text v =
    (if utf8_valid v then
       (let t = trim v in
        if take 2 t = str ''0x'' then from_str_radix (drop 2 t) 16 else from_str_radix t 10)
     else None)"

definition extract_integer_from :: "bytes \<Rightarrow> bytes \<Rightarrow> nat \<Rightarrow> (u32 \<times> nat) option" where
  "extract_integer_from metadata key_name from_pos =
    do {
      (v, past) \<leftarrow> extract_tagged_from metadata key_name (str ''<integer'') (str ''</integer>'') from_pos;
      parsed \<leftarrow> parse_integer_text v;
      Some (parsed, past)
    }"

definition extract_u64_integer :: "bytes \<Rightarrow> bytes \<Rightarrow> (u64 \<times> nat) option" where
  "extract_u64_integer metadata key_name =
    do {
      (v, past) \<leftarrow> extract_tagged_from metadata key_name (str ''<integer'') (str ''</integer>'') 0;
      parsed \<leftarrow> parse_integer_text v;
      Some (parsed, past)
    }"

definition slice16 :: "bytes \<Rightarrow> nat \<Rightarrow> bytes option" where
  "slice16 data off = do { stop \<leftarrow> checked_add_usize off 16; slice_get data off stop }"

definition slice24 :: "bytes \<Rightarrow> nat \<Rightarrow> bytes option" where
  "slice24 data off = do { stop \<leftarrow> checked_add_usize off 24; slice_get data off stop }"

definition read_u32_le :: "bytes \<Rightarrow> nat \<Rightarrow> u32 option" where
  "read_u32_le data off =
    do { stop \<leftarrow> checked_add_usize off 4; s \<leftarrow> slice_get data off stop; Some (from_le_bytes s) }"

section \<open>Protectors\<close>

definition protector_of :: "u32 \<Rightarrow> Protector" where
  "protector_of user_type = \<lparr>pr_user_type = user_type, pr_kind = from_user_type user_type\<rparr>"

function protectors_loop :: "bytes \<Rightarrow> nat \<Rightarrow> Protector list \<Rightarrow> Protector list" where
  "protectors_loop metadata cursor out =
    (case extract_integer_from metadata (str ''UserType'') cursor of
      None \<Rightarrow> out
    | Some (user_type, past) \<Rightarrow>
        let out' = out @ [protector_of user_type] in
        if length out' \<ge> 64 then out' else protectors_loop metadata past out')"
  by pat_completeness auto
termination
  by (relation "measure (\<lambda>(metadata, cursor, out). 64 - length out)") auto

declare protectors_loop.simps [simp del]

definition extract_protectors :: "bytes \<Rightarrow> Protector list" where
  "extract_protectors metadata = protectors_loop metadata 0 []"

section \<open>The wrapped volume key\<close>

function kek_loop :: "prims \<Rightarrow> bytes \<Rightarrow> nat \<Rightarrow> bytes option" where
  "kek_loop P metadata cursor =
    (case extract_tagged_from metadata (str ''BlockAlgorithm'') (str ''<string ID='')
        (str ''</string>'') cursor of
      None \<Rightarrow> None
    | Some (algo, past) \<Rightarrow>
        if algo = str ''AES-XTS'' then
          do {
            tail \<leftarrow> slice_from metadata past;
            extract_data P tail (str ''KEKWrappedVolumeKeyStruct'')
          }
        else kek_loop P metadata past)"
  by pat_completeness auto
termination
  by (relation "measure (\<lambda>(P, metadata, cursor). length metadata - cursor)")
    (auto dest: extract_tagged_from_progress)

declare kek_loop.simps [simp del]

definition extract_kek_wrapped_aes_xts :: "prims \<Rightarrow> bytes \<Rightarrow> bytes option" where
  "extract_kek_wrapped_aes_xts P metadata = kek_loop P metadata 0"

section \<open>The two records\<close>

definition extract_context :: "prims \<Rightarrow> bytes \<Rightarrow> EncryptionContext fv" where
  "extract_context P metadata =
    chain (ok_or (extract_data P metadata (str ''PassphraseWrappedKEKStruct''))
        (MetadataStructureMissing ''PassphraseWrappedKEKStruct'')) (\<lambda>pw.
    chain (ok_or (slice16 pw PW_SALT_OFFSET)
        (OutOfRange ''PassphraseWrappedKEKStruct salt'')) (\<lambda>salt.
    chain (ok_or (slice24 pw PW_WRAPPED_KEK_OFFSET)
        (OutOfRange ''PassphraseWrappedKEKStruct wrapped KEK'')) (\<lambda>wrapped_kek.
    chain (ok_or (read_u32_le pw PW_ITERATIONS_OFFSET)
        (OutOfRange ''PassphraseWrappedKEKStruct iterations'')) (\<lambda>iterations.
    chain (ok_or (extract_kek_wrapped_aes_xts P metadata)
        (MetadataStructureMissing ''AES-XTS KEKWrappedVolumeKeyStruct'')) (\<lambda>vmk_struct.
    chain (ok_or (slice24 vmk_struct KEK_WRAPPED_VMK_OFFSET)
        (OutOfRange ''KEKWrappedVolumeKeyStruct wrapped VMK'')) (\<lambda>wrapped_vmk.
      Ok \<lparr>ec_salt = salt, ec_iterations = iterations, ec_wrapped_kek = wrapped_kek,
          ec_wrapped_vmk = wrapped_vmk, ec_protectors = extract_protectors metadata,
          ec_conversion_status = extract_string metadata (str ''ConversionStatus'')\<rparr>))))))"

definition extract_lv_size :: "bytes \<Rightarrow> u64 option" where
  "extract_lv_size metadata =
    (case extract_u64_integer metadata (str ''com.apple.corestorage.lv.size'') of
      Some (v, _) \<Rightarrow> Some v
    | None \<Rightarrow> None)"

definition extract_lv_info :: "bytes \<Rightarrow> LogicalVolumeInfo fv" where
  "extract_lv_info metadata =
    chain (ok_or (extract_string metadata (str ''com.apple.corestorage.lv.familyUUID''))
        (MetadataStructureMissing ''com.apple.corestorage.lv.familyUUID'')) (\<lambda>family_uuid.
      let sz = (case extract_lv_size metadata of Some n \<Rightarrow> n | None \<Rightarrow> 0);
          identifier = extract_string metadata (str ''com.apple.corestorage.lv.uuid'');
          name = extract_string metadata (str ''com.apple.corestorage.lv.name'')
      in Ok \<lparr>lv_size = sz, lv_family_uuid = family_uuid, lv_identifier = identifier, lv_name = name\<rparr>)"

section \<open>Values printed and scanned\<close>

text \<open>The text of an integer element, in either of the two notations.\<close>

definition integer_text :: "bool \<Rightarrow> 'w::len word \<Rightarrow> bytes" where
  "integer_text hex w =
    (if hex then str ''0x'' @ str (show_radix 16 (unat w)) else str (show_radix 10 (unat w)))"

lemma parse_digits_digits:
  "\<lbrakk>parse_digits w r acc s = Some n; b \<in> set s\<rbrakk> \<Longrightarrow> to_digit r b \<noteq> None"
  by (induction s arbitrary: acc) (auto split: option.splits if_splits)

lemma show_radix_digits:
  assumes "2 \<le> r" and "r \<le> 16" and "b \<in> set (str (show_radix r n))"
  shows "to_digit r b \<noteq> None"
proof -
  obtain w where "n < 2 ^ w"
    using less_exp by blast
  then show ?thesis
    using parse_digits_show [OF assms(1,2)] parse_digits_digits assms(3) by blast
qed

lemma integer_text_visible:
  assumes "b \<in> set (integer_text hex w)"
  shows "0x21 \<le> b \<and> b < 0x80"
proof -
  have "0x30 \<le> b \<and> b < 0x80"
    using assms show_radix_visible [of 16 b "unat w"] show_radix_visible [of 10 b "unat w"]
    by (auto simp: integer_text_def split: if_splits)
  then show ?thesis
    by (auto simp: word_le_nat_alt)
qed

lemma integer_text_no_bracket: "0x3C \<notin> set (integer_text hex w)"
  using show_radix_digits [of 16 "0x3C" "unat w"] show_radix_digits [of 10 "0x3C" "unat w"]
  by (auto simp: integer_text_def to_digit_def in_range_def)

lemma parse_integer_text_printed:
  "parse_integer_text (integer_text hex w) = Some (w :: 'w::len word)"
proof -
  have valid: "utf8_valid (integer_text hex w)"
    using integer_text_visible by (intro utf8_valid_ascii) blast
  have tr: "trim (integer_text hex w) = integer_text hex w"
    by (rule trim_visible) (rule integer_text_visible)
  show ?thesis
  proof (cases hex)
    case True
    then show ?thesis
      using valid tr from_str_radix_show [of 16 w]
      by (simp add: parse_integer_text_def Let_def) (simp add: integer_text_def)
  next
    case False
    have "take 2 (integer_text hex w) \<noteq> str ''0x''"
    proof
      assume t: "take 2 (integer_text hex w) = str ''0x''"
      have "0x78 \<in> set (take 2 (integer_text hex w))"
        by (simp add: t)
      then have "to_digit 10 0x78 \<noteq> None"
        using False show_radix_digits [of 10 "0x78" "unat w"]
        by (auto simp: integer_text_def dest: in_set_takeD)
      then show False
        by (simp add: to_digit_def in_range_def)
    qed
    then show ?thesis
      using valid tr False from_str_radix_show [of 10 w]
      by (simp add: parse_integer_text_def Let_def) (simp add: integer_text_def)
  qed
qed

text \<open>
  The plist pairs the extractors look for: a key, something without the opening tag, and an element
  with its attributes and its text.
\<close>

definition data_pair :: "bytes \<Rightarrow> bytes \<Rightarrow> bytes \<Rightarrow> bytes \<Rightarrow> bytes" where
  "data_pair key_name gap attrs v =
    tagged_value key_name gap (str ''<data ID='') attrs v (str ''</data>'')"

definition string_pair :: "bytes \<Rightarrow> bytes \<Rightarrow> bytes \<Rightarrow> bytes \<Rightarrow> bytes" where
  "string_pair key_name gap attrs v =
    tagged_value key_name gap (str ''<string ID='') attrs v (str ''</string>'')"

definition integer_pair :: "bytes \<Rightarrow> bytes \<Rightarrow> bytes \<Rightarrow> bytes \<Rightarrow> bytes" where
  "integer_pair key_name gap attrs v =
    tagged_value key_name gap (str ''<integer'') attrs v (str ''</integer>'')"

text \<open>A prefix in which the search for \<open>needle\<close> finds nothing before the needle that follows it.\<close>

definition clear_of :: "bytes \<Rightarrow> bytes \<Rightarrow> bool" where
  "clear_of needle pre \<longleftrightarrow> find_sub (pre @ needle) needle = Some (length pre)"

lemma clear_of_Nil [simp]: "needle \<noteq> [] \<Longrightarrow> clear_of needle []"
  by (simp add: clear_of_def find_sub_self)

lemma key_tag_nonempty [simp]: "key_tag k \<noteq> []"
  by (simp add: key_tag_def)

text \<open>One lemma for the three kinds of element.\<close>

lemma scan_pair:
  assumes "md = front @ pre @ tagged_value key_name gap open_tag attrs v close_tag @ post"
    and "length md < 2 ^ 63" and "clear_of (key_tag key_name) pre" and "clear_of open_tag gap"
    and "close_tag = 0x3C # ct" and "0x3E \<notin> set open_tag" and "0x3E \<notin> set attrs"
    and "0x3C \<notin> set v"
  shows "extract_tagged_from md key_name open_tag close_tag (length front) =
    Some (v, length (front @ pre @ tagged_value key_name gap open_tag attrs v close_tag))"
  using assms extract_tagged_from_printed [of md front pre key_name gap open_tag attrs v "0x3C" ct post]
  by (simp add: clear_of_def)

lemma extract_string_printed:
  assumes "md = pre @ string_pair key_name gap attrs v @ post"
    and "length md < 2 ^ 63" and "clear_of (key_tag key_name) pre"
    and "clear_of (str ''<string ID='') gap" and "0x3E \<notin> set attrs" and "0x3C \<notin> set v"
  shows "extract_string md key_name = (if utf8_valid v then Some v else None)"
proof -
  have "extract_tagged_from md key_name (str ''<string ID='') (str ''</string>'') (length ([] :: bytes)) =
      Some (v, length ([] @ pre @ string_pair key_name gap attrs v))"
    unfolding string_pair_def
    by (rule scan_pair [of _ _ _ _ _ _ _ _ _ post "str ''/string>''"])
      (use assms in \<open>simp_all add: string_pair_def\<close>)
  then show ?thesis
    by (simp add: extract_string_def extract_tagged_def)
qed

lemma extract_data_printed:
  assumes "md = pre @ data_pair key_name gap attrs v @ post"
    and "length md < 2 ^ 63" and "clear_of (key_tag key_name) pre"
    and "clear_of (str ''<data ID='') gap" and "0x3E \<notin> set attrs" and "0x3C \<notin> set v"
  shows "extract_data P md key_name =
    (let t = filter (\<lambda>b. \<not> is_ascii_whitespace b) v
     in if length t \<le> MAX_BASE64_BLOB then base64_decode P t else None)"
proof -
  have "extract_tagged_from md key_name (str ''<data ID='') (str ''</data>'') (length ([] :: bytes)) =
      Some (v, length ([] @ pre @ data_pair key_name gap attrs v))"
    unfolding data_pair_def
    by (rule scan_pair [of _ _ _ _ _ _ _ _ _ post "str ''/data>''"])
      (use assms in \<open>simp_all add: data_pair_def\<close>)
  then show ?thesis
    by (simp add: extract_data_def extract_tagged_def Let_def not_less)
qed

lemma extract_integer_printed:
  assumes "md = front @ pre @ integer_pair key_name gap attrs (integer_text hex w) @ post"
    and "length md < 2 ^ 63" and "clear_of (key_tag key_name) pre"
    and "clear_of (str ''<integer'') gap" and "0x3E \<notin> set attrs"
  shows "extract_integer_from md key_name (length front) =
    Some (w, length (front @ pre @ integer_pair key_name gap attrs (integer_text hex w)))"
proof -
  have "extract_tagged_from md key_name (str ''<integer'') (str ''</integer>'') (length front) =
      Some (integer_text hex w,
        length (front @ pre @ integer_pair key_name gap attrs (integer_text hex w)))"
    unfolding integer_pair_def
    by (rule scan_pair [of _ _ _ _ _ _ _ _ _ post "str ''/integer>''"])
      (use assms in \<open>simp_all add: integer_pair_def integer_text_no_bracket\<close>)
  then show ?thesis
    by (simp add: extract_integer_from_def parse_integer_text_printed)
qed

lemma extract_u64_printed:
  assumes "md = pre @ integer_pair key_name gap attrs (integer_text hex w) @ post"
    and "length md < 2 ^ 63" and "clear_of (key_tag key_name) pre"
    and "clear_of (str ''<integer'') gap" and "0x3E \<notin> set attrs"
  shows "extract_u64_integer md key_name =
    Some (w, length (pre @ integer_pair key_name gap attrs (integer_text hex w)))"
proof -
  have "extract_tagged_from md key_name (str ''<integer'') (str ''</integer>'') (length ([] :: bytes)) =
      Some (integer_text hex w,
        length ([] @ pre @ integer_pair key_name gap attrs (integer_text hex w)))"
    unfolding integer_pair_def
    by (rule scan_pair [of _ _ _ _ _ _ _ _ _ post "str ''/integer>''"])
      (use assms in \<open>simp_all add: integer_pair_def integer_text_no_bracket\<close>)
  then show ?thesis
    by (simp add: extract_u64_integer_def parse_integer_text_printed)
qed

section \<open>Loops\<close>

text \<open>The scanner of the protectors' loop and the scanner of the algorithms' loop.\<close>

abbreviation user_types :: "bytes \<Rightarrow> nat \<Rightarrow> (u32 \<times> nat) option" where
  "user_types md \<equiv> extract_integer_from md (str ''UserType'')"

abbreviation algorithms :: "bytes \<Rightarrow> nat \<Rightarrow> (bytes \<times> nat) option" where
  "algorithms md \<equiv>
    extract_tagged_from md (str ''BlockAlgorithm'') (str ''<string ID='') (str ''</string>'')"

interpretation ints: scanner "extract_integer_from metadata key_name" "length metadata"
  for metadata key_name
  by unfold_locales
    (auto simp: extract_integer_from_def bind_eq_Some_conv dest: extract_tagged_from_progress)

lemma protectors_loop_run:
  assumes "length out < 64"
  shows "\<exists>codes e. scan_run (user_types md) c codes e \<and>
    protectors_loop md c out = out @ map protector_of codes \<and> length out + length codes \<le> 64 \<and>
    (length out + length codes = 64 \<or> user_types md e = None)"
  using assms
proof (induction md c out rule: protectors_loop.induct)
  case (1 md c out)
  show ?case
  proof (cases "user_types md c")
    case None
    then show ?thesis
      using "1.prems" by (intro exI [of _ "[]"] exI [of _ c]) (simp add: protectors_loop.simps)
  next
    case (Some ve)
    obtain v e where v: "user_types md c = Some (v, e)"
      using Some by (cases ve) simp
    show ?thesis
    proof (cases "length out = 63")
      case True
      then have "protectors_loop md c out = out @ [protector_of v]"
        by (subst protectors_loop.simps) (simp add: v Let_def del: str_Cons)
      then show ?thesis
        using v True by (intro exI [of _ "[v]"] exI [of _ e]) (auto simp: scan_run_Cons)
    next
      case False
      then have lt: "length (out @ [protector_of v]) < 64"
        using "1.prems" by simp
      then obtain codes e' where "scan_run (user_types md) e codes e'"
          "protectors_loop md e (out @ [protector_of v]) = (out @ [protector_of v]) @ map protector_of codes"
          "length (out @ [protector_of v]) + length codes \<le> 64"
          "length (out @ [protector_of v]) + length codes = 64 \<or> user_types md e' = None"
        using "1.IH" [OF v refl refl] by fastforce
      moreover have "protectors_loop md c out = protectors_loop md e (out @ [protector_of v])"
        using lt by (subst protectors_loop.simps) (simp add: v Let_def del: str_Cons)
      ultimately show ?thesis
        using v by (intro exI [of _ "v # codes"] exI [of _ e']) (auto simp: scan_run_Cons)
    qed
  qed
qed

lemma kek_loop_run:
  "kek_loop P md c = Some blob \<longleftrightarrow>
    (\<exists>algos e. scan_run (algorithms md) c (algos @ [str ''AES-XTS'']) e \<and>
      str ''AES-XTS'' \<notin> set algos \<and>
      extract_data P (drop e md) (str ''KEKWrappedVolumeKeyStruct'') = Some blob)"
proof (induction P md c rule: kek_loop.induct)
  case (1 P md c)
  show ?case
  proof (cases "algorithms md c")
    case None
    then show ?thesis
      by (subst kek_loop.simps) (auto simp: scan_run.simps [of _ c])
  next
    case (Some ve)
    obtain v e where v: "algorithms md c = Some (v, e)"
      using Some by (cases ve) simp
    then have e: "e \<le> length md"
      by (auto dest: extract_tagged_from_progress)
    have run: "scan_run (algorithms md) c (algos @ [str ''AES-XTS'']) e' \<longleftrightarrow>
        (algos = [] \<and> v = str ''AES-XTS'' \<and> e' = e \<or>
         (\<exists>algos'. algos = v # algos' \<and> scan_run (algorithms md) e (algos' @ [str ''AES-XTS'']) e'))"
      for algos e'
      by (cases algos) (auto simp: scan_run_Cons v simp del: str_Cons)
    show ?thesis
    proof (cases "v = str ''AES-XTS''")
      case True
      then have "kek_loop P md c = extract_data P (drop e md) (str ''KEKWrappedVolumeKeyStruct'')"
        by (subst kek_loop.simps) (simp add: v slice_from_def e del: str_Cons)
      with True show ?thesis
        unfolding run by (metis append_Nil empty_iff list.set(1) list.set_intros(1))
    next
      case False
      then have "kek_loop P md c = kek_loop P md e"
        by (subst kek_loop.simps) (simp add: v del: str_Cons)
      moreover have "(\<exists>algos e'. scan_run (algorithms md) c (algos @ [str ''AES-XTS'']) e' \<and> Q algos e') \<longleftrightarrow>
          (\<exists>algos e'. scan_run (algorithms md) e (algos @ [str ''AES-XTS'']) e' \<and> Q (v # algos) e')" for Q
        using False unfolding run by blast
      ultimately show ?thesis
        using "1.IH" [OF v refl False] False by simp
    qed
  qed
qed

text \<open>A run of crypto-user entries: what precedes each key, the gap, the attributes and the code.\<close>

record user_entry =
  ue_before :: bytes
  ue_gap :: bytes
  ue_attrs :: bytes
  ue_hex :: bool
  ue_code :: u32

definition print_user :: "user_entry \<Rightarrow> bytes" where
  "print_user u = ue_before u @
    integer_pair (str ''UserType'') (ue_gap u) (ue_attrs u) (integer_text (ue_hex u) (ue_code u))"

definition user_ok :: "user_entry \<Rightarrow> bool" where
  "user_ok u \<longleftrightarrow> clear_of (key_tag (str ''UserType'')) (ue_before u) \<and>
    clear_of (str ''<integer'') (ue_gap u) \<and> 0x3E \<notin> set (ue_attrs u)"

lemma user_types_none: "find_sub (drop c md) (key_tag (str ''UserType'')) = None \<Longrightarrow> user_types md c = None"
  by (simp add: extract_integer_from_def extract_tagged_from_def Let_def slice_from_def del: str_Cons)

lemma protectors_loop_printed:
  assumes "md = front @ concat (map print_user us) @ tail" and "length md < 2 ^ 63"
    and "list_all user_ok us" and "find_sub tail (key_tag (str ''UserType'')) = None"
    and "length out < 64"
  shows "protectors_loop md (length front) out =
    out @ map protector_of (take (64 - length out) (map ue_code us))"
  using assms
proof (induction us arbitrary: front out)
  case Nil
  then have "user_types md (length front) = None"
    by (intro user_types_none) simp
  then show ?case
    by (subst protectors_loop.simps) (simp del: str_Cons)
next
  case (Cons u us)
  have "user_types md (length front) = Some (ue_code u, length (front @ print_user u))"
    unfolding print_user_def
  proof (rule extract_integer_printed)
    show "md = front @ ue_before u @ integer_pair (str ''UserType'') (ue_gap u) (ue_attrs u)
        (integer_text (ue_hex u) (ue_code u)) @ concat (map print_user us) @ tail"
      by (simp add: Cons.prems(1) print_user_def [of u] del: str_Cons)
  qed (use Cons.prems in \<open>simp_all add: user_ok_def del: str_Cons\<close>)
  then have step: "protectors_loop md (length front) out =
      (let out' = out @ [protector_of (ue_code u)] in
       if length out' \<ge> 64 then out' else protectors_loop md (length (front @ print_user u)) out')"
    by (subst protectors_loop.simps) (simp add: Let_def del: str_Cons)
  show ?case
  proof (cases "length out = 63")
    case True
    then show ?thesis
      by (simp add: step)
  next
    case False
    then have k: "64 - length out = Suc (63 - length out)"
      using Cons.prems(5) by simp
    have "protectors_loop md (length (front @ print_user u)) (out @ [protector_of (ue_code u)]) =
        (out @ [protector_of (ue_code u)]) @
        map protector_of (take (64 - length (out @ [protector_of (ue_code u)])) (map ue_code us))"
      using Cons.prems False by (intro Cons.IH) auto
    then show ?thesis
      using False Cons.prems(5) k by (simp add: step)
  qed
qed

text \<open>A prefix without the byte that the needle has at some place first.\<close>

lemma clear_of_byte:
  assumes "b \<notin> set pre" and "k < length needle" and "needle ! k = b" and "b \<notin> set (take k needle)"
  shows "clear_of needle pre"
proof -
  have "\<not> occurs_at (pre @ needle) needle j" if "j < length pre" for j
  proof
    assume "occurs_at (pre @ needle) needle j"
    then have "window j (length needle) (pre @ needle) = needle"
      by (simp only: occurs_at_def)
    then have "window j (length needle) (pre @ needle) ! k = b"
      using assms(3) by (simp only:)
    then have at: "(pre @ needle) ! (j + k) = b"
      using assms(2) that by (simp add: nth_append del: take_append drop_append)
    show False
    proof (cases "j + k < length pre")
      case True
      with at assms(1) show False
        by (metis nth_append nth_mem)
    next
      case False
      then have "needle ! (j + k - length pre) = b" and "j + k - length pre < k"
        using at that by (simp_all add: nth_append)
      then have "b \<in> set (take k needle)"
        using assms(2) by (auto simp: in_set_conv_nth intro!: exI [of _ "j + k - length pre"])
      with assms(4) show False by simp
    qed
  qed
  moreover have "needle \<noteq> []"
    using assms(2) by auto
  ultimately show ?thesis
    by (simp add: clear_of_def find_sub_eq_Some occurs_at_def)
qed

lemma slice16_eq: "off < 2 ^ 63 \<Longrightarrow>
    slice16 d off = (if off + 16 \<le> length d then Some (window off 16 d) else None)"
  by (simp add: slice16_def checked_add_usize_def slice_get_def)

lemma slice24_eq: "off < 2 ^ 63 \<Longrightarrow>
    slice24 d off = (if off + 24 \<le> length d then Some (window off 24 d) else None)"
  by (simp add: slice24_def checked_add_usize_def slice_get_def)

lemma read_u32_le_eq: "off < 2 ^ 63 \<Longrightarrow>
    read_u32_le d off = (if off + 4 \<le> length d then Some (from_le_bytes (window off 4 d)) else None)"
  by (simp add: read_u32_le_def checked_add_usize_def slice_get_def)

section \<open>Properties\<close>

text \<open>
  An integer printed in either notation, hexadecimal after \<open>0x\<close> or decimal, is read back
  unchanged at both widths wherever its pair stands in the metadata, and the cursor is left right
  behind the pair.
\<close>

theorem plist_integer_roundtrip:
  assumes "md = front @ pre @ integer_pair key_name gap attrs (integer_text hex w) @ post"
    and "md' = pre @ integer_pair key_name gap attrs (integer_text hex w') @ post"
    and "length md < 2 ^ 63" and "length md' < 2 ^ 63"
    and "clear_of (key_tag key_name) pre" and "clear_of (str ''<integer'') gap"
    and "0x3E \<notin> set attrs"
  shows "extract_integer_from md key_name (length front) =
      Some (w, length front + length pre + length (integer_pair key_name gap attrs (integer_text hex w))) \<and>
    extract_u64_integer md' key_name =
      Some (w', length pre + length (integer_pair key_name gap attrs (integer_text hex w')))"
  using extract_integer_printed [OF assms(1,3,5-7)] extract_u64_printed [OF assms(2,4-7)] by simp

theorem plist_integer_roundtrip_witness:
  "extract_integer_from (str ''..'' @ integer_pair (str ''K'') [] [] (integer_text True (7 :: u32)))
      (str ''K'') 0 =
    Some (7, 2 + length (integer_pair (str ''K'') [] [] (integer_text True (7 :: u32))))"
proof -
  have small: "length (integer_pair (str ''K'') [] [] (integer_text True w)) < 99" if "unat w < 16"
    for w :: "'w::len word"
    using that show_radix_small [of "unat w" 16]
    by (simp add: integer_pair_def tagged_value_def key_tag_def integer_text_def)
  show ?thesis
    using plist_integer_roundtrip [OF refl refl, of "[]" "str ''..''" "str ''K''" "[]" "[]" True 7 "[]" 7]
      small [of "7 :: u32"] small [of "7 :: u64"]
      clear_of_byte [of "0x3C" "str ''..''" 0 "key_tag (str ''K'')"]
    by (simp add: key_tag_def)
qed

text \<open>
  C34 The protectors are the user types met by scanning on from each hit, in order: as many as there
  are, up to 64; every one carries the kind of its code.
\<close>

theorem extract_protectors_run:
  "\<exists>codes e. scan_run (user_types md) 0 codes e \<and> extract_protectors md = map protector_of codes \<and>
    length codes \<le> 64 \<and> (length codes = 64 \<or> user_types md e = None)"
  using protectors_loop_run [of "[]" md 0] by (simp add: extract_protectors_def del: str_Cons)

text \<open>
  C33 Enumerating the crypto users inverts their printing: from metadata that holds a sequence of
  user-type pairs, in either notation and with other content between them, exactly their codes come
  back, in order and classified, the first 64 of them if there are more.
\<close>

theorem extract_protectors_roundtrip:
  assumes "length (concat (map print_user us) @ tail) < 2 ^ 63"
    and "list_all user_ok us" and "find_sub tail (key_tag (str ''UserType'')) = None"
  shows "extract_protectors (concat (map print_user us) @ tail) =
    map protector_of (take 64 (map ue_code us))"
  using protectors_loop_printed [of "concat (map print_user us) @ tail" "[]" us tail "[]"] assms
  by (simp add: extract_protectors_def del: str_Cons)

theorem extract_protectors_roundtrip_witness:
  "extract_protectors
    (print_user \<lparr>ue_before = [], ue_gap = [], ue_attrs = [], ue_hex = True, ue_code = 5\<rparr>) =
    [\<lparr>pr_user_type = 5, pr_kind = Unknown\<rparr>]"
proof -
  let ?u = "\<lparr>ue_before = [], ue_gap = [], ue_attrs = [], ue_hex = True, ue_code = 5\<rparr>"
  have "length (print_user ?u) < 2 ^ 63"
    using show_radix_small [of 5 16]
    by (simp add: print_user_def integer_pair_def tagged_value_def key_tag_def integer_text_def)
  moreover have "user_ok ?u"
    by (simp add: user_ok_def key_tag_def)
  moreover have "find_sub [] (key_tag (str ''UserType'')) = None"
    by (simp add: find_sub_def)
  ultimately show ?thesis
    using extract_protectors_roundtrip [of "[?u]" "[]"]
    by (simp add: protector_of_def from_user_type_def del: str_Cons)
qed

text \<open>
  C32 The wrapped volume key is taken from the right place: the blob returned is the first
  \<open>KEKWrappedVolumeKeyStruct\<close> that follows the first \<open>BlockAlgorithm\<close> whose value is \<open>AES-XTS\<close>,
  all earlier algorithms being others. Nothing else is ever returned, and the search always ends.
\<close>

theorem extract_kek_selects_aes_xts:
  "extract_kek_wrapped_aes_xts P md = Some blob \<longleftrightarrow>
    (\<exists>algos e. scan_run (algorithms md) 0 (algos @ [str ''AES-XTS'']) e \<and>
      str ''AES-XTS'' \<notin> set algos \<and>
      extract_data P (drop e md) (str ''KEKWrappedVolumeKeyStruct'') = Some blob)"
  unfolding extract_kek_wrapped_aes_xts_def by (rule kek_loop_run)

text \<open>
  What extracting the encryption context returns in every case: the first struct that is missing or
  is not base64, or the first field for which a struct is too short, is named by the error, and the
  error \<open>Base64\<close> is never returned.
\<close>

lemma extract_context_outcome:
  "extract_context P md =
    (case extract_data P md (str ''PassphraseWrappedKEKStruct'') of
      None \<Rightarrow> Err (MetadataStructureMissing ''PassphraseWrappedKEKStruct'')
    | Some pw \<Rightarrow>
        if length pw < 24 then Err (OutOfRange ''PassphraseWrappedKEKStruct salt'')
        else if length pw < 56 then Err (OutOfRange ''PassphraseWrappedKEKStruct wrapped KEK'')
        else if length pw < 172 then Err (OutOfRange ''PassphraseWrappedKEKStruct iterations'')
        else
          (case extract_kek_wrapped_aes_xts P md of
            None \<Rightarrow> Err (MetadataStructureMissing ''AES-XTS KEKWrappedVolumeKeyStruct'')
          | Some vk \<Rightarrow>
              if length vk < 32 then Err (OutOfRange ''KEKWrappedVolumeKeyStruct wrapped VMK'')
              else Ok \<lparr>ec_salt = window 8 16 pw, ec_iterations = from_le_bytes (window 168 4 pw),
                       ec_wrapped_kek = window 32 24 pw, ec_wrapped_vmk = window 8 24 vk,
                       ec_protectors = extract_protectors md,
                       ec_conversion_status = extract_string md (str ''ConversionStatus'')\<rparr>))"
  by (simp add: extract_context_def slice16_eq slice24_eq read_u32_le_eq const_defs not_le
      split: option.split del: str_Cons)

lemma extract_context_lengths:
  assumes "extract_context P md = Ok ctx"
  shows "length (ec_salt ctx) = 16" and "length (ec_wrapped_kek ctx) = 24"
    and "length (ec_wrapped_vmk ctx) = 24"
  using assms
  by (auto simp: extract_context_def comp_iff slice16_eq slice24_eq read_u32_le_eq const_defs
      simp del: str_Cons split: if_splits)

lemma extract_context_no_panic: "extract_context P md \<noteq> Panic"
  by (simp add: extract_context_def comp_iff del: str_Cons)

lemma extract_lv_info_no_panic: "extract_lv_info md \<noteq> Panic"
  by (simp add: extract_lv_info_def comp_iff Let_def del: str_Cons)

text \<open>
  The metadata carries a pair: it stands there, and neither its key nor its opening tag is met
  earlier.
\<close>

definition carries :: "(bytes \<Rightarrow> bytes \<Rightarrow> bytes \<Rightarrow> bytes \<Rightarrow> bytes) \<Rightarrow> bytes \<Rightarrow> bytes \<Rightarrow> bytes \<Rightarrow> bytes \<Rightarrow> bool" where
  "carries pair open_tag md key_name v \<longleftrightarrow>
    (\<exists>pre gap attrs post. md = pre @ pair key_name gap attrs v @ post \<and>
      clear_of (key_tag key_name) pre \<and> clear_of open_tag gap \<and> 0x3E \<notin> set attrs)"

abbreviation carries_string :: "bytes \<Rightarrow> string \<Rightarrow> bytes \<Rightarrow> bool" where
  "carries_string md key_name v \<equiv> carries string_pair (str ''<string ID='') md (str key_name) v"

abbreviation carries_integer :: "bytes \<Rightarrow> string \<Rightarrow> bytes \<Rightarrow> bool" where
  "carries_integer md key_name v \<equiv> carries integer_pair (str ''<integer'') md (str key_name) v"

lemma extract_string_carried:
  "\<lbrakk>carries_string md key_name v; length md < 2 ^ 63; 0x3C \<notin> set v; utf8_valid v\<rbrakk> \<Longrightarrow>
    extract_string md (str key_name) = Some v"
  unfolding carries_def using extract_string_printed [of md] by force

lemma extract_lv_size_carried:
  "\<lbrakk>carries_integer md ''com.apple.corestorage.lv.size'' (integer_text hex w); length md < 2 ^ 63\<rbrakk> \<Longrightarrow>
    extract_lv_size md = Some w"
  unfolding carries_def extract_lv_size_def
  using extract_u64_printed [of md _ "str ''com.apple.corestorage.lv.size''" _ _ hex w]
  by (force simp del: str_Cons)

text \<open>
  C35 The logical-volume information is recovered from metadata that carries it: the family UUID, the
  identifier and the name as strings and the size as an integer in either notation, wherever and in
  whichever order the four pairs stand.
\<close>

theorem lv_info_roundtrip:
  assumes "length md < 2 ^ 63"
    and "carries_string md ''com.apple.corestorage.lv.familyUUID'' fam"
    and "carries_string md ''com.apple.corestorage.lv.uuid'' ident"
    and "carries_string md ''com.apple.corestorage.lv.name'' name"
    and "carries_integer md ''com.apple.corestorage.lv.size'' (integer_text hex sz)"
    and "0x3C \<notin> set (fam @ ident @ name)" and "list_all utf8_valid [fam, ident, name]"
  shows "extract_lv_info md =
    Ok \<lparr>lv_size = sz, lv_family_uuid = fam, lv_identifier = Some ident, lv_name = Some name\<rparr>"
  using assms extract_string_carried [OF assms(2,1)] extract_string_carried [OF assms(3,1)]
    extract_string_carried [OF assms(4,1)] extract_lv_size_carried [OF assms(5,1)]
  by (auto simp: extract_lv_info_def Let_def simp del: str_Cons)

definition sample_lv :: bytes where
  "sample_lv =
    string_pair (str ''com.apple.corestorage.lv.name'') [] [] (str ''v'') @
    string_pair (str ''com.apple.corestorage.lv.uuid'') [] [] (str ''b'') @
    integer_pair (str ''com.apple.corestorage.lv.size'') [] [] (integer_text True (9 :: u64)) @
    string_pair (str ''com.apple.corestorage.lv.familyUUID'') [] [] (str ''a'')"

lemma carriesI:
  assumes "md = pre @ pair key_name [] [] v @ post" and "open_tag \<noteq> []"
    and "b \<notin> set pre" and "k < length (key_tag key_name)" and "key_tag key_name ! k = b"
    and "b \<notin> set (take k (key_tag key_name))"
  shows "carries pair open_tag md key_name v"
  unfolding carries_def using assms clear_of_byte [OF assms(3-6)]
  by (intro exI [of _ pre] exI [of _ "[]"] exI [of _ post]) auto

theorem lv_info_roundtrip_witness:
  "extract_lv_info sample_lv =
    Ok \<lparr>lv_size = 9, lv_family_uuid = str ''a'', lv_identifier = Some (str ''b''), lv_name = Some (str ''v'')\<rparr>"
proof (rule lv_info_roundtrip)
  have nine: "integer_text True (9 :: u64) = str ''0x9''"
    by (simp add: integer_text_def show_radix_small digit_byte)
  note pairs = sample_lv_def string_pair_def integer_pair_def tagged_value_def key_tag_def nine
  show "length sample_lv < 2 ^ 63"
    by (simp add: pairs)
  let ?name = "string_pair (str ''com.apple.corestorage.lv.name'') [] [] (str ''v'')"
  let ?uuid = "string_pair (str ''com.apple.corestorage.lv.uuid'') [] [] (str ''b'')"
  let ?size = "integer_pair (str ''com.apple.corestorage.lv.size'') [] [] (integer_text True (9 :: u64))"
  have "0x55 \<notin> set ?name" and "0x55 \<notin> set ?uuid" and "0x55 \<notin> set ?size"
    by (simp_all add: pairs)
  then have U: "0x55 \<notin> set (?name @ ?uuid @ ?size)"
    by (simp only: set_append Un_iff) simp
  show "carries_string sample_lv ''com.apple.corestorage.lv.familyUUID'' (str ''a'')"
    by (rule carriesI [OF _ _ U, where post = "[]" and k = 36]) (simp_all add: pairs)
  show "carries_string sample_lv ''com.apple.corestorage.lv.uuid'' (str ''b'')"
    by (rule carriesI [of _ ?name _ _ _ _ _ "0x75" 30]) (simp_all add: pairs)
  show "carries_string sample_lv ''com.apple.corestorage.lv.name'' (str ''v'')"
    by (rule carriesI [of _ "[]" _ _ _ _ _ "0x3C" 0]) (simp_all add: pairs)
  show "carries_integer sample_lv ''com.apple.corestorage.lv.size'' (integer_text True (9 :: u64))"
    by (rule carriesI [of _ "?name @ ?uuid" _ _ _ _ _ "0x7A" 32]) (simp_all add: pairs)
qed auto

end
