(* ===== verification/Unlock.thy ===== *)
theory Unlock
  imports Context
begin

text \<open>
  The FVDE key hierarchy (\<open>core/src/unlock.rs\<close>): password, PBKDF2 passphrase key, key-encryption
  key, volume master key, and the tweak key hashed from the master key and the family UUID. The
  KDF, the key unwrap and the hash are those of the record \<open>prims\<close>.
\<close>

section \<open>Definitions\<close>

record VolumeKeys =
  vk_vmk :: bytes
  vk_tweak_key :: bytes

text \<open>The result of the KDF is discarded by \<open>ok()\<close>: on failure the buffer keeps its zeros.\<close>

definition passphrase_key :: "prims \<Rightarrow> bytes \<Rightarrow> bytes \<Rightarrow> u32 \<Rightarrow> bytes" where
  "passphrase_key P password salt iterations =
    (let rounds = max iterations 1 in
     case pbkdf2_sha256 P password salt rounds of
       Some out \<Rightarrow> out
     | None \<Rightarrow> replicate 16 0)"

definition aes_kw_unwrap :: "prims \<Rightarrow> bytes \<Rightarrow> bytes \<Rightarrow> string \<Rightarrow> bytes fv" where
  "aes_kw_unwrap P kek_bytes wrapped what = ok_or (kw_unwrap P kek_bytes wrapped) (KeyUnwrap what)"

definition derive_volume_keys :: "prims \<Rightarrow> bytes \<Rightarrow> EncryptionContext \<Rightarrow> bytes \<Rightarrow> VolumeKeys fv" where
  "derive_volume_keys P password context family_uuid_bytes =
    (let pk = passphrase_key P password (ec_salt context) (ec_iterations context) in
     chain (aes_kw_unwrap P pk (ec_wrapped_kek context) ''KEK'') (\<lambda>kek.
     chain (aes_kw_unwrap P kek (ec_wrapped_vmk context) ''VMK'') (\<lambda>vmk.
     let digest = sha256 P (vmk @ family_uuid_bytes) in
     chain (or_panic (slice_get digest 0 16)) (\<lambda>tweak_key.
       Ok \<lparr>vk_vmk = vmk, vk_tweak_key = tweak_key\<rparr>))))"

section \<open>What the unwrap documents\<close>

text \<open>RFC 3394: a 16-byte key wrapped with a key-encryption key is 24 bytes and unwraps to itself.\<close>

definition wrap_documented :: "prims \<Rightarrow> (bytes \<Rightarrow> bytes \<Rightarrow> bytes) \<Rightarrow> bool" where
  "wrap_documented P wrap \<longleftrightarrow>
    (\<forall>kek k. length kek = 16 \<and> length k = 16 \<longrightarrow>
      length (wrap kek k) = 24 \<and> kw_unwrap P kek (wrap kek k) = Some k)"

definition keys_ok :: "VolumeKeys \<Rightarrow> bool" where
  "keys_ok keys \<longleftrightarrow> length (vk_vmk keys) = 16 \<and> length (vk_tweak_key keys) = 16"

definition context_ok :: "EncryptionContext \<Rightarrow> bool" where
  "context_ok c \<longleftrightarrow> length (ec_salt c) = 16 \<and> length (ec_wrapped_kek c) = 24 \<and>
    length (ec_wrapped_vmk c) = 24"

lemma extract_context_ok: "extract_context P md = Ok c \<Longrightarrow> context_ok c"
  by (simp add: context_ok_def extract_context_lengths)

lemma tweak_slice: "kdf_documented P \<Longrightarrow> slice_get (sha256 P bs) 0 16 = Some (take 16 (sha256 P bs))"
  by (simp add: kdf_documented_def slice_get_def)

lemma unwrap_length:
  "\<lbrakk>kdf_documented P; kw_unwrap P kek w = Some k; length w = 24\<rbrakk> \<Longrightarrow> length k = 16"
  unfolding kdf_documented_def by blast

lemma derive_volume_keys_keys_ok:
  assumes "kdf_documented P" and "context_ok c" and "derive_volume_keys P pw c fam = Ok keys"
  shows "keys_ok keys"
  using assms
  by (auto simp: derive_volume_keys_def Let_def aes_kw_unwrap_def comp_iff tweak_slice keys_ok_def
      context_ok_def kdf_documented_def)

lemma derive_volume_keys_no_panic:
  "kdf_documented P \<Longrightarrow> derive_volume_keys P pw c fam \<noteq> Panic"
  by (simp add: derive_volume_keys_def Let_def aes_kw_unwrap_def comp_iff tweak_slice)

section \<open>Properties\<close>

text \<open>
  The KDF always runs, with at least one round: the passphrase key is the KDF's output for the
  greater of the stored count and one, never the buffer of zeros it is written into, and it has
  sixteen bytes. A stored count of zero gives the same key as one.
\<close>

theorem passphrase_key_runs_kdf:
  assumes "kdf_documented P"
  shows "pbkdf2_sha256 P password salt (max iterations 1) = Some (passphrase_key P password salt iterations) \<and>
    length (passphrase_key P password salt iterations) = 16 \<and>
    passphrase_key P password salt 0 = passphrase_key P password salt 1"
proof -
  have "0 < max iterations 1"
    by (simp add: less_max_iff_disj)
  then obtain k where "pbkdf2_sha256 P password salt (max iterations 1) = Some k" "length k = 16"
    using assms unfolding kdf_documented_def by blast
  then show ?thesis
    by (simp add: passphrase_key_def Let_def)
qed

theorem passphrase_key_runs_kdf_witness:
  "pbkdf2_sha256 demo_prims (str ''pw'') [] (max 0 1) = Some (passphrase_key demo_prims (str ''pw'') [] 0)"
  using passphrase_key_runs_kdf [OF demo_documented(2), of "str ''pw''" "[]" 0] by simp

text \<open>
  C24 Key derivation succeeds exactly when both unwraps do, and otherwise says which one failed: the
  KEK for a wrong password, the VMK after that. On success the master key is the unwrapped one, the
  tweak key is the first half of the hash of the master key followed by the family UUID, and both
  have the sixteen bytes AES-128 needs. It never panics.
\<close>

theorem derive_volume_keys_outcome:
  assumes "kdf_documented P" and "context_ok c"
  shows "(case derive_volume_keys P password c fam of
      Ok keys \<Rightarrow> keys_ok keys \<and>
        (\<exists>kek. kw_unwrap P (passphrase_key P password (ec_salt c) (ec_iterations c)) (ec_wrapped_kek c) = Some kek \<and>
          kw_unwrap P kek (ec_wrapped_vmk c) = Some (vk_vmk keys)) \<and>
        vk_tweak_key keys = take 16 (sha256 P (vk_vmk keys @ fam))
    | Err e \<Rightarrow>
        e = KeyUnwrap ''KEK'' \<and>
          kw_unwrap P (passphrase_key P password (ec_salt c) (ec_iterations c)) (ec_wrapped_kek c) = None \<or>
        e = KeyUnwrap ''VMK'' \<and>
          (\<exists>kek. kw_unwrap P (passphrase_key P password (ec_salt c) (ec_iterations c)) (ec_wrapped_kek c) = Some kek \<and>
            kw_unwrap P kek (ec_wrapped_vmk c) = None)
    | Panic \<Rightarrow> False)"
proof (cases "derive_volume_keys P password c fam")
  case (Ok keys)
  then show ?thesis
    using assms derive_volume_keys_keys_ok [OF assms Ok]
    by (auto simp: derive_volume_keys_def Let_def aes_kw_unwrap_def comp_iff tweak_slice)
next
  case (Err e)
  then show ?thesis
    using assms by (auto simp: derive_volume_keys_def Let_def aes_kw_unwrap_def comp_iff tweak_slice)
next
  case Panic
  then show ?thesis
    using derive_volume_keys_no_panic [OF assms(1)] by simp
qed

definition sample_context :: EncryptionContext where
  "sample_context = \<lparr>ec_salt = replicate 16 0, ec_iterations = 0,
    ec_wrapped_kek = replicate 8 1 @ replicate 16 2, ec_wrapped_vmk = replicate 8 2 @ replicate 16 3,
    ec_protectors = [], ec_conversion_status = None\<rparr>"

lemmas demo_keys_simps = derive_volume_keys_def passphrase_key_def aes_kw_unwrap_def demo_prims_def
  sample_context_def slice_get_def

theorem derive_volume_keys_outcome_witness:
  "(case derive_volume_keys demo_prims (replicate 16 1) sample_context (replicate 16 9) of
      Ok keys \<Rightarrow> vk_vmk keys = replicate 16 3 \<and> keys_ok keys | _ \<Rightarrow> False) \<and>
    derive_volume_keys demo_prims (replicate 16 5) sample_context (replicate 16 9) = Err (KeyUnwrap ''KEK'')"
proof -
  have c: "context_ok sample_context"
    by (simp add: context_ok_def sample_context_def)
  have "derive_volume_keys demo_prims (replicate 16 1) sample_context (replicate 16 9) =
      Ok \<lparr>vk_vmk = replicate 16 3, vk_tweak_key = replicate 16 3\<rparr>"
    by (simp add: demo_keys_simps numeral_eq_Suc)
  moreover have "derive_volume_keys demo_prims (replicate 16 5) sample_context (replicate 16 9) =
      Err (KeyUnwrap ''KEK'')"
    by (simp add: demo_keys_simps)
  ultimately show ?thesis
    using derive_volume_keys_outcome [OF demo_documented(2) c, of "replicate 16 1" "replicate 16 9"]
    by simp
qed

text \<open>
  The right password recovers the volume keys: if the context holds a KEK wrapped with the
  passphrase key and a master key wrapped with that KEK, derivation returns that master key and
  the tweak key of the family.
\<close>

theorem derive_volume_keys_roundtrip:
  assumes "kdf_documented P" and "wrap_documented P wrap"
    and "length kek = 16" and "length vmk = 16"
    and "ec_wrapped_kek c = wrap (passphrase_key P password (ec_salt c) (ec_iterations c)) kek"
    and "ec_wrapped_vmk c = wrap kek vmk"
  shows "derive_volume_keys P password c fam =
    Ok \<lparr>vk_vmk = vmk, vk_tweak_key = take 16 (sha256 P (vmk @ fam))\<rparr>"
proof -
  have "0 < max (ec_iterations c) 1"
    by (simp add: less_max_iff_disj)
  then have "length (passphrase_key P password (ec_salt c) (ec_iterations c)) = 16"
    using assms(1) unfolding kdf_documented_def passphrase_key_def Let_def
    by (metis option.simps(5))
  then show ?thesis
    using assms by (simp add: wrap_documented_def derive_volume_keys_def aes_kw_unwrap_def tweak_slice)
qed

theorem derive_volume_keys_roundtrip_witness:
  "derive_volume_keys demo_prims (replicate 16 1) sample_context (replicate 16 9) =
    Ok \<lparr>vk_vmk = replicate 16 3, vk_tweak_key = take 16 (sha256 demo_prims (replicate 16 3 @ replicate 16 9))\<rparr>"
proof (rule derive_volume_keys_roundtrip [OF demo_documented(2)])
  show "wrap_documented demo_prims (\<lambda>kek k. take 8 kek @ k)"
    by (simp add: wrap_documented_def demo_prims_def)
  show "ec_wrapped_kek sample_context = take 8 (passphrase_key demo_prims (replicate 16 1)
      (ec_salt sample_context) (ec_iterations sample_context)) @ replicate 16 2"
    by (simp add: demo_keys_simps numeral_eq_Suc)
  show "ec_wrapped_vmk sample_context = take 8 (replicate 16 2) @ replicate 16 3"
    by (simp add: sample_context_def numeral_eq_Suc)
qed simp_all

end
