(* ===== verification/Volume.thy ===== *)
theory Volume
  imports Io Xts Unlock
begin

text \<open>
  The decrypted logical volume (\<open>core/src/volume.rs\<close>): random access with \<open>read_at\<close>, the loop
  \<open>read_full_or_eof\<close>, and the \<open>Read\<close> and \<open>Seek\<close> implementations. A call that fills a buffer takes
  the buffer's length and returns the bytes written to its front; their number is the count the
  program returns. Arithmetic on \<open>u64\<close> is that of a build with overflow checks.

  The specification is \<open>plaintext\<close>: the sectors of the volume, decrypted as a whole. The lemmas in
  the context of \<open>image_reader\<close> show that every access returns the bytes of it that were asked
  for, over any conforming reader, and that the volume is again a conforming reader.
\<close>

section \<open>Definitions\<close>

definition SECTOR_SIZE :: nat where
  [const_defs]: "SECTOR_SIZE = 512"

record 'r DecryptedVolume =
  dv_reader :: 'r
  dv_keys :: VolumeKeys
  dv_physical_base :: u64
  dv_size :: u64
  dv_position :: u64

definition DecryptedVolume_new :: "'r \<Rightarrow> VolumeKeys \<Rightarrow> u64 \<Rightarrow> u64 \<Rightarrow> 'r DecryptedVolume" where
  "DecryptedVolume_new reader keys physical_base sz =
    \<lparr>dv_reader = reader, dv_keys = keys, dv_physical_base = physical_base, dv_size = sz, dv_position = 0\<rparr>"

definition DecryptedVolume_size :: "'r DecryptedVolume \<Rightarrow> u64" where
  "DecryptedVolume_size dv = dv_size dv"

text \<open>
  The loop of \<open>read_full_or_eof\<close>: the buffer, the number of bytes filled, the reader. The buffer is
  returned with the outcome, an error or not; bytes never reached keep their content. A read cannot
  write behind the buffer, but only the reader's contract keeps it from reporting a larger count:
  the sum \<open>filled += n\<close> is that of the build, the argument \<open>add\<close>.
\<close>

partial_function (option) read_full_loop_in ::
  "(nat \<Rightarrow> nat \<Rightarrow> nat fv) \<Rightarrow> 'r read_seek \<Rightarrow> bytes \<Rightarrow> nat \<Rightarrow> 'r \<Rightarrow> ('r \<times> bytes \<times> unit io_result) option" where
  "read_full_loop_in add ops buf filled r =
    (if filled < length buf then
       (case rd_read ops r (length buf - filled) of
         (r', Ok bs) \<Rightarrow>
           (if bs = [] then Some (r', buf, Ok ())
            else
              (case add filled (length bs) of
                Ok filled' \<Rightarrow>
                  read_full_loop_in add ops (copy_at filled (take (length buf - filled) bs) buf) filled' r'
              | _ \<Rightarrow> Some (r', copy_at filled (take (length buf - filled) bs) buf, Panic)))
       | (r', Err e) \<Rightarrow>
           (if e = Interrupted then read_full_loop_in add ops buf filled r' else Some (r', buf, Err e))
       | (r', Panic) \<Rightarrow> Some (r', buf, Panic))
     else Some (r, buf, Ok ()))"

definition read_full_loop ::
  "'r read_seek \<Rightarrow> bytes \<Rightarrow> nat \<Rightarrow> 'r \<Rightarrow> ('r \<times> bytes \<times> unit io_result) option" where
  "read_full_loop = read_full_loop_in usize_add"

lemmas read_full_loop_simps = read_full_loop_in.simps [of usize_add, folded read_full_loop_def]

text \<open>The function as \<open>read_at\<close> calls it: after an error the buffer is dropped.\<close>

definition read_full_or_eof :: "'r read_seek \<Rightarrow> bytes \<Rightarrow> ('r, io_error, bytes) action" where
  "read_full_or_eof ops buf r =
    map_option (\<lambda>(r', buf', c). (r', chain c (\<lambda>_. Ok buf'))) (read_full_loop ops buf 0 r)"

text \<open>A call on the field \<open>reader\<close>.\<close>

definition on_reader :: "('r, 'e, 'a) action \<Rightarrow> ('r DecryptedVolume, 'e, 'a) action" where
  "on_reader a dv = map_option (\<lambda>(r', c). (dv\<lparr>dv_reader := r'\<rparr>, c)) (a (dv_reader dv))"

text \<open>\<open>vec![0u8; n]\<close>: more than \<open>isize::MAX\<close> bytes is a capacity overflow, which panics.\<close>

definition zeroed_vec :: "nat \<Rightarrow> ('e, bytes) comp" where
  "zeroed_vec n = (if n < 2 ^ 63 then Ok (replicate n 0) else Panic)"

text \<open>The sector arithmetic of \<open>read_at\<close>: first sector, bytes wanted, region length, physical offset.\<close>

definition read_plan :: "u64 \<Rightarrow> u64 \<Rightarrow> u64 \<Rightarrow> nat \<Rightarrow> (u64 \<times> nat \<times> bytes \<times> u64) fv" where
  "read_plan physical_base sz offset n =
    chain (word_sub sz offset) (\<lambda>available.
    let want = unat (min (of_nat n) available);
        first_sector = offset div of_nat SECTOR_SIZE
    in
    chain (word_add offset (of_nat want)) (\<lambda>stop.
    chain (word_sub stop 1) (\<lambda>last_byte.
    let last_sector = last_byte div of_nat SECTOR_SIZE in
    chain (chain (word_sub last_sector first_sector) (\<lambda>d. word_add d 1)) (\<lambda>sectors.
    let sector_count = unat sectors in
    chain (ok_or (checked_mul_usize sector_count SECTOR_SIZE) (OutOfRange ''read region length'')) (\<lambda>region_len.
    chain (zeroed_vec region_len) (\<lambda>region.
    chain (chain (word_mul first_sector (of_nat SECTOR_SIZE)) (word_add physical_base)) (\<lambda>physical.
      Ok (first_sector, want, region, physical))))))))"

definition DecryptedVolume_read_at ::
  "prims \<Rightarrow> 'r read_seek \<Rightarrow> u64 \<Rightarrow> nat \<Rightarrow> ('r DecryptedVolume, FileVaultError, bytes) action" where
  "DecryptedVolume_read_at P ops offset n dv =
    (if offset \<ge> dv_size dv \<or> n = 0 then return (Ok []) dv
     else
       andThen (return (read_plan (dv_physical_base dv) (dv_size dv) offset n))
         (\<lambda>(first_sector, want, region, physical).
       andThen (on_reader (from_io (seek_start ops physical))) (\<lambda>_.
       andThen (on_reader (from_io (read_full_or_eof ops region))) (\<lambda>region.
       return
         (chain (decrypt_units P region (vk_vmk (dv_keys dv)) (vk_tweak_key (dv_keys dv))
             SECTOR_SIZE (ucast first_sector)) (\<lambda>region.
          chain (chain (word_mul first_sector (of_nat SECTOR_SIZE)) (word_sub offset)) (\<lambda>rel.
          let inner = unat rel in
          chain (usize_add inner want) (\<lambda>stop.
          chain (ok_or (slice_get region inner stop) (OutOfRange ''decrypted window'')) (\<lambda>slice.
          if want \<le> n then Ok slice else Err (OutOfRange ''output buffer window'')))))))))
       dv)"

text \<open>The \<open>Read\<close> implementation; \<open>None\<close> when the loop over the reader does not return.\<close>

definition DecryptedVolume_read ::
  "prims \<Rightarrow> 'r read_seek \<Rightarrow> nat \<Rightarrow> ('r DecryptedVolume, io_error, bytes) action" where
  "DecryptedVolume_read P ops n dv =
    (case DecryptedVolume_read_at P ops (dv_position dv) n dv of
      None \<Rightarrow> None
    | Some (dv', Ok bs) \<Rightarrow>
        (case word_add (dv_position dv') (of_nat (length bs)) of
          Ok p \<Rightarrow> Some (dv'\<lparr>dv_position := p\<rparr>, Ok bs)
        | Err e \<Rightarrow> Some (dv', Err e)
        | Panic \<Rightarrow> Some (dv', Panic))
    | Some (dv', Err e) \<Rightarrow> Some (dv', Err (Other e))
    | Some (dv', Panic) \<Rightarrow> Some (dv', Panic))"

definition add_signed :: "u64 \<Rightarrow> i64 \<Rightarrow> u64 io_result" where
  "add_signed base offset =
    ok_or (if 0 \<le> sint offset then checked_add base offset
           else checked_sub base (of_int \<bar>sint offset\<bar>))
      (InvalidInput ''seek out of range'')"

definition DecryptedVolume_seek :: "'r DecryptedVolume \<Rightarrow> seek_from \<Rightarrow> 'r DecryptedVolume \<times> u64 io_result" where
  "DecryptedVolume_seek dv p =
    (case (case p of
        Start n \<Rightarrow> Ok n
      | End n \<Rightarrow> add_signed (dv_size dv) n
      | Current n \<Rightarrow> add_signed (dv_position dv) n) of
      Ok p' \<Rightarrow> (dv\<lparr>dv_position := p'\<rparr>, Ok p')
    | Err e \<Rightarrow> (dv, Err e)
    | Panic \<Rightarrow> (dv, Panic))"

text \<open>
  The volume as a reader of its own: a \<open>read\<close> that does not return has no value, so it is
  represented by a panic; the lemmas below show that it does not happen.
\<close>

definition dv_ops :: "prims \<Rightarrow> 'r read_seek \<Rightarrow> 'r DecryptedVolume read_seek" where
  "dv_ops P ops =
    \<lparr>rd_read = (\<lambda>dv n. case DecryptedVolume_read P ops n dv of Some x \<Rightarrow> x | None \<Rightarrow> (dv, Panic)),
     rd_seek = DecryptedVolume_seek\<rparr>"

section \<open>Sector arithmetic\<close>

text \<open>The number of sectors a window of \<open>w\<close> bytes at \<open>o\<close> touches.\<close>

definition sector_span :: "nat \<Rightarrow> nat \<Rightarrow> nat" where
  "sector_span off w = (off + w - 1) div 512 - off div 512 + 1"

lemma sector_span_covers:
  assumes "0 < w"
  shows "off + w \<le> (off div 512 + sector_span off w) * 512"
    and "(off div 512 + sector_span off w) * 512 \<le> off + w + 511"
    and "sector_span off w * 512 \<le> w + 1022"
proof -
  define a b where "a = off div 512" and "b = (off + w - 1) div 512"
  have a: "a * 512 \<le> off" "off < a * 512 + 512" and b: "b * 512 \<le> off + w - 1" "off + w - 1 < b * 512 + 512"
    unfolding a_def b_def by (simp_all add: dividend_less_div_times)
  have "a \<le> b"
    unfolding a_def b_def using assms by (intro div_le_mono) simp
  then have sum: "a + sector_span off w = b + 1" and span: "sector_span off w = b - a + 1"
    by (simp_all add: sector_span_def a_def b_def)
  show "off + w \<le> (off div 512 + sector_span off w) * 512"
    and "(off div 512 + sector_span off w) * 512 \<le> off + w + 511"
    unfolding a_def [symmetric] sum using b assms by simp_all
  show "sector_span off w * 512 \<le> w + 1022"
    unfolding span using a b \<open>a \<le> b\<close> assms by (simp add: diff_mult_distrib)
qed

lemma unat_div_512: "unat (x div 512 :: u64) = unat x div 512"
  by (simp add: unat_div_distrib)

text \<open>The sums and differences of the sector arithmetic, computed on words.\<close>

lemma sector_arith:
  fixes off :: u64
  assumes "0 < w" and "unat off + w < 2 ^ 64"
  defines "stop \<equiv> off + of_nat w"
  defines "d \<equiv> (stop - 1) div 512 - off div 512"
  shows "unat (of_nat w :: u64) = w" and "1 \<le> stop" and "off div 512 \<le> (stop - 1) div 512"
    and "unat d + 1 < 2 ^ 64" and "unat (d + 1) = sector_span (unat off) w"
proof -
  show uw: "unat (of_nat w :: u64) = w"
    using assms(2) by (intro unat_of_nat_fit) simp
  then have us: "unat stop = unat off + w"
    using assms(2) by (simp add: stop_def unat_word_ariths)
  then show one: "1 \<le> stop"
    using assms(1) by (simp add: word_le_nat_alt)
  then have ul: "unat (stop - 1) = unat off + w - 1"
    using us by (simp add: unat_sub)
  then have "unat (off div 512) \<le> unat ((stop - 1) div 512)"
    unfolding unat_div_512 using assms(1) by (auto intro: div_le_mono)
  then show le: "off div 512 \<le> (stop - 1) div 512"
    by (simp add: word_le_nat_alt)
  then have ud: "unat d = (unat off + w - 1) div 512 - unat off div 512"
    by (simp add: d_def unat_sub unat_div_512 ul)
  then show "unat d + 1 < 2 ^ 64"
    using assms(2) by simp
  then show "unat (d + 1) = sector_span (unat off) w"
    using unat_add_fit [of d 1] by (simp add: ud sector_span_def)
qed

text \<open>The number of sectors, with whatever follows.\<close>

lemma sector_count_word:
  fixes off :: u64
  assumes "0 < w" and "unat off + w < 2 ^ 64"
  obtains s where "unat s = sector_span (unat off) w"
    and "\<And>k. chain (word_add off (of_nat w)) (\<lambda>stop. chain (word_sub stop 1) (\<lambda>last_byte.
      chain (chain (word_sub (last_byte div 512) (off div 512)) (\<lambda>d. word_add d 1)) k)) = (k s :: 'a fv)"
  using that [of "(off + of_nat w - 1) div 512 - off div 512 + 1"] sector_arith [OF assms] assms(2)
  by (simp add: word_add_def word_sub_def)

lemma first_sector_bytes:
  "word_mul (off div 512) 512 = (Ok (off div 512 * 512) :: u64 fv)"
  "unat (off div 512 * 512 :: u64) = unat off div 512 * 512"
  "off div 512 * 512 = (of_nat (unat off div 512 * 512) :: u64)"
proof -
  have "unat off div 512 * 512 < 2 ^ 64"
    using unat_u64_less [of off] by (simp add: div_times_less_eq_dividend le_less_trans)
  then show "word_mul (off div 512) 512 = (Ok (off div 512 * 512) :: u64 fv)"
    and u: "unat (off div 512 * 512 :: u64) = unat off div 512 * 512"
    using unat_mult_fit [of "off div 512" 512] by (simp_all add: word_mul_def unat_div_512)
  show "off div 512 * 512 = (of_nat (unat off div 512 * 512) :: u64)"
    unfolding u [symmetric] by simp
qed

lemma read_plan_eq:
  fixes base sz off :: u64
  assumes "off < sz" and "0 < n" and "n < 2 ^ 64" and w: "w = min n (unat sz - unat off)"
    and "w + 1024 \<le> 2 ^ 63"
  shows "read_plan base sz off n =
    (if unat base + unat off div 512 * 512 < 2 ^ 64
     then Ok (off div 512, w, replicate (sector_span (unat off) w * 512) 0,
       base + of_nat (unat off div 512 * 512))
     else Panic)"
proof -
  have lt: "unat off < unat sz"
    using assms(1) by (simp add: word_less_nat_alt)
  then have wpos: "0 < w" and wle: "unat off + w < 2 ^ 64"
    using assms(2) w unat_u64_less [of sz] by auto
  have avail: "word_sub sz off = (Ok (sz - off) :: u64 fv)" and ua: "unat (sz - off) = unat sz - unat off"
    using assms(1) by (simp_all add: word_sub_def less_imp_le unat_sub)
  have want: "unat (min (of_nat n) (sz - off)) = w"
    using assms(3) ua w by (simp add: min_def word_le_nat_alt unat_of_nat_fit)
  obtain s where s: "unat s = sector_span (unat off) w"
      "\<And>k. chain (word_add off (of_nat w)) (\<lambda>stop. chain (word_sub stop 1) (\<lambda>last_byte.
        chain (chain (word_sub (last_byte div 512) (off div 512)) (\<lambda>d. word_add d 1)) k)) =
        (k s :: (u64 \<times> nat \<times> bytes \<times> u64) fv)"
    using sector_count_word [OF wpos wle] by blast
  have "sector_span (unat off) w * 512 < 2 ^ 63"
    using sector_span_covers(3) [OF wpos, of "unat off"] assms(5) by simp
  then have cm: "checked_mul_usize (unat s) 512 = Some (sector_span (unat off) w * 512)"
    and zv: "zeroed_vec (sector_span (unat off) w * 512) =
      (Ok (replicate (sector_span (unat off) w * 512) 0) :: bytes fv)"
    by (simp_all add: s(1) checked_mul_usize_def zeroed_vec_def)
  have "read_plan base sz off n =
      chain (word_add base (off div 512 * 512)) (\<lambda>physical.
        Ok (off div 512, w, replicate (sector_span (unat off) w * 512) 0, physical))"
    unfolding read_plan_def Let_def SECTOR_SIZE_def
    by (simp only: avail want of_nat_numeral s(2) cm zv first_sector_bytes(1) chain.simps ok_or.simps)
  then show ?thesis
    unfolding first_sector_bytes(3) [symmetric] by (simp add: word_add_def first_sector_bytes(2))
qed

section \<open>The loop over the reader\<close>

lemma copy_at_Nil [simp]: "copy_at off [] xs = xs"
  by (simp add: copy_at_def)

lemma copy_at_zeros:
  "length xs \<le> n \<Longrightarrow> copy_at 0 xs (replicate n x) = take n (xs @ replicate n x)"
  by (simp add: copy_at_def)

text \<open>One step of the loop that reads some bytes, and what the rest of the loop makes of its buffer.\<close>

lemma read_full_step:
  assumes "rd_read ops r (length buf - filled) = (r', Ok (window p k d))"
    and "0 < k" and "filled + k \<le> length buf" and "p + k \<le> length d" and "length buf < 2 ^ 64"
  shows "read_full_loop ops buf filled r =
      read_full_loop ops (copy_at filled (window p k d) buf) (filled + k) r'"
    and "length (copy_at filled (window p k d) buf) = length buf"
    and "copy_at (filled + k) (window (p + k) (length buf - (filled + k)) d) (copy_at filled (window p k d) buf) =
      copy_at filled (window p (length buf - filled) d) buf"
proof -
  have w: "length (window p k d) = k"
    using assms(4) by simp
  then have "window p k d \<noteq> []"
    using assms(2) by (metis length_0_conv less_not_refl)
  moreover have "take (length buf - filled) (window p k d) = window p k d"
    using w assms(3) by (intro take_all) simp
  ultimately show "read_full_loop ops buf filled r =
      read_full_loop ops (copy_at filled (window p k d) buf) (filled + k) r'"
    using w assms by (subst read_full_loop_simps) (simp del: take_take)
  show "length (copy_at filled (window p k d) buf) = length buf"
    using w assms(3) by simp
  show "copy_at (filled + k) (window (p + k) (length buf - (filled + k)) d) (copy_at filled (window p k d) buf) =
      copy_at filled (window p (length buf - filled) d) buf"
    using copy_at_copy_at [of filled "window p k d" "window (p + k) (length buf - (filled + k)) d" buf]
      window_append [of k p d "length buf - (filled + k)"] w assms(3,4) by simp
qed

context image_reader
begin

lemma read_full_loop_correct:
  assumes "ok r" and "filled \<le> length buf" and "length buf < 2 ^ 64"
  shows "\<exists>r'. ok r' \<and> image r' = image r \<and>
    read_full_loop ops buf filled r =
      Some (r', copy_at filled (window (pos r) (length buf - filled) (image r)) buf, Ok ())"
  using assms
proof (induction "length buf - filled + patience r" arbitrary: filled buf r rule: less_induct)
  case less
  show ?case
  proof (cases "filled = length buf")
    case True
    with less.prems show ?thesis
      by (subst read_full_loop_simps) auto
  next
    case False
    with less.prems have lt: "filled < length buf" and pos: "0 < length buf - filled"
      by simp_all
    from less.prems(3) have "length buf - filled < 2 ^ 64"
      by simp
    with less.prems(1) pos show ?thesis
    proof (cases rule: read_cases)
      case (interrupted r')
      with less.hyps [of buf filled r'] less.prems lt show ?thesis
        by (subst read_full_loop_simps) auto
    next
      case (eof r')
      with lt show ?thesis
        by (subst read_full_loop_simps) auto
    next
      case (some_bytes r' k)
      then have k: "filled + k \<le> length buf"
        using lt by simp
      note step = read_full_step [OF some_bytes(1,5) k some_bytes(7) less.prems(3)]
      show ?thesis
        using less.hyps [of "copy_at filled (window (pos r) k (image r)) buf" "filled + k" r'] some_bytes k less.prems(3)
        by (simp add: step)
    qed
  qed
qed

text \<open>Over a zeroed buffer: the bytes of the image, continued with zeros.\<close>

lemma read_full_zeros:
  assumes "ok r" and "n < 2 ^ 64"
  shows "\<exists>r'. ok r' \<and> image r' = image r \<and>
    read_full_or_eof ops (replicate n 0) r =
      Some (r', Ok (take n (drop (pos r) (image r) @ replicate n 0)))"
proof -
  obtain r' where r': "ok r'" "image r' = image r"
      "read_full_loop ops (replicate n 0) 0 r =
        Some (r', copy_at 0 (window (pos r) n (image r)) (replicate n 0), Ok ())"
    using read_full_loop_correct [OF assms(1), of 0 "replicate n 0"] assms(2) by auto
  then have "read_full_or_eof ops (replicate n 0) r =
      Some (r', Ok (copy_at 0 (window (pos r) n (image r)) (replicate n 0)))"
    by (simp add: read_full_or_eof_def)
  moreover have "copy_at 0 (window (pos r) n (image r)) (replicate n 0) =
      take n (drop (pos r) (image r) @ replicate n 0)"
    by (simp add: copy_at_def min_def)
  ultimately show ?thesis
    using r'(1,2) by auto
qed

end

section \<open>The plaintext of a volume\<close>

text \<open>
  The ciphertext of the volume: its sectors in the image from the physical base on, continued with
  zeros where the image ends; and the plaintext, those sectors decrypted as one area and cut to the
  size of the volume.
\<close>

definition cipher_sectors :: "nat \<Rightarrow> nat \<Rightarrow> bytes \<Rightarrow> bytes" where
  "cipher_sectors base sz img =
    (let m = (sz + 511) div 512 * 512 in take m (drop base img @ replicate m 0))"

definition plaintext :: "prims \<Rightarrow> VolumeKeys \<Rightarrow> nat \<Rightarrow> nat \<Rightarrow> bytes \<Rightarrow> bytes" where
  "plaintext P keys base sz img =
    (case xts_decrypt_area P (vk_vmk keys) (vk_tweak_key keys) 512 0 (cipher_sectors base sz img) of
      Some x \<Rightarrow> take sz x
    | None \<Rightarrow> [])"

text \<open>The volume ends, with its last sector, before the largest offset a seek accepts.\<close>

definition extent_ok :: "u64 \<Rightarrow> u64 \<Rightarrow> bool" where
  "extent_ok base sz \<longleftrightarrow> unat base + unat sz + 1024 \<le> 2 ^ 63"

definition volume_ok :: "prims \<Rightarrow> ('r \<Rightarrow> bool) \<Rightarrow> 'r DecryptedVolume \<Rightarrow> bool" where
  "volume_ok P okr dv \<longleftrightarrow> xts_documented P \<and> okr (dv_reader dv) \<and> keys_ok (dv_keys dv) \<and>
    extent_ok (dv_physical_base dv) (dv_size dv)"

definition volume_bytes :: "prims \<Rightarrow> ('r \<Rightarrow> bytes) \<Rightarrow> 'r DecryptedVolume \<Rightarrow> bytes" where
  "volume_bytes P img dv =
    plaintext P (dv_keys dv) (unat (dv_physical_base dv)) (unat (dv_size dv)) (img (dv_reader dv))"

lemma window_padded:
  assumes "a + n \<le> m"
  shows "window a n (take m (xs @ replicate m z)) = take n (drop a xs @ replicate n z)"
proof -
  have "window a n (take m ys) = window a n ys" for ys :: "'a list"
    using assms by (simp add: drop_take min_absorb1)
  then show ?thesis
    using assms by (simp only:) (auto simp: min_def)
qed

lemma length_cipher_sectors: "length (cipher_sectors base sz img) = (sz + 511) div 512 * 512"
  by (simp add: cipher_sectors_def Let_def)

lemma sectors_cover: "(sz :: nat) \<le> (sz + 511) div 512 * 512" "(sz + 511) div 512 * 512 \<le> sz + 511"
  by linarith (rule div_times_less_eq_dividend)

lemma keys_ok_xts: "\<lbrakk>xts_documented P; keys_ok keys\<rbrakk> \<Longrightarrow> xts_keyed P (vk_vmk keys) (vk_tweak_key keys) 512"
  by (simp add: xts_keyed_def keys_ok_def)

text \<open>The whole area decrypts, so the plaintext has the size of the volume.\<close>

lemma plaintext_area:
  assumes "xts_documented P" and "keys_ok keys" and "sz < 2 ^ 64"
  obtains x where "decrypt_units P (cipher_sectors base sz img) (vk_vmk keys) (vk_tweak_key keys) 512 0 =
      (Ok x :: bytes fv)"
    and "length x = (sz + 511) div 512 * 512" and "plaintext P keys base sz img = take sz x"
proof -
  have "(sz + 511) div 512 < 2 ^ 128"
    using assms(3) by simp
  then obtain x where "xts_decrypt_area P (vk_vmk keys) (vk_tweak_key keys) 512 0
      (cipher_sectors base sz img) = Some x" "length x = (sz + 511) div 512 * 512"
    using xts_area [OF keys_ok_xts [OF assms(1,2)], of 0 "cipher_sectors base sz img"]
    by (auto simp: length_cipher_sectors)
  then show thesis
    by (intro that [of x]) (simp_all add: decrypt_units_def plaintext_def)
qed

lemma length_plaintext:
  "\<lbrakk>xts_documented P; keys_ok keys; sz < 2 ^ 64\<rbrakk> \<Longrightarrow> length (plaintext P keys base sz img) = sz"
  using plaintext_area [of P keys sz base img] sectors_cover(1) [of sz] by fastforce

text \<open>
  The sectors that enclose a window, decrypted on their own with the tweak of the first one, hold
  the window of the plaintext.
\<close>

lemma decrypt_enclosing_sectors:
  assumes "xts_documented P" and "keys_ok keys" and "sz < 2 ^ 63" and "0 < w" and "off + w \<le> sz"
  defines "f \<equiv> off div 512" and "c \<equiv> sector_span off w"
  obtains y where "decrypt_units P (take (c * 512) (drop (base + f * 512) img @ replicate (c * 512) 0))
      (vk_vmk keys) (vk_tweak_key keys) 512 (of_nat f) = (Ok y :: bytes fv)"
    and "length y = c * 512" and "off - f * 512 + w \<le> length y"
    and "window (off - f * 512) w y = window off w (plaintext P keys base sz img)"
proof -
  let ?m = "(sz + 511) div 512" and ?b = "cipher_sectors base sz img"
  have span: "off + w \<le> (f + c) * 512" "(f + c) * 512 \<le> off + w + 511"
    unfolding f_def c_def by (rule sector_span_covers [OF assms(4)])+
  have fc: "f + c \<le> ?m"
    using div_le_mono [OF span(2), of 512] div_le_mono [of "off + w + 511" "sz + 511" 512] assms(5) by simp
  obtain x where x: "decrypt_units P ?b (vk_vmk keys) (vk_tweak_key keys) 512 0 = (Ok x :: bytes fv)"
      "length x = ?m * 512" "plaintext P keys base sz img = take sz x"
    using plaintext_area [OF assms(1,2), of sz base img] assms(3) by auto
  have "(f + c) * 512 \<le> ?m * 512"
    by (rule mult_le_mono1 [OF fc])
  then have win: "window (f * 512) (c * 512) ?b =
      take (c * 512) (drop (base + f * 512) img @ replicate (c * 512) 0)"
    unfolding cipher_sectors_def Let_def
    by (subst window_padded) (simp_all add: add_mult_distrib ac_simps)
  have room: "?m < 2 ^ 128"
    using assms(3) by (intro le_less_trans [OF div_le_dividend]) simp
  have dec: "decrypt_units P (window (f * 512) (c * 512) ?b) (vk_vmk keys) (vk_tweak_key keys) 512 (of_nat f) =
      (Ok (window (f * 512) (c * 512) x) :: bytes fv)"
    using decrypt_units_window [OF keys_ok_xts [OF assms(1,2)] length_cipher_sectors fc _ x(1)] room
    by simp
  have f: "f * 512 \<le> off"
    unfolding f_def by (rule div_times_less_eq_dividend)
  show thesis
  proof (rule that)
    show len: "length (window (f * 512) (c * 512) x) = c * 512"
      using \<open>(f + c) * 512 \<le> ?m * 512\<close> x(2) by (simp add: add_mult_distrib)
    show fit: "off - f * 512 + w \<le> length (window (f * 512) (c * 512) x)"
      using span(1) f unfolding len by (simp add: add_mult_distrib)
    have "c * 512 - (off - f * 512) \<ge> w"
      using fit unfolding len by (metis add.commute add_le_imp_le_diff)
    then show "window (off - f * 512) w (window (f * 512) (c * 512) x) =
        window off w (plaintext P keys base sz img)"
      using f assms(5) by (simp add: window_of_window x(3) drop_take min_absorb1 min_absorb2)
  qed (use dec win in simp)
qed

section \<open>Every access returns plaintext\<close>

lemma ucast_div_512: "(ucast (off div 512 :: u64) :: u128) = of_nat (unat off div 512)"
  by (metis of_nat_unat unat_div_512)

lemma unat_sector_rel:
  "chain (word_mul (off div 512) 512) (word_sub off) = (Ok (off - off div 512 * 512) :: u64 fv)"
  "unat (off - off div 512 * 512 :: u64) = unat off - unat off div 512 * 512"
proof -
  have "off div 512 * 512 \<le> off"
    by (simp add: word_le_nat_alt first_sector_bytes(2) div_times_less_eq_dividend)
  then show "chain (word_mul (off div 512) 512) (word_sub off) = (Ok (off - off div 512 * 512) :: u64 fv)"
      "unat (off - off div 512 * 512) = unat off - unat off div 512 * 512"
    by (simp_all add: first_sector_bytes(1,2) word_sub_def unat_sub)
qed

text \<open>The end of \<open>read_at\<close>, once the sectors are in the buffer.\<close>

lemma decrypt_window:
  fixes off :: u64
  assumes "xts_documented P" and "keys_ok keys" and "sz < 2 ^ 63" and "0 < w" and "unat off + w \<le> sz"
  defines "c \<equiv> sector_span (unat off) w"
  shows "chain (decrypt_units P (take (c * 512) (drop (base + unat off div 512 * 512) img @ replicate (c * 512) 0))
        (vk_vmk keys) (vk_tweak_key keys) 512 (of_nat (unat off div 512))) (\<lambda>region.
      chain (chain (word_mul (off div 512) 512) (word_sub off)) (\<lambda>rel.
      let inner = unat rel in
      chain (usize_add inner w) (\<lambda>stop.
      chain (ok_or (slice_get region inner stop) e) f))) =
    (f (window (unat off) w (plaintext P keys base sz img)) :: bytes fv)"
proof -
  define d where "d = unat off - unat off div 512 * 512"
  obtain y where y: "decrypt_units P (take (c * 512) (drop (base + unat off div 512 * 512) img @ replicate (c * 512) 0))
        (vk_vmk keys) (vk_tweak_key keys) 512 (of_nat (unat off div 512)) = (Ok y :: bytes fv)"
      "d + w \<le> length y" "window d w y = window (unat off) w (plaintext P keys base sz img)"
    using decrypt_enclosing_sectors [OF assms(1-5), of base img, folded c_def d_def] by metis
  have "d + w < 2 ^ 64"
    using assms(3,5) by (simp add: d_def)
  then show ?thesis
    using y unat_sector_rel(2) [of off, folded d_def]
    by (simp add: unat_sector_rel(1) slice_get_def Let_def)
qed

context image_reader
begin

text \<open>The middle of \<open>read_at\<close>: seek to the first sector and fill a zeroed buffer.\<close>

lemma fetch_region:
  assumes "ok (dv_reader dv)" and "unat phys < 2 ^ 63" and "m < 2 ^ 64"
  obtains r' where "ok r'" and "image r' = image (dv_reader dv)"
    and "\<And>g. andThen (on_reader (from_io (seek_start ops phys))) (\<lambda>_.
      andThen (on_reader (from_io (read_full_or_eof ops (replicate m 0)))) g) dv =
      g (take m (drop (unat phys) (image (dv_reader dv)) @ replicate m 0)) (dv\<lparr>dv_reader := r'\<rparr>)"
proof -
  obtain r1 where r1: "seek_start ops phys (dv_reader dv) = Some (r1, Ok phys)"
      "ok r1" "image r1 = image (dv_reader dv)" "pos r1 = unat phys"
    using assms(1,2) by (cases rule: seek_start_cases [of "dv_reader dv" phys]) auto
  obtain r2 where "ok r2" "image r2 = image (dv_reader dv)"
      "read_full_or_eof ops (replicate m 0) r1 =
        Some (r2, Ok (take m (drop (unat phys) (image (dv_reader dv)) @ replicate m 0)))"
    using read_full_zeros [OF r1(2) assms(3)] r1(3,4) by metis
  then show thesis
    using r1(1) by (intro that [of r2]) (simp_all add: andThen_def on_reader_def from_io_def)
qed

lemma read_at_inside:
  assumes "volume_ok P ok dv" and "n < 2 ^ 64" and "off < dv_size dv" and "0 < n"
  shows "\<exists>r'. ok r' \<and> image r' = image (dv_reader dv) \<and>
    DecryptedVolume_read_at P ops off n dv =
      Some (dv\<lparr>dv_reader := r'\<rparr>,
        Ok (window (unat off) (min n (unat (dv_size dv) - unat off)) (volume_bytes P image dv)))"
proof -
  let ?sz = "unat (dv_size dv)" and ?base = "unat (dv_physical_base dv)" and ?img = "image (dv_reader dv)"
  let ?plain = "plaintext P (dv_keys dv) ?base ?sz ?img"
  have hyps: "xts_documented P" "keys_ok (dv_keys dv)" "ok (dv_reader dv)" "?base + ?sz + 1024 \<le> 2 ^ 63"
    using assms(1) by (simp_all add: volume_ok_def extent_ok_def)
  have inside: "\<not> (dv_size dv \<le> off \<or> n = 0)"
    using assms(3,4) by simp
  define w where "w = min n (?sz - unat off)"
  have off: "off < dv_size dv" "unat off < ?sz" and n: "0 < n"
    using assms(3,4) by (auto simp: word_less_nat_alt)
  have w: "0 < w" "unat off + w \<le> ?sz" "w \<le> n"
    using off n by (auto simp: w_def)
  let ?f = "unat off div 512" and ?c = "sector_span (unat off) w"
  let ?phys = "dv_physical_base dv + of_nat (?f * 512)"
  have small: "?base + ?f * 512 < 2 ^ 63"
    using hyps(4) off div_times_less_eq_dividend [of "unat off" 512] by simp
  then have uf: "unat (of_nat (?f * 512) :: u64) = ?f * 512"
    by (intro unat_of_nat_fit) simp
  have uphys: "unat ?phys = ?base + ?f * 512"
    using small unat_add_fit [of "dv_physical_base dv" "of_nat (?f * 512)"] by (simp only: uf) simp
  have plan: "read_plan (dv_physical_base dv) (dv_size dv) off n =
      Ok (off div 512, w, replicate (?c * 512) 0, ?phys)"
    using read_plan_eq [OF off(1) n assms(2) w_def, of "dv_physical_base dv"] w hyps(4) small by simp
  have "?c * 512 < 2 ^ 64" "?sz < 2 ^ 63"
    using sector_span_covers(3) [OF w(1), of "unat off"] w hyps(4) by simp_all
  note tail = decrypt_window [OF hyps(1,2) this(2) w(1,2), of ?base ?img]
    and fetch = fetch_region [OF hyps(3) small [folded uphys] this(1)]
  obtain r' where r': "ok r'" "image r' = ?img"
    and g: "\<And>g :: bytes \<Rightarrow> ('r DecryptedVolume, FileVaultError, bytes) action. andThen (on_reader (from_io (seek_start ops ?phys))) (\<lambda>_.
      andThen (on_reader (from_io (read_full_or_eof ops (replicate (?c * 512) 0)))) g) dv =
      g (take (?c * 512) (drop (?base + ?f * 512) ?img @ replicate (?c * 512) 0)) (dv\<lparr>dv_reader := r'\<rparr>)"
    using fetch unfolding uphys by metis
  have "DecryptedVolume_read_at P ops off n dv = Some (dv\<lparr>dv_reader := r'\<rparr>, Ok (window (unat off) w ?plain))"
    unfolding DecryptedVolume_read_at_def if_not_P [OF inside] plan andThen_return case_prod_conv
      SECTOR_SIZE_def of_nat_numeral ucast_div_512 g tail if_P [OF w(3)] return_def by (rule refl)
  with r' show ?thesis
    unfolding w_def volume_bytes_def by blast
qed

lemma volume_bytes_length:
  "volume_ok P ok dv \<Longrightarrow> length (volume_bytes P image dv) = unat (dv_size dv)"
  unfolding volume_bytes_def volume_ok_def extent_ok_def by (intro length_plaintext) auto

lemma read_at_plaintext:
  assumes "volume_ok P ok dv" and "n < 2 ^ 64"
  shows "\<exists>r'. ok r' \<and> image r' = image (dv_reader dv) \<and>
    DecryptedVolume_read_at P ops off n dv =
      Some (dv\<lparr>dv_reader := r'\<rparr>, Ok (window (unat off) n (volume_bytes P image dv)))"
proof (cases "dv_size dv \<le> off \<or> n = 0")
  case True
  then have "window (unat off) n (volume_bytes P image dv) = []"
    using volume_bytes_length [OF assms(1)] by (auto simp: word_le_nat_alt)
  with True assms(1) show ?thesis
    by (intro exI [of _ "dv_reader dv"])
      (simp add: DecryptedVolume_read_at_def return_def volume_ok_def)
next
  case False
  then have "off < dv_size dv" and "0 < n"
    by (simp_all add: not_le)
  moreover have "window (unat off) (min n (unat (dv_size dv) - unat off)) (volume_bytes P image dv) =
      window (unat off) n (volume_bytes P image dv)"
    unfolding volume_bytes_length [OF assms(1), symmetric] by (simp add: min.commute [of n])
  ultimately show ?thesis
    using read_at_inside [OF assms, of off] by metis
qed

lemma volume_unchanged:
  assumes "image r' = image (dv_reader dv)" and "ok r'" and "volume_ok P ok dv"
  shows "volume_ok P ok (dv\<lparr>dv_reader := r', dv_position := p\<rparr>)"
    and "volume_bytes P image (dv\<lparr>dv_reader := r', dv_position := p\<rparr>) = volume_bytes P image dv"
    and "volume_ok P ok (dv\<lparr>dv_reader := r'\<rparr>)"
    and "volume_bytes P image (dv\<lparr>dv_reader := r'\<rparr>) = volume_bytes P image dv"
  using assms by (simp_all add: volume_ok_def volume_bytes_def)

lemma read_plaintext:
  assumes "volume_ok P ok dv" and "n < 2 ^ 64"
  defines "bs \<equiv> window (unat (dv_position dv)) n (volume_bytes P image dv)"
  shows "\<exists>r'. ok r' \<and> image r' = image (dv_reader dv) \<and>
      DecryptedVolume_read P ops n dv =
        Some (dv\<lparr>dv_reader := r', dv_position := dv_position dv + of_nat (length bs)\<rparr>, Ok bs)"
    and "unat (dv_position dv + of_nat (length bs)) = unat (dv_position dv) + length bs"
proof -
  have fit: "unat (dv_position dv) + length bs < 2 ^ 64"
  proof (cases "bs = []")
    case True
    then show ?thesis
      using unat_u64_less [of "dv_position dv"] by simp
  next
    case False
    then have "unat (dv_position dv) + length bs \<le> unat (dv_size dv)"
      using volume_bytes_length [OF assms(1)] by (auto simp: bs_def)
    then show ?thesis
      using unat_u64_less [of "dv_size dv"] by simp
  qed
  then have len: "unat (of_nat (length bs) :: u64) = length bs"
    by (intro unat_of_nat_fit) simp
  with fit show "unat (dv_position dv + of_nat (length bs)) = unat (dv_position dv) + length bs"
    by (simp add: unat_add_fit)
  have add: "word_add (dv_position dv) (of_nat (length bs)) =
      (Ok (dv_position dv + of_nat (length bs)) :: u64 io_result)"
    using fit len by (simp add: word_add_def)
  show "\<exists>r'. ok r' \<and> image r' = image (dv_reader dv) \<and>
      DecryptedVolume_read P ops n dv =
        Some (dv\<lparr>dv_reader := r', dv_position := dv_position dv + of_nat (length bs)\<rparr>, Ok bs)"
    using read_at_plaintext [OF assms(1,2), of "dv_position dv"] add
    unfolding DecryptedVolume_read_def bs_def [symmetric] by force
qed

text \<open>The decrypted volume is a conforming reader over its plaintext.\<close>

lemma volume_image_reader:
  "image_reader (dv_ops P ops) (volume_ok P ok) (volume_bytes P image) (\<lambda>dv. unat (dv_position dv)) (\<lambda>_. 0)"
proof (unfold_locales, goal_cases)
  case (1 dv)
  then show ?case
    using volume_bytes_length [of P dv] by (simp add: volume_ok_def extent_ok_def)
next
  case (2 dv off dv' res)
  then show ?case
    by (auto simp: dv_ops_def DecryptedVolume_seek_def volume_ok_def volume_bytes_def)
next
  case (3 dv n dv' res)
  define bs where "bs = window (unat (dv_position dv)) n (volume_bytes P image dv)"
  obtain r' where r': "ok r'" "image r' = image (dv_reader dv)"
      "DecryptedVolume_read P ops n dv =
        Some (dv\<lparr>dv_reader := r', dv_position := dv_position dv + of_nat (length bs)\<rparr>, Ok bs)"
    using read_plaintext(1) [of P dv n, folded bs_def] 3 by blast
  then have dv': "dv' = dv\<lparr>dv_reader := r', dv_position := dv_position dv + of_nat (length bs)\<rparr>"
    and res: "res = Ok bs"
    using 3 by (auto simp: dv_ops_def)
  have "bs = window (unat (dv_position dv)) (length bs) (volume_bytes P image dv)" and "length bs \<le> n"
    by (simp_all add: bs_def)
  moreover have "bs = [] \<longrightarrow> length (volume_bytes P image dv) \<le> unat (dv_position dv)"
    using 3 by (auto simp: bs_def)
  moreover have "unat (dv_position dv') = unat (dv_position dv) + length bs"
    using read_plaintext(2) [of P dv n, folded bs_def] 3 by (simp add: dv')
  ultimately show ?case
    using volume_unchanged(1,2) [OF r'(2,1)] 3(1) res by (simp add: dv')
qed

end

interpretation dvc: image_reader "dv_ops P cursor_ops" "volume_ok P cursor_ok" "volume_bytes P cur_data"
    "\<lambda>dv. unat (dv_position dv)" "\<lambda>_. 0"
  for P
  by (rule cur.volume_image_reader)

section \<open>A sample volume\<close>

definition sample_volume :: "cursor DecryptedVolume" where
  "sample_volume = DecryptedVolume_new (cursor_new (replicate 600 7))
    \<lparr>vk_vmk = replicate 16 1, vk_tweak_key = replicate 16 2\<rparr> 88 500"

lemma sample_volume_ok: "volume_ok demo_prims cursor_ok sample_volume"
  by (simp add: volume_ok_def sample_volume_def DecryptedVolume_new_def cursor_new_def cursor_ok_def
      keys_ok_def extent_ok_def demo_documented)

lemma sample_volume_bytes: "volume_bytes demo_prims cur_data sample_volume = replicate 500 7"
proof -
  have "cipher_sectors 88 500 (replicate 600 7) = (replicate 512 7 :: bytes)"
    by (simp add: cipher_sectors_def take_replicate)
  then show ?thesis
    by (simp add: volume_bytes_def sample_volume_def DecryptedVolume_new_def cursor_new_def plaintext_def
        demo_prims_def mask_area_unit)
qed

section \<open>Properties\<close>

text \<open>
  C1 Random access refines the plaintext. Over every conforming reader of the image, however short
  its reads and however often it is interrupted, \<open>read_at\<close> returns, and returns exactly the bytes of
  the decrypted volume that lie in the window asked for: for an aligned or an unaligned offset, a
  window across sectors, a window cut off by the end of the volume (nothing at or past it), and an
  image that ends early, whose missing ciphertext counts as zeros. It leaves the volume, its content
  and its position as they were.
\<close>

theorem read_at_refines_plaintext:
  assumes "image_reader ops ok img pos patience" and "volume_ok P ok dv" and "n < 2 ^ 64"
  shows "\<exists>dv'. DecryptedVolume_read_at P ops off n dv =
      Some (dv', Ok (window (unat off) n (volume_bytes P img dv))) \<and>
    volume_ok P ok dv' \<and> volume_bytes P img dv' = volume_bytes P img dv \<and>
    dv_position dv' = dv_position dv \<and> DecryptedVolume_size dv' = DecryptedVolume_size dv"
  using image_reader.read_at_plaintext [OF assms, of off] image_reader.volume_unchanged(3,4) [OF assms(1) _ _ assms(2)]
  by (fastforce simp: DecryptedVolume_size_def)

theorem read_at_refines_plaintext_witness:
  "\<exists>dv'. DecryptedVolume_read_at demo_prims cursor_ops 498 9 sample_volume = Some (dv', Ok (replicate 2 7))"
  using read_at_refines_plaintext [OF cur.image_reader_axioms sample_volume_ok, of 9 498]
  by (simp add: sample_volume_bytes) blast

text \<open>
  C13 Sequential access refines it too. Seeking the decrypted volume to an offset and reading a
  number of bytes with the standard library's \<open>read_exact\<close> over the volume's own \<open>Read\<close> and \<open>Seek\<close>
  implementations returns those bytes of the plaintext when they lie inside the volume and an I/O
  error when they do not; it always returns, and the content of the volume does not change.
\<close>

theorem seek_read_exact_volume:
  assumes "image_reader ops ok img pos patience" and "volume_ok P ok dv" and "0 < n" and "n < 2 ^ 64"
  shows "\<exists>dv'. volume_bytes P img dv' = volume_bytes P img dv \<and>
    (if unat off + n \<le> length (volume_bytes P img dv)
     then andThen (from_io (seek_start (dv_ops P ops) off)) (\<lambda>_. from_io (read_exact (dv_ops P ops) n)) dv =
            Some (dv', Ok (window (unat off) n (volume_bytes P img dv)))
     else \<exists>e. andThen (from_io (seek_start (dv_ops P ops) off)) (\<lambda>_. from_io (read_exact (dv_ops P ops) n)) dv =
            Some (dv', Err (Io e)))"
  using image_reader.seek_read_exact [OF image_reader.volume_image_reader [OF assms(1)] assms(2-4), of off]
  by blast

theorem seek_read_exact_volume_witness:
  "\<exists>dv'. andThen (from_io (seek_start (dv_ops demo_prims cursor_ops) 10))
      (\<lambda>_. from_io (read_exact (dv_ops demo_prims cursor_ops) 3)) sample_volume = Some (dv', Ok [7, 7, 7])"
  using seek_read_exact_volume [OF cur.image_reader_axioms sample_volume_ok, of 3 10]
  by (simp add: sample_volume_bytes numeral_3_eq_3) blast

lemma sint_range_64: "- (2 ^ 63) \<le> sint (x :: i64)" "sint (x :: i64) < 2 ^ 63"
  using sint_greater_eq [of x] sint_lt [of x] by simp_all

lemma add_signed_exact:
  "add_signed base off =
    (if 0 \<le> uint base + sint off \<and> uint base + sint off < 2 ^ 64
     then Ok (of_int (uint base + sint off)) else Err (InvalidInput ''seek out of range''))"
proof (cases "0 \<le> sint off")
  case True
  then have "uint off = sint off"
    using sint_range_64 [of off] by (simp add: uint_sint take_bit_int_eq_self)
  then have fit: "unat base + unat off < 2 ^ 64 \<longleftrightarrow> uint base + sint off < 2 ^ 64"
  proof -
    have "int (unat base) = uint base" and "int (unat off) = sint off"
      using \<open>uint off = sint off\<close> by simp_all
    then show ?thesis
      by (intro iffI; simp; linarith)
  qed
  have "of_int (uint base + sint off) = base + off"
    unfolding of_int_add by simp
  with True fit show ?thesis
    by (simp add: add_signed_def checked_add_def del: of_int_add)
next
  case False
  let ?d = "of_int \<bar>sint off\<bar> :: u64"
  have "uint ?d = - sint off"
    unfolding uint_word_of_int_eq using False sint_range_64 [of off] by (simp add: take_bit_int_eq_self)
  then have le: "?d \<le> base \<longleftrightarrow> 0 \<le> uint base + sint off"
    by (simp add: word_le_def, linarith)
  have "of_int (uint base + sint off) = base - ?d"
    using False by simp
  moreover have "uint base + sint off < 2 ^ 64"
    using False uint_bounded [of base] by simp
  ultimately show ?thesis
    using False le by (simp add: add_signed_def checked_sub_def del: of_int_add)
qed

text \<open>
  C37 Seeking is exact in all three modes: the new position is the offset itself, or the end or the
  current position plus the signed offset as integers, whenever that is a 64-bit unsigned number,
  and the volume is otherwise unchanged; an offset that leads below zero or above the range is the
  error \<open>InvalidInput\<close> and leaves the position where it was.
\<close>

theorem seek_exact:
  "DecryptedVolume_seek dv p =
    (let target = (case p of
        Start n \<Rightarrow> uint n
      | End n \<Rightarrow> uint (dv_size dv) + sint n
      | Current n \<Rightarrow> uint (dv_position dv) + sint n)
     in if 0 \<le> target \<and> target < 2 ^ 64
        then (dv\<lparr>dv_position := of_int target\<rparr>, Ok (of_int target))
        else (dv, Err (InvalidInput ''seek out of range'')))"
proof (cases p)
  case (Start n)
  then show ?thesis
    using uint_bounded [of n] by (simp add: DecryptedVolume_seek_def)
qed (simp_all add: DecryptedVolume_seek_def add_signed_exact Let_def)

text \<open>A first sector beyond the 64-bit range from the physical base on overflows, with no read at all.\<close>

lemma read_at_overflows:
  assumes "off < dv_size dv" and "0 < n" and "n < 2 ^ 64" and "min n (unat (dv_size dv) - unat off) + 1024 \<le> 2 ^ 63"
    and "2 ^ 64 \<le> unat (dv_physical_base dv) + unat off div 512 * 512"
  shows "DecryptedVolume_read_at P ops off n dv = Some (dv, Panic)"
proof -
  have "read_plan (dv_physical_base dv) (dv_size dv) off n = Panic"
    using read_plan_eq [OF assms(1-3) refl assms(4), of "dv_physical_base dv"] assms(5) by simp
  then show ?thesis
    using assms(1,2) by (simp add: DecryptedVolume_read_at_def return_def)
qed

end
