(* ===== verification/Read_LE.thy ===== *)
theory Read_LE
  imports Prelude
begin

text \<open>
  The bounds-checked readers of \<open>core/src/read.rs\<close>. All five share one contract, the locale
  \<open>field_reader\<close>: the decoded window when it lies inside the data, zero when it does not, and a
  panic exactly when the end of the window is not a \<open>usize\<close>.
\<close>

definition le_u16 :: "bytes \<Rightarrow> nat \<Rightarrow> ('e, u16) comp" where
  "le_u16 data off =
    chain (usize_add off 2) (\<lambda>stop.
      case slice_get data off stop of
        Some s \<Rightarrow> Ok (from_le_bytes s)
      | None \<Rightarrow> Ok 0)"

definition le_u32 :: "bytes \<Rightarrow> nat \<Rightarrow> ('e, u32) comp" where
  "le_u32 data off =
    chain (usize_add off 4) (\<lambda>stop.
      case slice_get data off stop of
        Some s \<Rightarrow> Ok (from_le_bytes s)
      | None \<Rightarrow> Ok 0)"

definition le_u64 :: "bytes \<Rightarrow> nat \<Rightarrow> ('e, u64) comp" where
  "le_u64 data off =
    chain (usize_add off 8) (\<lambda>stop.
      case slice_get data off stop of
        Some s \<Rightarrow> Ok (from_le_bytes s)
      | None \<Rightarrow> Ok 0)"

definition le_u48 :: "bytes \<Rightarrow> nat \<Rightarrow> ('e, u64) comp" where
  "le_u48 data off =
    chain (usize_add off 6) (\<lambda>stop.
      case slice_get data off stop of
        Some s \<Rightarrow>
          Ok (ucast (s ! 0) OR push_bit 8 (ucast (s ! 1)) OR push_bit 16 (ucast (s ! 2))
              OR push_bit 24 (ucast (s ! 3)) OR push_bit 32 (ucast (s ! 4))
              OR push_bit 40 (ucast (s ! 5)))
      | None \<Rightarrow> Ok 0)"

definition bytes16 :: "bytes \<Rightarrow> nat \<Rightarrow> ('e, bytes) comp" where
  "bytes16 data off =
    chain (usize_add off 16) (\<lambda>stop.
      case slice_get data off stop of
        Some s \<Rightarrow> Ok s
      | None \<Rightarrow> Ok (replicate 16 0))"

section \<open>The contract\<close>

definition field_at :: "nat \<Rightarrow> (bytes \<Rightarrow> 'v) \<Rightarrow> 'v \<Rightarrow> bytes \<Rightarrow> nat \<Rightarrow> 'v" where
  "field_at width dec zero data off =
    (if off + width \<le> length data then dec (window off width data) else zero)"

lemma field_copied_inside:
  assumes "off + length bs \<le> length data" and "off \<le> o'" and "o' + width \<le> off + length bs"
  shows "field_at width dec zero (copy_at off bs data) o' = dec (window (o' - off) width bs)"
  using assms by (simp add: field_at_def window_copy_at_inside)

lemma field_copied_elsewhere:
  assumes "off + length bs \<le> length data" and "o' + width \<le> off \<or> off + length bs \<le> o'"
  shows "field_at width dec zero (copy_at off bs data) o' = field_at width dec zero data o'"
  using assms by (auto simp: field_at_def window_copy_at_other)

lemma field_take:
  "off + width \<le> n \<Longrightarrow> field_at width dec zero (take n data) off = field_at width dec zero data off"
  by (auto simp: field_at_def drop_take min_def)

lemma field_zeros: "field_at w from_le_bytes 0 (replicate n 0) off = (0 :: 'w::len word)"
proof -
  have "from_le_bytes (replicate k 0) = (0 :: 'w word)" for k
    by (induction k) simp_all
  then show ?thesis
    by (simp add: field_at_def)
qed

lemmas field_copied = field_copied_inside field_copied_elsewhere

locale field_reader =
  fixes width :: nat
    and dec :: "bytes \<Rightarrow> 'v"
    and zero :: 'v
    and rd :: "bytes \<Rightarrow> nat \<Rightarrow> ('e, 'v) comp"
  assumes rd_law: "rd data off =
    (if off + width < 2 ^ 64 then Ok (field_at width dec zero data off) else Panic)"
begin

lemma rd_Ok [reader_simps]: "off + width < 2 ^ 64 \<Longrightarrow> rd data off = Ok (field_at width dec zero data off)"
  by (simp add: rd_law)

lemma rd_no_Err [simp]: "rd data off \<noteq> Err e"
  by (simp add: rd_law)

lemma rd_panics_iff: "rd data off = Panic \<longleftrightarrow> 2 ^ 64 \<le> off + width"
  by (auto simp: rd_law)

lemma rd_eq_Ok [comp_iff]:
  "rd data off = Ok v \<longleftrightarrow> off + width < 2 ^ 64 \<and> v = field_at width dec zero data off"
  by (auto simp: rd_law)

lemma rd_out_of_range:
  "\<lbrakk>length data < off + width; off + width < 2 ^ 64\<rbrakk> \<Longrightarrow> rd data off = Ok zero"
  by (simp add: rd_law field_at_def)

text \<open>Reading back what was copied in.\<close>

lemma rd_copied:
  assumes "off + width \<le> length data" and "length bs = width" and "length data < 2 ^ 64"
  shows "rd (copy_at off bs data) off = Ok (dec bs)"
  using assms by (simp add: rd_law field_copied_inside)

text \<open>Only the bytes before the end of the window matter.\<close>

lemma rd_take:
  "\<lbrakk>off + width \<le> n; n < 2 ^ 64\<rbrakk> \<Longrightarrow> rd (take n data) off = rd data off"
  by (simp add: rd_law field_take)

end

lemma map_nth_window: "length s = n \<Longrightarrow> map ((!) s) [0..<n] = s"
  by (auto simp: map_nth)

lemma from_le_bytes_six:
  assumes "length s = 6"
  shows "(ucast (s ! 0) OR push_bit 8 (ucast (s ! 1)) OR push_bit 16 (ucast (s ! 2))
      OR push_bit 24 (ucast (s ! 3)) OR push_bit 32 (ucast (s ! 4))
      OR push_bit 40 (ucast (s ! 5)) :: u64) = from_le_bytes s"
proof -
  have "s = [s ! 0, s ! 1, s ! 2, s ! 3, s ! 4, s ! 5]"
    using map_nth_window [OF assms] by (simp add: upt_rec numeral_eq_Suc)
  then have "from_le_bytes s = (from_le_bytes [s ! 0, s ! 1, s ! 2, s ! 3, s ! 4, s ! 5] :: u64)"
    by simp
  then show ?thesis
    by (simp add: push_bit_or or.assoc)
qed

interpretation r16: field_reader 2 from_le_bytes 0 le_u16
  by unfold_locales (auto simp: le_u16_def field_at_def slice_get_def usize_add_def)

interpretation r32: field_reader 4 from_le_bytes 0 le_u32
  by unfold_locales (auto simp: le_u32_def field_at_def slice_get_def usize_add_def)

interpretation r64: field_reader 8 from_le_bytes 0 le_u64
  by unfold_locales (auto simp: le_u64_def field_at_def slice_get_def usize_add_def)

interpretation r48: field_reader 6 from_le_bytes 0 le_u48
proof unfold_locales
  fix data :: bytes and off :: nat
  show "le_u48 data off =
      (if off + 6 < 2 ^ 64 then Ok (field_at 6 from_le_bytes 0 data off) else Panic)"
    using from_le_bytes_six [of "window off 6 data"]
    by (auto simp: le_u48_def field_at_def slice_get_def usize_add_def)
qed

interpretation b16: field_reader 16 "\<lambda>s. s" "replicate 16 0" bytes16
  by unfold_locales (auto simp: bytes16_def field_at_def slice_get_def usize_add_def)

section \<open>48-bit block numbers\<close>

text \<open>Cutting a little-endian integer off after some bytes is masking it.\<close>

lemma from_le_bytes_take:
  "(from_le_bytes (take n bs) :: 'w::len word) = from_le_bytes bs AND mask (8 * n)"
  by (rule bit_word_eqI) (auto simp: bit_and_iff bit_mask_iff bit_from_le_bytes)

lemma mask48: "(0x0000ffffffffffff :: u64) = mask 48"
  by (simp add: mask_eq_exp_minus_1)

section \<open>Properties\<close>

text \<open>
  An unsigned integer copied into an image in its little-endian form is read back unchanged by
  the reader of its width, at any offset where it fits.
\<close>

theorem le_readers_roundtrip:
  assumes "off + 8 \<le> length data" and "length data < 2 ^ 63"
  shows "le_u16 (copy_at off (to_le_bytes 2 w16) data) off = Ok w16 \<and>
    le_u32 (copy_at off (to_le_bytes 4 w32) data) off = Ok w32 \<and>
    le_u64 (copy_at off (to_le_bytes 8 w64) data) off = Ok w64"
  using assms by (simp add: r16.rd_copied r32.rd_copied r64.rd_copied from_le_to_le)

theorem le_readers_roundtrip_witness:
  "le_u16 (copy_at 1 (to_le_bytes 2 (0xBEEF :: u16)) (replicate 9 0)) 1 = Ok 0xBEEF \<and>
   le_u32 (copy_at 1 (to_le_bytes 4 (0xDEADBEEF :: u32)) (replicate 9 0)) 1 = Ok 0xDEADBEEF \<and>
   le_u64 (copy_at 1 (to_le_bytes 8 (0x0123456789ABCDEF :: u64)) (replicate 9 0)) 1 =
     Ok 0x0123456789ABCDEF"
  by (rule le_readers_roundtrip) simp_all

text \<open>
  The 48-bit reader returns the 64-bit little-endian integer at the same offset with its top
  sixteen bits cleared, wherever eight bytes are present: it agrees with the mask
  \<open>BLOCK_NUMBER_MASK\<close> by which the metadata parser drops the physical-volume index.
\<close>

theorem le_u48_is_masked_u64:
  assumes "off + 8 \<le> length data" and "length data < 2 ^ 63"
  shows "le_u48 data off = chain (le_u64 data off) (\<lambda>v. Ok (v AND 0x0000ffffffffffff))"
proof -
  have "from_le_bytes (window off 6 data) = (from_le_bytes (window off 8 data) AND mask 48 :: u64)"
    using from_le_bytes_take [of 6 "window off 8 data", where 'w = 64] by simp
  then show ?thesis
    using assms by (simp add: reader_simps field_at_def mask48)
qed

theorem le_u48_is_masked_u64_witness:
  "le_u48 [1, 2, 3, 4, 5, 6, 7, 8] 0 =
     chain (le_u64 [1, 2, 3, 4, 5, 6, 7, 8] 0) (\<lambda>v. Ok (v AND 0x0000ffffffffffff))"
  by (rule le_u48_is_masked_u64) simp_all

end
