(* ===== verification/Volume_Header.thy ===== *)
theory Volume_Header
  imports Errors Read_LE
begin

text \<open>
  The 512-byte physical volume header (\<open>core/src/volume_header.rs\<close>): its fields as a record and the
  parser. \<open>encode_header\<close> writes the layout table of the format reference, and the parser inverts it
  whatever the remaining bytes of the header are.
\<close>

definition CS_SIGNATURE_LE :: u16 where
  [const_defs]: "CS_SIGNATURE_LE = 0x5343"

definition ENCRYPTION_METHOD_AES_XTS_128 :: u32 where
  [const_defs]: "ENCRYPTION_METHOD_AES_XTS_128 = 2"

definition METADATA_BLOCK_SLOTS :: nat where
  [const_defs]: "METADATA_BLOCK_SLOTS = 4"

record VolumeHeader =
  vh_block_size :: u32
  vh_bytes_per_sector :: u32
  vh_physical_volume_size :: u64
  vh_metadata_block_numbers :: "u64 list"
  vh_key_data :: bytes
  vh_physical_volume_identifier :: bytes

definition parse :: "bytes \<Rightarrow> VolumeHeader fv" where
  "parse data =
    chain (le_u16 data 88) (\<lambda>signature.
      if signature \<noteq> CS_SIGNATURE_LE then Err (NotCoreStorage signature)
      else
        chain (le_u32 data 172) (\<lambda>encryption_method.
          if encryption_method \<noteq> ENCRYPTION_METHOD_AES_XTS_128
          then Err (UnsupportedEncryptionMethod encryption_method)
          else
            chain (traverse
                (\<lambda>i. chain (usize_mul i 8) (\<lambda>rel. chain (usize_add 104 rel) (le_u64 data)))
                [0..<METADATA_BLOCK_SLOTS]) (\<lambda>metadata_block_numbers.
            chain (le_u32 data 96) (\<lambda>block_size.
            chain (le_u32 data 48) (\<lambda>bytes_per_sector.
            chain (le_u64 data 64) (\<lambda>physical_volume_size.
            chain (bytes16 data 176) (\<lambda>key_data.
            chain (bytes16 data 304) (\<lambda>physical_volume_identifier.
              Ok \<lparr>vh_block_size = block_size,
                  vh_bytes_per_sector = bytes_per_sector,
                  vh_physical_volume_size = physical_volume_size,
                  vh_metadata_block_numbers = metadata_block_numbers,
                  vh_key_data = key_data,
                  vh_physical_volume_identifier = physical_volume_identifier\<rparr>))))))))"

section \<open>Behaviour\<close>

definition wf_header :: "VolumeHeader \<Rightarrow> bool" where
  "wf_header h \<longleftrightarrow> length (vh_metadata_block_numbers h) = 4 \<and> length (vh_key_data h) = 16 \<and>
    length (vh_physical_volume_identifier h) = 16"

abbreviation signature_of :: "bytes \<Rightarrow> u16" where
  "signature_of data \<equiv> field_at 2 from_le_bytes 0 data 88"

abbreviation method_of :: "bytes \<Rightarrow> u32" where
  "method_of data \<equiv> field_at 4 from_le_bytes 0 data 172"

definition header_fields :: "bytes \<Rightarrow> VolumeHeader" where
  "header_fields data =
    \<lparr>vh_block_size = field_at 4 from_le_bytes 0 data 96,
     vh_bytes_per_sector = field_at 4 from_le_bytes 0 data 48,
     vh_physical_volume_size = field_at 8 from_le_bytes 0 data 64,
     vh_metadata_block_numbers = map (\<lambda>i. field_at 8 from_le_bytes 0 data (104 + i * 8)) [0..<4],
     vh_key_data = field_at 16 (\<lambda>s. s) (replicate 16 0) data 176,
     vh_physical_volume_identifier = field_at 16 (\<lambda>s. s) (replicate 16 0) data 304\<rparr>"

text \<open>The signature, byte by byte and as a word.\<close>

lemma signature_le: "to_le_bytes 2 CS_SIGNATURE_LE = [0x43, 0x53]"
  by code_simp

lemma signature_bytes:
  "copy_at 89 (str ''S'') (copy_at 88 (str ''C'') xs) = copy_at 88 (to_le_bytes 2 CS_SIGNATURE_LE) xs"
  if "90 \<le> length xs"
  using copy_at_copy_at [of 88 "str ''C''" "str ''S''" xs] that
  by (simp add: signature_le str_def)

text \<open>The parser as one equation: none of its reads overflows, so it never panics.\<close>

lemma parse_eq:
  "parse data =
    (if signature_of data \<noteq> CS_SIGNATURE_LE then Err (NotCoreStorage (signature_of data))
     else if method_of data \<noteq> ENCRYPTION_METHOD_AES_XTS_128
       then Err (UnsupportedEncryptionMethod (method_of data))
     else Ok (header_fields data))"
proof -
  have slots: "traverse (\<lambda>i. chain (usize_mul i 8) (\<lambda>rel. chain (usize_add 104 rel) (le_u64 data)))
      [0..<METADATA_BLOCK_SLOTS] =
      Ok (map (\<lambda>i. field_at 8 from_le_bytes 0 data (104 + i * 8)) [0..<4])"
    by (auto simp: const_defs reader_simps intro!: traverse_Ok)
  show ?thesis
    by (simp add: parse_def slots reader_simps header_fields_def)
qed

lemma wf_header_fields: "wf_header (header_fields data)"
  by (simp add: wf_header_def header_fields_def field_at_def)

lemma parse_wf: "parse data = Ok h \<Longrightarrow> wf_header h"
  by (auto simp: parse_eq wf_header_fields split: if_splits)

section \<open>The layout of the header\<close>

definition encode_header :: "VolumeHeader \<Rightarrow> bytes \<Rightarrow> bytes" where
  "encode_header h rest =
    copy_at 304 (vh_physical_volume_identifier h)
    (copy_at 176 (vh_key_data h)
    (copy_at 172 (to_le_bytes 4 ENCRYPTION_METHOD_AES_XTS_128)
    (copy_at 104 (concat (map (to_le_bytes 8) (vh_metadata_block_numbers h)))
    (copy_at 96 (to_le_bytes 4 (vh_block_size h))
    (copy_at 88 (to_le_bytes 2 CS_SIGNATURE_LE)
    (copy_at 64 (to_le_bytes 8 (vh_physical_volume_size h))
    (copy_at 48 (to_le_bytes 4 (vh_bytes_per_sector h)) rest)))))))"

lemma header_fields_encode:
  assumes "wf_header h" and "length rest = 512"
  shows "header_fields (encode_header h rest) = h"
proof -
  have slots: "length (concat (map (to_le_bytes 8) (vh_metadata_block_numbers h))) = 32"
    using assms(1) by (subst length_concat_map [where w = 8]) (auto simp: wf_header_def)
  have slot: "field_at 8 from_le_bytes 0 (encode_header h rest) (104 + i * 8) =
      vh_metadata_block_numbers h ! i" if "i < 4" for i
    using assms that
    by (simp add: encode_header_def field_copied slots wf_header_def
        window_concat_map from_le_to_le)
  have numbers: "map (\<lambda>i. field_at 8 from_le_bytes 0 (encode_header h rest) (104 + i * 8)) [0..<4] =
      vh_metadata_block_numbers h"
    using assms(1) by (intro nth_equalityI) (auto simp: slot wf_header_def)
  have "field_at 4 from_le_bytes 0 (encode_header h rest) 96 = vh_block_size h"
    and "field_at 4 from_le_bytes 0 (encode_header h rest) 48 = vh_bytes_per_sector h"
    and "field_at 8 from_le_bytes 0 (encode_header h rest) 64 = vh_physical_volume_size h"
    and "field_at 16 (\<lambda>s. s) (replicate 16 0) (encode_header h rest) 176 = vh_key_data h"
    and "field_at 16 (\<lambda>s. s) (replicate 16 0) (encode_header h rest) 304 =
      vh_physical_volume_identifier h"
    using assms slots
    by (simp_all add: encode_header_def field_copied wf_header_def from_le_to_le)
  then show ?thesis
    by (simp add: header_fields_def numbers)
qed

lemma length_encode_header:
  assumes "wf_header h" and "length rest = 512"
  shows "length (encode_header h rest) = 512"
proof -
  have "length (concat (map (to_le_bytes 8) (vh_metadata_block_numbers h))) = 32"
    using assms(1) by (subst length_concat_map [where w = 8]) (auto simp: wf_header_def)
  then show ?thesis
    using assms by (simp add: encode_header_def wf_header_def)
qed

lemma parse_encode:
  assumes "wf_header h" and "length rest = 512"
  shows "parse (encode_header h rest) = Ok h"
proof -
  have "length (concat (map (to_le_bytes 8) (vh_metadata_block_numbers h))) = 32"
    using assms(1) by (subst length_concat_map [where w = 8]) (auto simp: wf_header_def)
  then have "signature_of (encode_header h rest) = CS_SIGNATURE_LE"
    and "method_of (encode_header h rest) = ENCRYPTION_METHOD_AES_XTS_128"
    using assms by (simp_all add: encode_header_def field_copied wf_header_def from_le_to_le)
  then show ?thesis
    using assms by (simp add: parse_eq header_fields_encode)
qed

section \<open>Properties\<close>

text \<open>
  C25 Parsing inverts the header layout: a 512-byte block that carries the \<open>CS\<close> signature, the
  AES-XTS-128 method code and the fields of a well-formed header at their offsets, whatever its
  other bytes, parses to exactly that header.
\<close>

theorem parse_encode_header:
  assumes "wf_header h" and "length rest = 512"
  shows "parse (encode_header h rest) = Ok h"
  by (rule parse_encode [OF assms])

definition sample_header :: VolumeHeader where
  "sample_header =
    \<lparr>vh_block_size = 4096, vh_bytes_per_sector = 512, vh_physical_volume_size = 536829952,
     vh_metadata_block_numbers = [1, 1025, 129013, 130037],
     vh_key_data = replicate 16 0x18, vh_physical_volume_identifier = replicate 16 0x32\<rparr>"

theorem parse_encode_header_witness:
  "parse (encode_header sample_header (replicate 512 0xFF)) = Ok sample_header"
  by (rule parse_encode_header) (simp_all add: wf_header_def sample_header_def)

text \<open>
  C26 The parser is total and fails loudly: it never panics on any input; it accepts exactly the
  inputs whose signature is \<open>CS\<close> and whose method is AES-XTS-128; a wrong signature is reported
  with the two bytes found, before the method is looked at, and an unsupported method with the
  code found; every accepted header is well formed.
\<close>

theorem parse_total:
  "parse data \<noteq> Panic \<and>
   ((\<exists>h. parse data = Ok h) \<longleftrightarrow> le_u16 data 88 = (Ok 0x5343 :: u16 fv) \<and> le_u32 data 172 = (Ok 2 :: u32 fv)) \<and>
   (parse data = Err (NotCoreStorage sg) \<longleftrightarrow> le_u16 data 88 = (Ok sg :: u16 fv) \<and> sg \<noteq> 0x5343) \<and>
   (parse data = Err (UnsupportedEncryptionMethod m) \<longleftrightarrow>
      le_u16 data 88 = (Ok 0x5343 :: u16 fv) \<and> le_u32 data 172 = (Ok m :: u32 fv) \<and> m \<noteq> 2) \<and>
   (case parse data of Ok h \<Rightarrow> wf_header h | _ \<Rightarrow> True)"
  by (auto simp: parse_eq reader_simps const_defs wf_header_fields)

text \<open>
  An input too short to hold the signature is not a CoreStorage volume, and the bytes reported
  as found are zero; nothing after the first 320 bytes of an input changes the result.
\<close>

theorem parse_prefix:
  "(length data < 90 \<longrightarrow> parse data = Err (NotCoreStorage 0)) \<and> parse (take 320 data) = parse data"
proof -
  have "header_fields (take 320 data) = header_fields data"
    by (auto simp: header_fields_def field_take)
  then show ?thesis
    by (auto simp: parse_eq field_take) (auto simp: field_at_def const_defs)
qed

theorem parse_prefix_witness:
  "parse [1, 2, 3] = Err (NotCoreStorage 0) \<and> parse (take 320 [1, 2, 3]) = parse [1, 2, 3]"
  using parse_prefix [of "[1, 2, 3]"] by simp

end
