(* ===== verification/Metadata.thy ===== *)
theory Metadata
  imports Volume_Header Xts
begin

text \<open>
  Locating, decrypting and walking the CoreStorage metadata (\<open>core/src/metadata.rs\<close>): the plaintext
  pointer block, the location of the encrypted region, its decryption, the search for a block of a
  given type and the segment descriptor that maps logical to physical blocks.
\<close>

section \<open>Constants\<close>

definition BLOCK_TYPE_ENCRYPTED_METADATA_POINTER :: u16 where
  [const_defs]: "BLOCK_TYPE_ENCRYPTED_METADATA_POINTER = 0x0011"

definition METADATA_UNIT_SIZE :: nat where
  [const_defs]: "METADATA_UNIT_SIZE = 8192"

definition BLOCK_HEADER_SIZE :: nat where
  [const_defs]: "BLOCK_HEADER_SIZE = 64"

definition BLOCK_HEADER_TYPE_OFFSET :: nat where
  [const_defs]: "BLOCK_HEADER_TYPE_OFFSET = 10"

definition PAYLOAD_METADATA_SIZE_OFFSET :: nat where
  [const_defs]: "PAYLOAD_METADATA_SIZE_OFFSET = 0"

definition PAYLOAD_VG_DESCRIPTOR_OFFSET :: nat where
  [const_defs]: "PAYLOAD_VG_DESCRIPTOR_OFFSET = 156"

definition VG_COUNT_OFFSET :: nat where
  [const_defs]: "VG_COUNT_OFFSET = 8"

definition VG_PRIMARY_BLOCK_OFFSET :: nat where
  [const_defs]: "VG_PRIMARY_BLOCK_OFFSET = 32"

definition BLOCK_NUMBER_MASK :: u64 where
  [const_defs]: "BLOCK_NUMBER_MASK = 0x0000ffffffffffff"

definition MAX_METADATA_BLOCKS :: u64 where
  [const_defs]: "MAX_METADATA_BLOCKS = push_bit 20 1"

definition MAX_ENCRYPTED_METADATA_BLOCKS :: u64 where
  [const_defs]: "MAX_ENCRYPTED_METADATA_BLOCKS = push_bit 20 1"

definition BLOCK_TYPE_SEGMENT_DESCRIPTOR :: u16 where
  [const_defs]: "BLOCK_TYPE_SEGMENT_DESCRIPTOR = 0x0305"

definition SEG_FIRST_ENTRY_PAYLOAD_OFFSET :: nat where
  [const_defs]: "SEG_FIRST_ENTRY_PAYLOAD_OFFSET = 8"

definition SEG_ENTRY_STRIDE :: nat where
  [const_defs]: "SEG_ENTRY_STRIDE = 40"

definition SEG_LOGICAL_BLOCK_OFFSET :: nat where
  [const_defs]: "SEG_LOGICAL_BLOCK_OFFSET = 8"

definition SEG_NUM_BLOCKS_OFFSET :: nat where
  [const_defs]: "SEG_NUM_BLOCKS_OFFSET = 16"

definition SEG_PHYSICAL_BLOCK_OFFSET :: nat where
  [const_defs]: "SEG_PHYSICAL_BLOCK_OFFSET = 32"

definition MAX_SEGMENTS :: u32 where
  [const_defs]: "MAX_SEGMENTS = push_bit 16 1"

section \<open>The plaintext metadata region\<close>

record EncryptedMetadataLocation =
  em_primary_offset :: u64
  em_block_count :: u64
  em_length :: u64

definition plaintext_metadata_region :: "VolumeHeader \<Rightarrow> u64 \<times> u64" where
  "plaintext_metadata_region header =
    (let block = (case vh_metadata_block_numbers header of [] \<Rightarrow> 0 | b # _ \<Rightarrow> b);
         offset = saturating_mul block (ucast (vh_block_size header))
     in (offset, 0))"

definition plaintext_metadata_size :: "VolumeHeader \<Rightarrow> bytes \<Rightarrow> u64 fv" where
  "plaintext_metadata_size header first_block =
    chain (le_u16 first_block BLOCK_HEADER_TYPE_OFFSET) (\<lambda>block_type.
      if block_type \<noteq> BLOCK_TYPE_ENCRYPTED_METADATA_POINTER
      then Err (MetadataStructureMissing ''0x0011 encrypted-metadata pointer block'')
      else
        chain (le_u32 first_block (BLOCK_HEADER_SIZE + PAYLOAD_METADATA_SIZE_OFFSET)) (\<lambda>raw.
          let size = ucast raw :: u64;
              block_size = ucast (vh_block_size header) :: u64
          in if block_size = 0 then Err (OutOfRange ''block size is zero'')
             else if size = 0 \<or> size div block_size > MAX_METADATA_BLOCKS
             then Err (OutOfRange ''plaintext metadata region size'')
             else Ok size))"

definition locate_encrypted_metadata ::
  "VolumeHeader \<Rightarrow> bytes \<Rightarrow> EncryptedMetadataLocation fv" where
  "locate_encrypted_metadata header region =
    chain (le_u16 region BLOCK_HEADER_TYPE_OFFSET) (\<lambda>block_type.
      if block_type \<noteq> BLOCK_TYPE_ENCRYPTED_METADATA_POINTER
      then Err (MetadataStructureMissing ''0x0011 encrypted-metadata pointer block'')
      else
        chain (le_u32 region (BLOCK_HEADER_SIZE + PAYLOAD_VG_DESCRIPTOR_OFFSET)) (\<lambda>raw.
          let descriptor_offset = unat raw in
          if (case checked_add_usize descriptor_offset (VG_PRIMARY_BLOCK_OFFSET + 8) of
                None \<Rightarrow> True
              | Some stop \<Rightarrow> stop > length region)
          then Err (MetadataStructureMissing ''volume-groups descriptor (offset out of region)'')
          else
            chain (chain (usize_add descriptor_offset VG_COUNT_OFFSET) (le_u64 region)) (\<lambda>block_count.
            chain (chain (usize_add descriptor_offset VG_PRIMARY_BLOCK_OFFSET) (le_u64 region)) (\<lambda>primary_field.
              let primary_block = primary_field AND BLOCK_NUMBER_MASK in
              if block_count = 0 \<or> block_count > MAX_ENCRYPTED_METADATA_BLOCKS
              then Err (OutOfRange ''encrypted-metadata block count'')
              else
                let block_size = ucast (vh_block_size header) :: u64 in
                chain (ok_or (checked_mul primary_block block_size)
                    (OutOfRange ''encrypted-metadata primary offset'')) (\<lambda>primary_offset.
                chain (ok_or (checked_mul block_count block_size)
                    (OutOfRange ''encrypted-metadata length'')) (\<lambda>region_length.
                  Ok \<lparr>em_primary_offset = primary_offset,
                      em_block_count = block_count,
                      em_length = region_length\<rparr>))))))"

definition decrypt_metadata :: "prims \<Rightarrow> VolumeHeader \<Rightarrow> bytes \<Rightarrow> bytes fv" where
  "decrypt_metadata P header ciphertext =
    decrypt_units P ciphertext (vh_key_data header) (vh_physical_volume_identifier header)
      METADATA_UNIT_SIZE 0"

section \<open>Segments\<close>

record SegmentEntry =
  seg_logical_block :: u64
  seg_physical_block :: u64
  seg_number_of_blocks :: u32

text \<open>The loop of \<open>find_block_of_type\<close>; the caller has excluded a block size of zero.\<close>

function find_block_loop :: "bytes \<Rightarrow> nat \<Rightarrow> u16 \<Rightarrow> nat \<Rightarrow> ('e, nat option) comp" where
  "find_block_loop metadata block_size block_type offset =
    chain (usize_add offset block_size) (\<lambda>stop.
      if block_size \<noteq> 0 \<and> stop \<le> length metadata then
        chain (chain (usize_add offset BLOCK_HEADER_TYPE_OFFSET) (le_u16 metadata)) (\<lambda>t.
          if t = block_type then Ok (Some offset)
          else find_block_loop metadata block_size block_type stop)
      else Ok None)"
  by pat_completeness auto
termination
  by (relation "measure (\<lambda>(metadata, block_size, block_type, offset). length metadata - offset)")
    (auto simp: comp_iff)

declare find_block_loop.simps [simp del]

definition find_block_of_type :: "bytes \<Rightarrow> nat \<Rightarrow> u16 \<Rightarrow> ('e, nat option) comp" where
  "find_block_of_type metadata block_size block_type =
    (if block_size = 0 then Ok None else find_block_loop metadata block_size block_type 0)"

text \<open>The loop of \<open>parse_segments\<close> over the entry indices still to read.\<close>

fun segment_loop :: "bytes \<Rightarrow> nat \<Rightarrow> nat \<Rightarrow> nat \<Rightarrow> nat list \<Rightarrow> ('e, SegmentEntry list) comp" where
  "segment_loop metadata block_size block_offset payload [] = Ok []"
| "segment_loop metadata block_size block_offset payload (i # is) =
    chain (usize_add payload SEG_FIRST_ENTRY_PAYLOAD_OFFSET) (\<lambda>first.
    chain (usize_mul i SEG_ENTRY_STRIDE) (\<lambda>rel.
    chain (usize_add first rel) (\<lambda>entry.
    chain (usize_add entry SEG_ENTRY_STRIDE) (\<lambda>entry_end.
    chain (usize_add block_offset block_size) (\<lambda>block_end.
      if entry_end > block_end then Ok []
      else
        chain (chain (usize_add entry SEG_PHYSICAL_BLOCK_OFFSET) (le_u64 metadata)) (\<lambda>physical.
        chain (chain (usize_add entry SEG_LOGICAL_BLOCK_OFFSET) (le_u64 metadata)) (\<lambda>logical.
        chain (chain (usize_add entry SEG_NUM_BLOCKS_OFFSET) (le_u32 metadata)) (\<lambda>number.
        chain (segment_loop metadata block_size block_offset payload is) (\<lambda>out.
          Ok (\<lparr>seg_logical_block = logical,
               seg_physical_block = physical AND BLOCK_NUMBER_MASK,
               seg_number_of_blocks = number\<rparr> # out))))))))))"

definition parse_segments :: "bytes \<Rightarrow> nat \<Rightarrow> ('e, SegmentEntry list) comp" where
  "parse_segments metadata block_size =
    chain (find_block_of_type metadata block_size BLOCK_TYPE_SEGMENT_DESCRIPTOR) (\<lambda>found.
      case found of
        None \<Rightarrow> Ok []
      | Some block_offset \<Rightarrow>
          chain (usize_add block_offset BLOCK_HEADER_SIZE) (\<lambda>payload.
          chain (le_u32 metadata payload) (\<lambda>raw.
            let count = min raw MAX_SEGMENTS in
            segment_loop metadata block_size block_offset payload [0..<unat count])))"

section \<open>Block search\<close>

text \<open>
  The reference search: the first block-aligned offset, among the blocks that lie wholly inside
  the metadata, whose type field matches.
\<close>

definition type_at :: "bytes \<Rightarrow> nat \<Rightarrow> u16" where
  "type_at metadata offset = field_at 2 from_le_bytes 0 metadata (offset + 10)"

definition block_offsets :: "bytes \<Rightarrow> nat \<Rightarrow> nat list" where
  "block_offsets metadata block_size = map (\<lambda>k. k * block_size) [0..<length metadata div block_size]"

definition first_typed :: "bytes \<Rightarrow> nat \<Rightarrow> u16 \<Rightarrow> nat option" where
  "first_typed metadata block_size t = find (\<lambda>o'. type_at metadata o' = t) (block_offsets metadata block_size)"

lemma upt_map_shift: "map f [0..<Suc n] = f 0 # map (\<lambda>k. f (Suc k)) [0..<n]"
  by (simp add: map_upt_Suc del: upt_Suc)

lemma find_block_loop_eq:
  assumes "length metadata < 2 ^ 63" and "block_size \<noteq> 0" and "offset \<le> length metadata"
    and "offset + block_size < 2 ^ 64"
  shows "find_block_loop metadata block_size t offset =
    Ok (find (\<lambda>o'. type_at metadata o' = t)
      (map (\<lambda>k. offset + k * block_size) [0..<(length metadata - offset) div block_size]))"
  using assms
proof (induction "length metadata - offset" arbitrary: offset rule: less_induct)
  case less
  let ?stop = "offset + block_size"
  show ?case
  proof (cases "?stop \<le> length metadata")
    case True
    have "(length metadata - offset) div block_size = Suc ((length metadata - ?stop) div block_size)"
      using True less.prems(2) by (simp add: le_div_geq diff_diff_left)
    then have blocks: "map (\<lambda>k. offset + k * block_size) [0..<(length metadata - offset) div block_size] =
        offset # map (\<lambda>k. ?stop + k * block_size) [0..<(length metadata - ?stop) div block_size]"
      by (simp only: upt_map_shift) (simp add: algebra_simps)
    have "length metadata - ?stop < length metadata - offset" "?stop + block_size < 2 ^ 64"
      using less.prems True by auto
    note ih = less.hyps [OF this(1) less.prems(1,2) True this(2)]
    show ?thesis
      unfolding blocks using True less.prems
      by (subst find_block_loop.simps) (auto simp: const_defs reader_simps type_at_def ih)
  next
    case False
    then show ?thesis
      using less.prems by (subst find_block_loop.simps) auto
  qed
qed

lemma find_block_of_type_eq:
  assumes "length metadata < 2 ^ 63" and "block_size < 2 ^ 64"
  shows "find_block_of_type metadata block_size t = Ok (first_typed metadata block_size t)"
  using assms
  by (simp add: find_block_of_type_def first_typed_def block_offsets_def find_block_loop_eq)

lemma block_offsets_inside:
  assumes "offset \<in> set (block_offsets metadata block_size)"
  shows "offset + block_size \<le> length metadata" and "block_size dvd offset"
proof -
  from assms obtain k where k: "k < length metadata div block_size" "offset = k * block_size"
    by (auto simp: block_offsets_def)
  have "Suc k * block_size \<le> length metadata div block_size * block_size"
    using k(1) by (intro mult_le_mono1) simp
  also have "\<dots> \<le> length metadata"
    by (rule div_times_less_eq_dividend)
  finally show "offset + block_size \<le> length metadata"
    by (simp add: k(2))
  show "block_size dvd offset"
    by (simp add: k(2))
qed

lemma first_typed_SomeD:
  assumes "first_typed metadata block_size t = Some offset"
  shows "offset + block_size \<le> length metadata"
  using assms block_offsets_inside
  by (auto simp: first_typed_def find_Some_iff dest: nth_mem)

section \<open>Segment entries\<close>

definition segment_at :: "bytes \<Rightarrow> nat \<Rightarrow> nat \<Rightarrow> SegmentEntry" where
  "segment_at metadata block_offset i =
    (let entry = block_offset + 72 + i * 40 in
     \<lparr>seg_logical_block = field_at 8 from_le_bytes 0 metadata (entry + 8),
      seg_physical_block = field_at 8 from_le_bytes 0 metadata (entry + 32) AND BLOCK_NUMBER_MASK,
      seg_number_of_blocks = field_at 4 from_le_bytes 0 metadata (entry + 16)\<rparr>)"

text \<open>How many 40-byte entries fit after the 72 bytes of headers of a block.\<close>

definition segment_capacity :: "nat \<Rightarrow> nat" where
  "segment_capacity block_size = (block_size - 72) div 40"

lemma segment_fits_iff: "i < segment_capacity block_size \<longleftrightarrow> i * 40 + 112 \<le> block_size"
  unfolding segment_capacity_def by (auto simp: less_eq_div_iff_mult_less_eq simp flip: Suc_le_eq)

lemma segment_loop_eq:
  assumes "length metadata < 2 ^ 63" and "block_offset + block_size \<le> length metadata"
    and "n \<le> 2 ^ 16"
  shows "segment_loop metadata block_size block_offset (block_offset + 64) [i..<n] =
    Ok (map (segment_at metadata block_offset) [i..<min n (segment_capacity block_size)])"
  using assms(3)
proof (induction "n - i" arbitrary: i)
  case 0
  then show ?case by simp
next
  case (Suc m)
  then have i: "i < n" by simp
  show ?case
  proof (cases "i < segment_capacity block_size")
    case True
    then have fit: "i * 40 + 112 \<le> block_size"
      by (simp add: segment_fits_iff)
    have "[i..<min n (segment_capacity block_size)] =
        i # [Suc i..<min n (segment_capacity block_size)]"
      using i True by (simp add: upt_conv_Cons)
    then show ?thesis
      using i fit Suc.hyps Suc.prems assms
      by (simp add: upt_conv_Cons [OF i] const_defs reader_simps segment_at_def algebra_simps)
  next
    case False
    then have "block_size < i * 40 + 112"
      by (simp add: segment_fits_iff)
    then show ?thesis
      using i False Suc.prems assms
      by (simp add: upt_conv_Cons [OF i] const_defs algebra_simps)
  qed
qed

definition segment_count :: "bytes \<Rightarrow> nat \<Rightarrow> nat" where
  "segment_count metadata block_offset =
    min (unat (field_at 4 from_le_bytes 0 metadata (block_offset + 64) :: u32)) (2 ^ 16)"

definition segments_of :: "bytes \<Rightarrow> nat \<Rightarrow> SegmentEntry list" where
  "segments_of metadata block_size =
    (case first_typed metadata block_size BLOCK_TYPE_SEGMENT_DESCRIPTOR of
      None \<Rightarrow> []
    | Some offset \<Rightarrow> map (segment_at metadata offset)
        [0..<min (segment_count metadata offset) (segment_capacity block_size)])"

lemma unat_min: "unat (min a b :: 'w::len word) = min (unat a) (unat b)"
  by (simp add: min_def word_le_nat_alt)

lemma parse_segments_eq:
  assumes "length metadata < 2 ^ 63" and "block_size < 2 ^ 64"
  shows "parse_segments metadata block_size = Ok (segments_of metadata block_size)"
proof (cases "first_typed metadata block_size BLOCK_TYPE_SEGMENT_DESCRIPTOR")
  case None
  then show ?thesis
    using assms by (simp add: parse_segments_def segments_of_def find_block_of_type_eq)
next
  case (Some offset)
  note fits = first_typed_SomeD [OF Some]
  have "unat (min (field_at 4 from_le_bytes 0 metadata (offset + 64)) MAX_SEGMENTS :: u32) =
      segment_count metadata offset"
    by (simp add: unat_min segment_count_def const_defs)
  moreover have "segment_count metadata offset \<le> 2 ^ 16"
    by (simp add: segment_count_def)
  ultimately show ?thesis
    using assms Some fits segment_loop_eq [OF assms(1) fits]
    by (simp add: parse_segments_def segments_of_def find_block_of_type_eq BLOCK_HEADER_SIZE_def
        reader_simps)
qed

lemma unat_block_number: "unat (w AND BLOCK_NUMBER_MASK) = unat w mod 2 ^ 48"
proof -
  have "w AND BLOCK_NUMBER_MASK = take_bit 48 w"
    by (simp add: BLOCK_NUMBER_MASK_def mask48 take_bit_eq_mask)
  then show ?thesis
    by (simp only: unsigned_take_bit_eq) (simp only: take_bit_eq_mod)
qed

lemma block_number_less: "unat (w AND BLOCK_NUMBER_MASK) < 2 ^ 48"
  by (simp add: unat_block_number)

section \<open>Outcomes of the location steps\<close>

abbreviation type_field :: "bytes \<Rightarrow> u16" where
  "type_field b \<equiv> field_at 2 from_le_bytes 0 b 10"

abbreviation size_field :: "bytes \<Rightarrow> u32" where
  "size_field b \<equiv> field_at 4 from_le_bytes 0 b 64"

abbreviation descriptor_field :: "bytes \<Rightarrow> nat" where
  "descriptor_field b \<equiv> unat (field_at 4 from_le_bytes 0 b 220 :: u32)"

abbreviation count_field :: "bytes \<Rightarrow> u64" where
  "count_field b \<equiv> field_at 8 from_le_bytes 0 b (descriptor_field b + 8)"

abbreviation primary_field :: "bytes \<Rightarrow> u64" where
  "primary_field b \<equiv> field_at 8 from_le_bytes 0 b (descriptor_field b + 32) AND BLOCK_NUMBER_MASK"

lemma unat_u32_less: "unat (w :: u32) < 2 ^ 32"
  using unsigned_less [of w, where ?'a = nat] by simp

lemma unat_ucast_u32 [simp]: "unat (ucast (w :: u32) :: u64) = unat w"
  using unat_u32_less [of w] by (simp add: unsigned_ucast_eq take_bit_nat_eq_self_iff)

lemma plaintext_metadata_size_eq:
  "plaintext_metadata_size header b =
    (if type_field b \<noteq> 0x0011
     then Err (MetadataStructureMissing ''0x0011 encrypted-metadata pointer block'')
     else if vh_block_size header = 0 then Err (OutOfRange ''block size is zero'')
     else if size_field b = 0 \<or> unat (size_field b) div unat (vh_block_size header) > 2 ^ 20
     then Err (OutOfRange ''plaintext metadata region size'')
     else Ok (ucast (size_field b)))"
proof -
  have "(ucast (size_field b) :: u64) div ucast (vh_block_size header) > MAX_METADATA_BLOCKS \<longleftrightarrow>
      unat (size_field b) div unat (vh_block_size header) > 2 ^ 20"
    by (simp add: word_less_nat_alt unat_div_distrib const_defs)
  then show ?thesis
    by (simp add: plaintext_metadata_size_def const_defs reader_simps Let_def
        flip: unat_eq_0)
qed

lemma count_times_block_size:
  assumes "unat (c :: u64) \<le> 2 ^ 20"
  shows "unat c * unat (bs :: u32) < 2 ^ 52"
proof -
  have "unat c * unat bs \<le> 2 ^ 20 * (2 ^ 32 - 1)"
    using assms unat_u32_less [of bs] by (intro mult_le_mono) simp_all
  then show ?thesis by simp
qed

lemma locate_encrypted_metadata_eq:
  "locate_encrypted_metadata header r =
    (if type_field r \<noteq> 0x0011
     then Err (MetadataStructureMissing ''0x0011 encrypted-metadata pointer block'')
     else if length r < descriptor_field r + 40
     then Err (MetadataStructureMissing ''volume-groups descriptor (offset out of region)'')
     else if count_field r = 0 \<or> unat (count_field r) > 2 ^ 20
     then Err (OutOfRange ''encrypted-metadata block count'')
     else if unat (primary_field r) * unat (vh_block_size header) \<ge> 2 ^ 64
     then Err (OutOfRange ''encrypted-metadata primary offset'')
     else Ok \<lparr>em_primary_offset = primary_field r * ucast (vh_block_size header),
              em_block_count = count_field r,
              em_length = count_field r * ucast (vh_block_size header)\<rparr>)"
proof -
  have d: "descriptor_field r < 2 ^ 32"
    by (rule unat_u32_less)
  have "MAX_ENCRYPTED_METADATA_BLOCKS < count_field r \<longleftrightarrow> 2 ^ 20 < unat (count_field r)"
    by (simp add: word_less_nat_alt const_defs)
  moreover have "checked_mul (count_field r) (ucast (vh_block_size header)) =
      Some (count_field r * ucast (vh_block_size header))" if "\<not> 2 ^ 20 < unat (count_field r)"
    using count_times_block_size [of "count_field r" "vh_block_size header"] that
    by (simp add: checked_mul_def)
  ultimately show ?thesis
    using d
    by (auto simp: locate_encrypted_metadata_def BLOCK_HEADER_TYPE_OFFSET_def BLOCK_HEADER_SIZE_def
        PAYLOAD_VG_DESCRIPTOR_OFFSET_def VG_PRIMARY_BLOCK_OFFSET_def VG_COUNT_OFFSET_def
        BLOCK_TYPE_ENCRYPTED_METADATA_POINTER_def checked_add_usize_def reader_simps Let_def
        checked_mul_def [of "primary_field r"])
qed

section \<open>The layout of a segment-descriptor block\<close>

text \<open>
  A block as the format lays it out: the type in the 64-byte block header, the number of entries,
  and 40-byte entries whose physical block field carries a physical-volume index in its top
  sixteen bits.
\<close>

definition encode_segment :: "u16 \<Rightarrow> SegmentEntry \<Rightarrow> bytes" where
  "encode_segment pv e =
    replicate 8 0 @ to_le_bytes 8 (seg_logical_block e) @ to_le_bytes 4 (seg_number_of_blocks e) @
    replicate 12 0 @ to_le_bytes 8 (seg_physical_block e OR push_bit 48 (ucast pv))"

definition encode_segment_block :: "nat \<Rightarrow> u16 \<Rightarrow> SegmentEntry list \<Rightarrow> bytes" where
  "encode_segment_block block_size pv es =
    replicate 10 0 @ to_le_bytes 2 BLOCK_TYPE_SEGMENT_DESCRIPTOR @ replicate 52 0 @
    to_le_bytes 4 (of_nat (length es) :: u32) @ replicate 4 0 @
    concat (map (encode_segment pv) es) @ replicate (block_size - 72 - 40 * length es) 0"

lemma length_encode_segment [simp]: "length (encode_segment pv e) = 40"
  by (simp add: encode_segment_def)

lemma length_concat_encode [simp]: "length (concat (map (encode_segment pv) es)) = length es * 40"
  by (rule length_concat_map) simp

lemma field_append_skip:
  "length pre \<le> off \<Longrightarrow>
    field_at width dec zero (pre @ post) off = field_at width dec zero post (off - length pre)"
  by (auto simp: field_at_def)

lemma field_prefix: "length b = width \<Longrightarrow> field_at width dec zero (b @ post) 0 = dec b"
  by (simp add: field_at_def)

lemma field_of_window:
  assumes "off + width \<le> n" and "base + n \<le> length xs"
  shows "field_at width dec zero xs (base + off) = field_at width dec zero (window base n xs) off"
proof -
  have "window off width (window base n xs) = window (base + off) width xs"
    using assms(1) by (simp add: window_of_window min_def)
  then show ?thesis
    using assms by (simp add: field_at_def)
qed

lemma masked_physical:
  assumes "unat p < 2 ^ 48"
  shows "(p OR push_bit 48 (ucast (pv :: u16))) AND BLOCK_NUMBER_MASK = (p :: u64)"
proof (rule bit_word_eqI)
  fix k assume "k < LENGTH(64)"
  have "take_bit 48 p = p"
    using assms by (intro word_unat_eq_iff [THEN iffD2])
      (simp add: unsigned_take_bit_eq take_bit_nat_eq_self_iff)
  then have "bit p k \<Longrightarrow> k < 48"
    by (metis bit_take_bit_iff)
  then show "bit ((p OR push_bit 48 (ucast pv)) AND BLOCK_NUMBER_MASK) k = bit p k"
    by (auto simp: BLOCK_NUMBER_MASK_def mask48 bit_or_iff bit_and_iff bit_mask_iff bit_push_bit_iff)
qed

lemma segment_fields:
  assumes "unat (seg_physical_block e) < 2 ^ 48"
  shows "field_at 8 from_le_bytes 0 (encode_segment pv e) 8 = seg_logical_block e"
    and "field_at 4 from_le_bytes 0 (encode_segment pv e) 16 = seg_number_of_blocks e"
    and "field_at 8 from_le_bytes 0 (encode_segment pv e) 32 AND BLOCK_NUMBER_MASK = seg_physical_block e"
  using assms
  by (simp_all add: encode_segment_def field_append_skip field_prefix from_le_to_le masked_physical
      field_at_def)

lemma encoded_block_window:
  assumes "i < length es"
  shows "window (72 + i * 40) 40 (encode_segment_block block_size pv es) = encode_segment pv (es ! i)"
    and "72 + i * 40 + 40 \<le> length (encode_segment_block block_size pv es)"
proof -
  have inside: "i * 40 + 40 \<le> length es * 40"
    using mult_le_mono1 [of "Suc i" "length es" 40] assms by simp
  then show "72 + i * 40 + 40 \<le> length (encode_segment_block block_size pv es)"
    by (simp add: encode_segment_block_def)
  show "window (72 + i * 40) 40 (encode_segment_block block_size pv es) = encode_segment pv (es ! i)"
    using inside window_concat_map [of es "encode_segment pv" 40 i] assms
    by (simp add: encode_segment_block_def)
qed

lemma segment_field_encoded:
  assumes "i < length es" and "off + width \<le> 40"
  shows "field_at width dec zero (encode_segment_block block_size pv es) (72 + i * 40 + off) =
    field_at width dec zero (encode_segment pv (es ! i)) off"
  using field_of_window [OF assms(2) encoded_block_window(2) [OF assms(1)]]
  by (simp add: encoded_block_window(1) [OF assms(1)])

lemma segment_at_encoded:
  assumes "i < length es" and "unat (seg_physical_block (es ! i)) < 2 ^ 48"
  shows "segment_at (encode_segment_block block_size pv es) 0 i = es ! i"
  using segment_fields [OF assms(2), of pv]
  by (simp add: segment_at_def segment_field_encoded [OF assms(1), of 8 8, simplified]
      segment_field_encoded [OF assms(1), of 16 4, simplified]
      segment_field_encoded [OF assms(1), of 32 8, simplified])

lemma field_in_prefix:
  "off + width \<le> length xs \<Longrightarrow> field_at width dec zero (xs @ ys) off = field_at width dec zero xs off"
  using field_take [of off width "length xs" dec zero "xs @ ys"] by simp

lemma segments_of_encoded:
  assumes "72 + 40 * length es \<le> block_size" and "length es \<le> 2 ^ 16"
    and "\<And>e. e \<in> set es \<Longrightarrow> unat (seg_physical_block e) < 2 ^ 48"
  shows "segments_of (encode_segment_block block_size pv es @ rest) block_size = es"
proof -
  let ?b = "encode_segment_block block_size pv es"
  have len: "length ?b = block_size"
    using assms(1) by (simp add: encode_segment_block_def)
  have "type_at ?b 0 = BLOCK_TYPE_SEGMENT_DESCRIPTOR"
    by (simp add: type_at_def encode_segment_block_def field_append_skip field_prefix from_le_to_le)
  then have "type_at (?b @ rest) 0 = BLOCK_TYPE_SEGMENT_DESCRIPTOR"
    using len assms(1) by (simp add: type_at_def field_in_prefix)
  moreover have "length (?b @ rest) div block_size = Suc (length rest div block_size)"
    using len assms(1) by (simp add: div_add_self1)
  ultimately have first: "first_typed (?b @ rest) block_size BLOCK_TYPE_SEGMENT_DESCRIPTOR = Some 0"
    by (simp only: first_typed_def block_offsets_def upt_map_shift) simp
  have "field_at 4 from_le_bytes 0 ?b 64 = (of_nat (length es) :: u32)"
    by (simp add: encode_segment_block_def field_append_skip field_prefix from_le_to_le)
  then have "segment_count (?b @ rest) 0 = length es"
    using assms(1,2) len by (simp add: segment_count_def field_in_prefix unat_of_nat)
  moreover have "length es \<le> segment_capacity block_size"
    using assms(1) by (simp add: segment_capacity_def less_eq_div_iff_mult_less_eq)
  ultimately have "segments_of (?b @ rest) block_size = map (segment_at (?b @ rest) 0) [0..<length es]"
    using first by (simp add: segments_of_def)
  also have "\<dots> = es"
  proof (intro nth_equalityI)
    fix i assume "i < length (map (segment_at (?b @ rest) 0) [0..<length es])"
    then have i: "i < length es" by simp
    then have "segment_at (?b @ rest) 0 i = segment_at ?b 0 i"
      using encoded_block_window(2) [OF i, of block_size pv] by (simp add: segment_at_def field_in_prefix)
    then show "map (segment_at (?b @ rest) 0) [0..<length es] ! i = es ! i"
      using i assms(3) by (simp add: segment_at_encoded)
  qed simp
  finally show ?thesis .
qed

text \<open>Blocks of another type before the segment block do not matter.\<close>

lemma block_offsets_append:
  assumes "length b = block_size" and "0 < block_size"
  shows "block_offsets (b @ rest) block_size = 0 # map (\<lambda>o'. block_size + o') (block_offsets rest block_size)"
proof -
  have "length (b @ rest) div block_size = Suc (length rest div block_size)"
    using assms by (simp add: div_add_self1)
  then show ?thesis
    by (simp only: block_offsets_def upt_map_shift) (simp add: algebra_simps)
qed

lemma type_at_append: "length b = block_size \<Longrightarrow> type_at (b @ rest) (block_size + o') = type_at rest o'"
  by (simp add: type_at_def field_append_skip)

lemma find_map: "find p (map f xs) = map_option f (find (\<lambda>x. p (f x)) xs)"
  by (induction xs) auto

lemma segments_of_skip:
  assumes "length b = block_size" and "12 \<le> block_size" and "type_at b 0 \<noteq> BLOCK_TYPE_SEGMENT_DESCRIPTOR"
  shows "segments_of (b @ rest) block_size = segments_of rest block_size"
proof -
  have first: "first_typed (b @ rest) block_size BLOCK_TYPE_SEGMENT_DESCRIPTOR =
      map_option (\<lambda>o'. block_size + o') (first_typed rest block_size BLOCK_TYPE_SEGMENT_DESCRIPTOR)"
  proof -
    have "type_at (b @ rest) 0 = type_at b 0"
      using assms(1,2) by (simp add: type_at_def field_in_prefix)
    then show ?thesis
      using assms by (simp add: first_typed_def block_offsets_append find_map type_at_append)
  qed
  have "segment_at (b @ rest) (block_size + o') = segment_at rest o'" for o'
    by (rule ext) (simp add: segment_at_def field_append_skip assms(1) Let_def)
  moreover have "segment_count (b @ rest) (block_size + o') = segment_count rest o'" for o'
    by (simp add: segment_count_def field_append_skip assms(1))
  ultimately show ?thesis
    by (cases "first_typed rest block_size BLOCK_TYPE_SEGMENT_DESCRIPTOR")
      (simp_all add: segments_of_def first)
qed

lemma segments_of_skips:
  assumes "12 \<le> block_size"
    and "\<And>b. b \<in> set bs \<Longrightarrow> length b = block_size \<and> type_at b 0 \<noteq> BLOCK_TYPE_SEGMENT_DESCRIPTOR"
  shows "segments_of (concat bs @ rest) block_size = segments_of rest block_size"
  using assms(2) by (induction bs) (simp_all add: segments_of_skip assms(1))

section \<open>Properties\<close>

text \<open>
  Reading the size of the plaintext metadata never panics. A size that is accepted comes from a
  \<open>0x0011\<close> block of a volume with a non-zero block size, is positive, fits 32 bits and spans at most
  \<open>2^20\<close> blocks; every refusal is one of the three named errors.
\<close>

theorem plaintext_metadata_size_outcome:
  "case plaintext_metadata_size header first_block of
     Ok sz \<Rightarrow>
       le_u16 first_block 10 = (Ok 0x0011 :: u16 fv) \<and> vh_block_size header \<noteq> 0 \<and>
       0 < unat sz \<and> unat sz < 2 ^ 32 \<and> unat sz div unat (vh_block_size header) \<le> 2 ^ 20
   | Err e \<Rightarrow>
       e \<in> {MetadataStructureMissing ''0x0011 encrypted-metadata pointer block'',
            OutOfRange ''block size is zero'', OutOfRange ''plaintext metadata region size''}
   | Panic \<Rightarrow> False"
  using unat_u32_less [of "size_field first_block"]
  by (simp add: plaintext_metadata_size_eq reader_simps unat_gt_0)

text \<open>
  C27 Locating the encrypted metadata never panics, whatever the region holds. A location that is
  returned has its descriptor inside the region, between 1 and \<open>2^20\<close> blocks, the primary offset
  equal to the low 48 bits of the block-number field times the block size, and the length equal to
  block count times block size without overflow, below \<open>2^52\<close>; the overflow error for the length
  can not occur.
\<close>

theorem locate_encrypted_metadata_outcome:
  "case locate_encrypted_metadata header region of
     Ok loc \<Rightarrow>
       (\<exists>d c p. le_u32 region 220 = (Ok d :: u32 fv) \<and> unat d + 40 \<le> length region \<and>
         le_u64 region (unat d + 8) = (Ok c :: u64 fv) \<and> em_block_count loc = c \<and>
         le_u64 region (unat d + 32) = (Ok p :: u64 fv) \<and>
         unat (em_primary_offset loc) = (unat p mod 2 ^ 48) * unat (vh_block_size header)) \<and>
       0 < unat (em_block_count loc) \<and> unat (em_block_count loc) \<le> 2 ^ 20 \<and>
       unat (em_length loc) = unat (em_block_count loc) * unat (vh_block_size header) \<and>
       unat (em_length loc) < 2 ^ 52
   | Err e \<Rightarrow>
       e \<in> {MetadataStructureMissing ''0x0011 encrypted-metadata pointer block'',
            MetadataStructureMissing ''volume-groups descriptor (offset out of region)'',
            OutOfRange ''encrypted-metadata block count'',
            OutOfRange ''encrypted-metadata primary offset''}
   | Panic \<Rightarrow> False"
proof -
  let ?bs = "vh_block_size header" and ?c = "count_field region"
  have d: "descriptor_field region < 2 ^ 32"
    by (rule unat_u32_less)
  have "unat (?c * ucast ?bs) = unat ?c * unat ?bs \<and> unat ?c * unat ?bs < 2 ^ 52"
    if "unat ?c \<le> 2 ^ 20"
    using count_times_block_size [OF that, of ?bs] unat_mult_fit [of ?c "ucast ?bs"] by simp
  moreover have "unat (primary_field region * ucast ?bs) = unat (primary_field region) * unat ?bs"
    if "unat (primary_field region) * unat ?bs < 2 ^ 64"
    using that unat_mult_fit [of "primary_field region" "ucast ?bs"] by simp
  ultimately show ?thesis
    using d by (auto simp: locate_encrypted_metadata_eq reader_simps unat_block_number unat_gt_0 not_less)
qed

text \<open>
  C28 Decrypting the metadata keeps its length and fails in one case only: it panics exactly when the
  region ends in a partial 8192-byte unit of fewer than sixteen bytes. A longer partial unit is
  decrypted like the others.
\<close>

theorem decrypt_metadata_outcome:
  assumes "xts_documented P" and "wf_header header" and "length ciphertext < 2 ^ 64"
  shows "case decrypt_metadata P header ciphertext of
     Ok plaintext \<Rightarrow> length plaintext = length ciphertext \<and>
       (length ciphertext mod 8192 = 0 \<or> 16 \<le> length ciphertext mod 8192)
   | Err e \<Rightarrow> False
   | Panic \<Rightarrow> 0 < length ciphertext mod 8192 \<and> length ciphertext mod 8192 < 16"
proof -
  have "xts_keyed P (vh_key_data header) (vh_physical_volume_identifier header) 8192"
    using assms by (simp add: xts_keyed_def wf_header_def)
  moreover have "unat (0 :: u128) + length ciphertext div 8192 < 2 ^ 128"
    using assms(3) by simp
  ultimately have "if 0 < length ciphertext mod 8192 \<and> length ciphertext mod 8192 < 16
    then decrypt_metadata P header ciphertext = Panic
    else \<exists>x. decrypt_metadata P header ciphertext = Ok x \<and> length x = length ciphertext"
    unfolding decrypt_metadata_def METADATA_UNIT_SIZE_def by (rule decrypt_units_cases)
  then show ?thesis
    by (auto split: if_splits)
qed

theorem decrypt_metadata_outcome_witness:
  "case decrypt_metadata demo_prims sample_header (replicate 3 0) of
     Ok plaintext \<Rightarrow> length plaintext = length (replicate 3 (0 :: u8)) \<and>
       (length (replicate 3 (0 :: u8)) mod 8192 = 0 \<or> 16 \<le> length (replicate 3 (0 :: u8)) mod 8192)
   | Err e \<Rightarrow> False
   | Panic \<Rightarrow> 0 < length (replicate 3 (0 :: u8)) mod 8192 \<and> length (replicate 3 (0 :: u8)) mod 8192 < 16"
  by (rule decrypt_metadata_outcome)
    (simp_all add: demo_documented wf_header_def sample_header_def)

text \<open>
  C29 The block search returns the first block-aligned offset, among the blocks wholly inside the
  metadata, whose type field is the one asked for, and nothing when there is none or the block size
  is zero; it terminates and does not panic.
\<close>

theorem find_block_of_type_first:
  assumes "length metadata < 2 ^ 63" and "block_size < 2 ^ 64"
  shows "find_block_of_type metadata block_size t =
    Ok (find (\<lambda>o'. le_u16 metadata (o' + 10) = (Ok t :: u16 fv))
      (map (\<lambda>k. k * block_size) [0..<length metadata div block_size]))"
proof -
  have "le_u16 metadata (o' + 10) = (Ok t :: u16 fv) \<longleftrightarrow> type_at metadata o' = t"
    if "o' \<in> set (block_offsets metadata block_size)" for o'
    using block_offsets_inside [OF that] assms(1) by (auto simp: reader_simps type_at_def)
  then have "find (\<lambda>o'. le_u16 metadata (o' + 10) = (Ok t :: u16 fv)) (block_offsets metadata block_size) =
      first_typed metadata block_size t"
    unfolding first_typed_def by (intro find_cong) auto
  then show ?thesis
    using assms by (simp add: find_block_of_type_eq block_offsets_def)
qed

theorem find_block_of_type_first_witness:
  "find_block_of_type [0,0,0,0,0,0,0,0,0,0,1,0, 0,0,0,0,0,0,0,0,0,0,5,3] 12 0x0305 =
    Ok (find (\<lambda>o'. le_u16 [0,0,0,0,0,0,0,0,0,0,1,0, 0,0,0,0,0,0,0,0,0,0,5,3] (o' + 10) =
        (Ok 0x0305 :: u16 fv))
      (map (\<lambda>k. k * 12) [0..<length [0,0,0,0,0,0,0,0,0,0,1,0, 0,0,0,0,0,0,0,0,0,0,5,3 :: u8] div 12]))"
  by (rule find_block_of_type_first) simp_all

text \<open>
  Parsing the segment descriptor never panics and never trusts its entry count: at most
  \<open>2^16\<close> entries, and never more than fit after the headers of one block, are returned; every
  physical block number fits 48 bits.
\<close>

theorem parse_segments_bounded:
  assumes "length metadata < 2 ^ 63" and "block_size < 2 ^ 64"
  shows "\<exists>es. parse_segments metadata block_size = Ok es \<and>
    length es \<le> 2 ^ 16 \<and> 72 + 40 * length es \<le> max 72 block_size \<and>
    list_all (\<lambda>e. unat (seg_physical_block e) < 2 ^ 48) es"
proof (intro exI conjI)
  let ?es = "segments_of metadata block_size"
  have n: "length ?es \<le> segment_capacity block_size" "length ?es \<le> 2 ^ 16"
    by (auto simp: segments_of_def segment_count_def split: option.splits)
  show "parse_segments metadata block_size = Ok ?es"
    by (rule parse_segments_eq [OF assms])
  show "length ?es \<le> 2 ^ 16"
    by (rule n(2))
  have "40 * length ?es \<le> block_size - 72"
    using n(1) div_times_less_eq_dividend [of "block_size - 72" 40]
    by (simp add: segment_capacity_def)
  then show "72 + 40 * length ?es \<le> max 72 block_size"
    by simp
  show "list_all (\<lambda>e. unat (seg_physical_block e) < 2 ^ 48) ?es"
    using block_number_less
    by (auto simp: segments_of_def segment_at_def list_all_iff Let_def split: option.splits)
qed

theorem parse_segments_bounded_witness:
  "\<exists>es. parse_segments (replicate 20 0) 16 = Ok es \<and>
    length es \<le> 2 ^ 16 \<and> 72 + 40 * length es \<le> max 72 (16 :: nat) \<and>
    list_all (\<lambda>e. unat (seg_physical_block e) < 2 ^ 48) es"
  by (rule parse_segments_bounded) simp_all

text \<open>
  C30 A segment map round-trips: parsing metadata whose first segment-descriptor block carries the
  entries in the format's layout, with any physical-volume index in the top bits of the block
  numbers, gives the same entries in the same order, whatever blocks of other types stand before
  that block and whatever follows it.
\<close>

theorem parse_segments_roundtrip:
  assumes "72 + 40 * length es \<le> block_size" and "length es \<le> 2 ^ 16"
    and "\<And>e. e \<in> set es \<Longrightarrow> unat (seg_physical_block e) < 2 ^ 48"
    and "\<And>b. b \<in> set bs \<Longrightarrow> length b = block_size \<and> type_at b 0 \<noteq> BLOCK_TYPE_SEGMENT_DESCRIPTOR"
    and "length (concat bs @ encode_segment_block block_size pv es @ rest) < 2 ^ 63"
  shows "parse_segments (concat bs @ encode_segment_block block_size pv es @ rest) block_size = Ok es"
proof -
  have "length (encode_segment_block block_size pv es) = block_size"
    using assms(1) by (simp add: encode_segment_block_def)
  then have "block_size < 2 ^ 64"
    using assms(5) by simp
  then show ?thesis
    using assms segments_of_encoded [OF assms(1-3)] segments_of_skips [of block_size bs]
    by (simp add: parse_segments_eq)
qed

theorem parse_segments_roundtrip_witness:
  "parse_segments (concat [replicate 4096 0, replicate 4096 1] @ encode_segment_block 4096 0x1234
      [\<lparr>seg_logical_block = 0, seg_physical_block = 16384, seg_number_of_blocks = 40960\<rparr>] @ [1, 2, 3]) 4096 =
   Ok [\<lparr>seg_logical_block = 0, seg_physical_block = 16384, seg_number_of_blocks = 40960\<rparr>]"
proof (rule parse_segments_roundtrip)
  have two: "replicate 2 x = [x, x]" for x :: u8
    by (simp add: numeral_2_eq_2)
  show "length b = 4096 \<and> type_at b 0 \<noteq> BLOCK_TYPE_SEGMENT_DESCRIPTOR"
    if "b \<in> set [replicate 4096 0, replicate 4096 1]" for b
    using that by (auto simp: type_at_def field_at_def BLOCK_TYPE_SEGMENT_DESCRIPTOR_def two)
qed (simp_all add: encode_segment_block_def)

end
