(* ===== verification/FileVault.thy ===== *)
theory FileVault
  imports Volume Metadata
begin

text \<open>
  The entry points of the core crate (\<open>core/src/lib.rs\<close>): \<open>parse_info\<close>, which audits a locked
  volume, \<open>unlock_with_password\<close>, and the unlocked volume with its delegating methods. The functions
  are actions over an arbitrary reader. The specifications \<open>info_spec\<close> and \<open>unlock_spec\<close> are pure
  functions of the image's bytes; a small calculus (\<open>reads_as\<close>) relates the two.
\<close>

section \<open>Definitions\<close>

definition VOLUME_HEADER_LEN :: nat where
  [const_defs]: "VOLUME_HEADER_LEN = 512"

record FileVaultInfo =
  fvi_physical_volume_identifier :: bytes
  fvi_pbkdf2_iterations :: u32
  fvi_pbkdf2_salt :: bytes
  fvi_family_uuid :: bytes
  fvi_lv_identifier :: "bytes option"
  fvi_lv_name :: "bytes option"
  fvi_lv_size :: u64
  fvi_encryption_method :: bytes
  fvi_conversion_status :: "bytes option"
  fvi_protectors :: "Protector list"

record 'r FileVaultVolume =
  fv_decrypted :: "'r DecryptedVolume"
  fv_info :: FileVaultInfo

definition read_exact_or_err :: "'r read_seek \<Rightarrow> bytes \<Rightarrow> ('r, FileVaultError, bytes) action" where
  "read_exact_or_err ops buf = from_io (read_exact ops (length buf))"

definition format_uuid :: "prims \<Rightarrow> bytes \<Rightarrow> bytes" where
  "format_uuid P bs = uuid_hyphenated P bs"

definition parse_uuid_bytes :: "prims \<Rightarrow> bytes \<Rightarrow> bytes option" where
  "parse_uuid_bytes P s = uuid_parse P s"

definition decrypt_metadata_region ::
  "prims \<Rightarrow> 'r read_seek \<Rightarrow> VolumeHeader \<Rightarrow> ('r, FileVaultError, bytes) action" where
  "decrypt_metadata_region P ops header =
    (let (region_offset, _) = plaintext_metadata_region header;
         block_size = unat (vh_block_size header)
     in
     if block_size = 0 then return (Err (OutOfRange ''block size is zero''))
     else
       andThen (return (zeroed_vec block_size)) (\<lambda>first_block.
       andThen (from_io (seek_start ops region_offset)) (\<lambda>_.
       andThen (read_exact_or_err ops first_block) (\<lambda>first_block.
       andThen (return (plaintext_metadata_size header first_block)) (\<lambda>region_size.
       andThen (return (zeroed_vec (unat region_size))) (\<lambda>region.
       andThen (from_io (seek_start ops region_offset)) (\<lambda>_.
       andThen (read_exact_or_err ops region) (\<lambda>region.
       andThen (return (locate_encrypted_metadata header region)) (\<lambda>location.
       andThen (return (zeroed_vec (unat (em_length location)))) (\<lambda>ciphertext.
       andThen (from_io (seek_start ops (em_primary_offset location))) (\<lambda>_.
       andThen (read_exact_or_err ops ciphertext) (\<lambda>ciphertext.
       return (decrypt_metadata P header ciphertext)))))))))))))"

definition resolve_lv_extent ::
  "bytes \<Rightarrow> VolumeHeader \<Rightarrow> LogicalVolumeInfo \<Rightarrow> (u64 \<times> u64) fv" where
  "resolve_lv_extent metadata_bytes header lv =
    (let block_size = ucast (vh_block_size header) :: u64 in
     chain (parse_segments metadata_bytes (unat (vh_block_size header))) (\<lambda>segments.
       case segments of
         first # _ \<Rightarrow>
           (let base = saturating_mul (seg_physical_block first) block_size;
                sz = (if lv_size lv \<noteq> 0 then lv_size lv
                      else saturating_mul (ucast (seg_number_of_blocks first)) block_size)
            in Ok (base, sz))
       | [] \<Rightarrow> Ok (0, lv_size lv)))"

definition build_info ::
  "prims \<Rightarrow> VolumeHeader \<Rightarrow> EncryptionContext \<Rightarrow> LogicalVolumeInfo \<Rightarrow> u64 \<Rightarrow> FileVaultInfo" where
  "build_info P header context lv sz =
    \<lparr>fvi_physical_volume_identifier = format_uuid P (vh_physical_volume_identifier header),
     fvi_pbkdf2_iterations = ec_iterations context,
     fvi_pbkdf2_salt = ec_salt context,
     fvi_family_uuid = lv_family_uuid lv,
     fvi_lv_identifier = lv_identifier lv,
     fvi_lv_name = lv_name lv,
     fvi_lv_size = sz,
     fvi_encryption_method = str ''AES-XTS-128'',
     fvi_conversion_status = ec_conversion_status context,
     fvi_protectors = ec_protectors context\<rparr>"

definition parse_info :: "prims \<Rightarrow> 'r read_seek \<Rightarrow> ('r, FileVaultError, FileVaultInfo) action" where
  "parse_info P ops =
    andThen (from_io (seek_start ops 0)) (\<lambda>_.
    andThen (read_exact_or_err ops (replicate VOLUME_HEADER_LEN 0)) (\<lambda>header_bytes.
    andThen (return (parse header_bytes)) (\<lambda>header.
    andThen (decrypt_metadata_region P ops header) (\<lambda>plaintext.
    andThen (return (extract_context P plaintext)) (\<lambda>context.
    andThen (return (extract_lv_info plaintext)) (\<lambda>lv.
    andThen (return (resolve_lv_extent plaintext header lv)) (\<lambda>(_, sz).
    return (Ok (build_info P header context lv sz)))))))))"

text \<open>The reader is moved into the volume: the volume returned holds the reader's last state.\<close>

definition unlock_with_password ::
  "prims \<Rightarrow> 'r read_seek \<Rightarrow> bytes \<Rightarrow> ('r, FileVaultError, 'r FileVaultVolume) action" where
  "unlock_with_password P ops password =
    andThen (from_io (seek_start ops 0)) (\<lambda>_.
    andThen (read_exact_or_err ops (replicate VOLUME_HEADER_LEN 0)) (\<lambda>header_bytes.
    andThen (return (parse header_bytes)) (\<lambda>header.
    andThen (decrypt_metadata_region P ops header) (\<lambda>plaintext.
    andThen (return (extract_context P plaintext)) (\<lambda>context.
    andThen (return (extract_lv_info plaintext)) (\<lambda>lv.
    andThen (return (ok_or (parse_uuid_bytes P (lv_family_uuid lv))
        (MetadataStructureMissing ''parseable family UUID''))) (\<lambda>family_uuid_bytes.
    andThen (return (derive_volume_keys P password context family_uuid_bytes)) (\<lambda>keys.
    andThen (return (resolve_lv_extent plaintext header lv)) (\<lambda>(physical_base, sz) reader.
      Some (reader, Ok \<lparr>fv_decrypted = DecryptedVolume_new reader keys physical_base sz,
                        fv_info = build_info P header context lv sz\<rparr>))))))))))"

text \<open>The methods of the unlocked volume.\<close>

definition on_decrypted :: "('r DecryptedVolume, 'e, 'a) action \<Rightarrow> ('r FileVaultVolume, 'e, 'a) action" where
  "on_decrypted a v = map_option (\<lambda>(d, c). (v\<lparr>fv_decrypted := d\<rparr>, c)) (a (fv_decrypted v))"

definition FileVaultVolume_read_at ::
  "prims \<Rightarrow> 'r read_seek \<Rightarrow> u64 \<Rightarrow> nat \<Rightarrow> ('r FileVaultVolume, FileVaultError, bytes) action" where
  "FileVaultVolume_read_at P ops offset n = on_decrypted (DecryptedVolume_read_at P ops offset n)"

definition FileVaultVolume_size :: "'r FileVaultVolume \<Rightarrow> u64" where
  "FileVaultVolume_size v = DecryptedVolume_size (fv_decrypted v)"

definition FileVaultVolume_info :: "'r FileVaultVolume \<Rightarrow> FileVaultInfo" where
  "FileVaultVolume_info v = fv_info v"

definition into_decrypted :: "'r FileVaultVolume \<Rightarrow> 'r DecryptedVolume" where
  "into_decrypted v = fv_decrypted v"

definition FileVaultVolume_read ::
  "prims \<Rightarrow> 'r read_seek \<Rightarrow> nat \<Rightarrow> ('r FileVaultVolume, io_error, bytes) action" where
  "FileVaultVolume_read P ops n = on_decrypted (DecryptedVolume_read P ops n)"

definition FileVaultVolume_seek :: "'r FileVaultVolume \<Rightarrow> seek_from \<Rightarrow> 'r FileVaultVolume \<times> u64 io_result" where
  "FileVaultVolume_seek v p =
    (let (d, res) = DecryptedVolume_seek (fv_decrypted v) p in (v\<lparr>fv_decrypted := d\<rparr>, res))"

section \<open>What the entry points read, as functions of the image\<close>

definition image_at :: "bytes \<Rightarrow> u64 \<Rightarrow> nat \<Rightarrow> bytes fv" where
  "image_at img off n =
    (if unat off + n \<le> length img then Ok (window (unat off) n img) else Err (Io UnexpectedEof))"

definition metadata_spec :: "prims \<Rightarrow> bytes \<Rightarrow> VolumeHeader \<Rightarrow> bytes fv" where
  "metadata_spec P img header =
    (let region_offset = fst (plaintext_metadata_region header);
         block_size = unat (vh_block_size header)
     in
     if block_size = 0 then Err (OutOfRange ''block size is zero'')
     else
       chain (image_at img region_offset block_size) (\<lambda>first_block.
       chain (plaintext_metadata_size header first_block) (\<lambda>region_size.
       chain (image_at img region_offset (unat region_size)) (\<lambda>region.
       chain (locate_encrypted_metadata header region) (\<lambda>location.
       chain (image_at img (em_primary_offset location) (unat (em_length location)))
         (decrypt_metadata P header))))))"

definition info_spec :: "prims \<Rightarrow> bytes \<Rightarrow> FileVaultInfo fv" where
  "info_spec P img =
    chain (chain (image_at img 0 512) parse) (\<lambda>header.
    chain (metadata_spec P img header) (\<lambda>plaintext.
    chain (extract_context P plaintext) (\<lambda>context.
    chain (extract_lv_info plaintext) (\<lambda>lv.
    chain (resolve_lv_extent plaintext header lv) (\<lambda>(_, sz).
      Ok (build_info P header context lv sz))))))"

definition unlock_spec :: "prims \<Rightarrow> bytes \<Rightarrow> bytes \<Rightarrow> (VolumeKeys \<times> u64 \<times> u64 \<times> FileVaultInfo) fv" where
  "unlock_spec P password img =
    chain (chain (image_at img 0 512) parse) (\<lambda>header.
    chain (metadata_spec P img header) (\<lambda>plaintext.
    chain (extract_context P plaintext) (\<lambda>context.
    chain (extract_lv_info plaintext) (\<lambda>lv.
    chain (ok_or (parse_uuid_bytes P (lv_family_uuid lv))
        (MetadataStructureMissing ''parseable family UUID'')) (\<lambda>family.
    chain (derive_volume_keys P password context family) (\<lambda>keys.
    chain (resolve_lv_extent plaintext header lv) (\<lambda>(base, sz).
      Ok (keys, base, sz, build_info P header context lv sz))))))))"

section \<open>Actions that read as a function of the image\<close>

text \<open>Outcomes that agree, up to which I/O error a reader reports.\<close>

definition io_eq :: "'a fv \<Rightarrow> 'a fv \<Rightarrow> bool" where
  "io_eq c c' \<longleftrightarrow> c = c' \<or> (\<exists>e e'. c = Err (Io e) \<and> c' = Err (Io e'))"

definition reads_as ::
  "('r \<Rightarrow> bool) \<Rightarrow> ('r \<Rightarrow> bytes) \<Rightarrow> bytes \<Rightarrow> ('r, FileVaultError, 'a) action \<Rightarrow> 'a fv \<Rightarrow> bool" where
  "reads_as ok img bs act spec \<longleftrightarrow>
    (\<forall>r. ok r \<and> img r = bs \<longrightarrow>
      (\<exists>r' c. act r = Some (r', c) \<and> ok r' \<and> img r' = bs \<and> io_eq c spec))"

lemma io_eq_refl [simp]: "io_eq c c"
  by (simp add: io_eq_def)

lemma io_eq_Ok [simp]: "io_eq c (Ok x) \<longleftrightarrow> c = Ok x"
  by (auto simp: io_eq_def)

lemma io_eq_Panic [simp]: "io_eq c Panic \<longleftrightarrow> c = Panic"
  by (auto simp: io_eq_def)

lemma io_eq_OkD: "io_eq (Ok x) c \<Longrightarrow> c = Ok x"
  by (auto simp: io_eq_def)

lemma io_eq_PanicD: "io_eq Panic c \<Longrightarrow> c = Panic"
  by (auto simp: io_eq_def)

lemma reads_as_return [intro!]: "reads_as ok img bs (return c) c"
  by (simp add: reads_as_def return_def)

lemma reads_as_andThen:
  assumes "reads_as ok img bs act c" and "\<And>x. c = Ok x \<Longrightarrow> reads_as ok img bs (f x) (g x)"
  shows "reads_as ok img bs (andThen act f) (chain c g)"
  unfolding reads_as_def
proof (intro allI impI)
  fix r assume "ok r \<and> img r = bs"
  then obtain r' d where d: "act r = Some (r', d)" "ok r'" "img r' = bs" "io_eq d c"
    using assms(1) unfolding reads_as_def by blast
  show "\<exists>r' d. andThen act f r = Some (r', d) \<and> ok r' \<and> img r' = bs \<and> io_eq d (chain c g)"
  proof (cases c)
    case (Ok x)
    then show ?thesis
      using d assms(2) [OF Ok] by (simp add: andThen_def reads_as_def)
  next
    case (Err e)
    then show ?thesis
      using d by (auto simp: andThen_def io_eq_def)
  next
    case Panic
    then show ?thesis
      using d by (simp add: andThen_def)
  qed
qed

lemma andThen_assoc: "andThen (andThen a f) g = andThen a (\<lambda>x. andThen (f x) g)"
  by (rule ext) (simp add: andThen_def split: option.split prod.split comp.split)

text \<open>A pure step.\<close>

lemma reads_as_pure:
  "(\<And>x. c = Ok x \<Longrightarrow> reads_as ok img bs (f x) (g x)) \<Longrightarrow>
    reads_as ok img bs (andThen (return c) f) (chain c g)"
  by (rule reads_as_andThen) auto

context image_reader
begin

text \<open>The bootstrap's access pattern: allocate, seek, read exactly.\<close>

lemma reads_as_fetch:
  assumes "0 < n" and "n < 2 ^ 63"
  shows "reads_as ok image bs
    (andThen (from_io (seek_start ops off)) (\<lambda>_. from_io (read_exact ops n))) (image_at bs off n)"
  unfolding reads_as_def
proof (intro allI impI)
  fix r assume r: "ok r \<and> image r = bs"
  have "n < 2 ^ 64"
    using assms(2) by simp
  from seek_read_exact [OF _ assms(1) this, of r off] r
  show "\<exists>r' c. andThen (from_io (seek_start ops off)) (\<lambda>_. from_io (read_exact ops n)) r = Some (r', c) \<and>
      ok r' \<and> image r' = bs \<and> io_eq c (image_at bs off n)"
    by (auto simp: image_at_def io_eq_def split: if_splits)
qed

lemma reads_as_fetch_then:
  assumes "0 < n" and "n < 2 ^ 63"
    and "\<And>x. image_at bs off n = Ok x \<Longrightarrow> reads_as ok image bs (f x) (g x)"
  shows "reads_as ok image bs
    (andThen (from_io (seek_start ops off)) (\<lambda>_. andThen (from_io (read_exact ops n)) f))
    (chain (image_at bs off n) g)"
  using reads_as_andThen [OF reads_as_fetch [OF assms(1,2)] assms(3)] by (simp add: andThen_assoc)

lemma reads_as_alloc_fetch:
  assumes "0 < n" and "n < 2 ^ 63"
    and "\<And>x. image_at bs off n = Ok x \<Longrightarrow> reads_as ok image bs (f x) (g x)"
  shows "reads_as ok image bs
    (andThen (return (zeroed_vec n)) (\<lambda>buf. andThen (from_io (seek_start ops off))
      (\<lambda>_. andThen (read_exact_or_err ops buf) f)))
    (chain (image_at bs off n) g)"
  using reads_as_fetch_then [OF assms] assms(2) by (simp add: zeroed_vec_def read_exact_or_err_def)

end

lemma plaintext_metadata_size_range:
  assumes "plaintext_metadata_size h b = Ok sz"
  shows "0 < unat sz \<and> unat sz < 2 ^ 32"
proof -
  have "sz = ucast (size_field b)" and "size_field b \<noteq> 0"
    using assms by (auto simp: plaintext_metadata_size_eq split: if_splits)
  then have "unat sz = unat (size_field b)" and "0 < unat (size_field b)"
    by (simp_all only: unat_ucast_u32 unat_gt_0 not_False_eq_True)
  then show ?thesis
    using unat_u32_less [of "size_field b"] by simp
qed

lemma locate_length:
  assumes "locate_encrypted_metadata h r = Ok loc" and "vh_block_size h \<noteq> 0"
  shows "unat (em_length loc) = unat (em_block_count loc) * unat (vh_block_size h)"
    and "0 < unat (em_length loc)" and "unat (em_length loc) < 2 ^ 52"
proof -
  let ?c = "count_field r" and ?bs = "vh_block_size h"
  have c: "?c \<noteq> 0" "unat ?c \<le> 2 ^ 20" "em_block_count loc = ?c" "em_length loc = ?c * ucast ?bs"
    using assms(1) by (auto simp: locate_encrypted_metadata_eq not_less split: if_splits)
  have fit: "unat ?c * unat ?bs < 2 ^ 52"
    by (rule count_times_block_size [OF c(2)])
  then have "unat (em_length loc) = unat ?c * unat ?bs"
    using unat_mult_fit [of ?c "ucast ?bs"] by (simp add: c(4))
  then show "unat (em_length loc) = unat (em_block_count loc) * unat ?bs"
    and "0 < unat (em_length loc)" and "unat (em_length loc) < 2 ^ 52"
    using fit assms(2) c by (simp_all add: unat_gt_0)
qed

context image_reader
begin

lemma reads_as_metadata: "reads_as ok image bs (decrypt_metadata_region P ops h) (metadata_spec P bs h)"
proof (cases "vh_block_size h = 0")
  case True
  then show ?thesis
    by (auto simp: decrypt_metadata_region_def metadata_spec_def case_prod_beta)
next
  case False
  let ?bs = "unat (vh_block_size h)"
  have bs: "0 < ?bs" "?bs < 2 ^ 63"
    using False unat_u32_less [of "vh_block_size h"] by (simp_all add: unat_gt_0)
  show ?thesis
    unfolding decrypt_metadata_region_def metadata_spec_def Let_def case_prod_beta
    using bs False plaintext_metadata_size_range locate_length(2,3) [OF _ False]
    by (fastforce intro!: reads_as_alloc_fetch reads_as_pure)
qed

lemma reads_as_header:
  assumes "\<And>h. chain (image_at bs 0 512) parse = Ok h \<Longrightarrow> reads_as ok image bs (f h) (g h)"
  shows "reads_as ok image bs
    (andThen (from_io (seek_start ops 0)) (\<lambda>_.
     andThen (read_exact_or_err ops (replicate VOLUME_HEADER_LEN 0)) (\<lambda>header_bytes.
     andThen (return (parse header_bytes)) f)))
    (chain (chain (image_at bs 0 512) parse) g)"
  unfolding read_exact_or_err_def length_replicate VOLUME_HEADER_LEN_def chain_assoc
  by (intro reads_as_fetch_then reads_as_pure) (simp_all add: assms)

lemma reads_as_info: "reads_as ok image bs (parse_info P ops) (info_spec P bs)"
  unfolding parse_info_def info_spec_def
  by (intro reads_as_header reads_as_andThen [OF reads_as_metadata] reads_as_pure)
    (auto split: prod.split)

end

text \<open>Unlocking, up to the construction of the volume around the reader.\<close>

definition unlock_parts ::
  "prims \<Rightarrow> 'r read_seek \<Rightarrow> bytes \<Rightarrow> ('r, FileVaultError, VolumeKeys \<times> u64 \<times> u64 \<times> FileVaultInfo) action" where
  "unlock_parts P ops password =
    andThen (from_io (seek_start ops 0)) (\<lambda>_.
    andThen (read_exact_or_err ops (replicate VOLUME_HEADER_LEN 0)) (\<lambda>header_bytes.
    andThen (return (parse header_bytes)) (\<lambda>header.
    andThen (decrypt_metadata_region P ops header) (\<lambda>plaintext.
    andThen (return (extract_context P plaintext)) (\<lambda>context.
    andThen (return (extract_lv_info plaintext)) (\<lambda>lv.
    andThen (return (ok_or (parse_uuid_bytes P (lv_family_uuid lv))
        (MetadataStructureMissing ''parseable family UUID''))) (\<lambda>family.
    andThen (return (derive_volume_keys P password context family)) (\<lambda>keys.
    andThen (return (resolve_lv_extent plaintext header lv)) (\<lambda>(base, sz).
    return (Ok (keys, base, sz, build_info P header context lv sz)))))))))))"

definition assemble :: "'r \<Rightarrow> VolumeKeys \<times> u64 \<times> u64 \<times> FileVaultInfo \<Rightarrow> 'r FileVaultVolume" where
  "assemble reader = (\<lambda>(keys, base, sz, info).
    \<lparr>fv_decrypted = DecryptedVolume_new reader keys base sz, fv_info = info\<rparr>)"

lemma unlock_with_password_parts:
  "unlock_with_password P ops password =
    andThen (unlock_parts P ops password) (\<lambda>x reader. Some (reader, Ok (assemble reader x)))"
  unfolding unlock_with_password_def unlock_parts_def
  by (simp add: andThen_assoc split_def assemble_def)

context image_reader
begin

lemma reads_as_unlock_parts: "reads_as ok image bs (unlock_parts P ops pw) (unlock_spec P pw bs)"
  unfolding unlock_parts_def unlock_spec_def
  by (intro reads_as_header reads_as_andThen [OF reads_as_metadata] reads_as_pure)
    (auto split: prod.split)

lemma unlock_image:
  assumes "ok r"
  shows "\<exists>r'. ok r' \<and> image r' = image r \<and>
    (case unlock_spec P pw (image r) of
      Ok x \<Rightarrow> unlock_with_password P ops pw r = Some (r', Ok (assemble r' x))
    | Err e \<Rightarrow> (\<exists>e'. unlock_with_password P ops pw r = Some (r', Err e') \<and>
        (e' = e \<or> (\<exists>i j. e = Io i \<and> e' = Io j)))
    | Panic \<Rightarrow> unlock_with_password P ops pw r = Some (r', Panic))"
proof -
  obtain r' c where r': "unlock_parts P ops pw r = Some (r', c)" "ok r'" "image r' = image r"
      and eq: "io_eq c (unlock_spec P pw (image r))"
    using reads_as_unlock_parts [of "image r" P pw] assms unfolding reads_as_def by blast
  show ?thesis
  proof (intro exI [of _ r'] conjI)
    show "case unlock_spec P pw (image r) of
        Ok x \<Rightarrow> unlock_with_password P ops pw r = Some (r', Ok (assemble r' x))
      | Err e \<Rightarrow> (\<exists>e'. unlock_with_password P ops pw r = Some (r', Err e') \<and>
          (e' = e \<or> (\<exists>i j. e = Io i \<and> e' = Io j)))
      | Panic \<Rightarrow> unlock_with_password P ops pw r = Some (r', Panic)"
      using r'(1) eq
      by (cases "unlock_spec P pw (image r)")
        (auto simp: unlock_with_password_parts andThen_def io_eq_def)
  qed (use r' in auto)
qed

end

text \<open>An unlocked volume reads its plaintext.\<close>

lemma assemble_simps [simp]:
  "FileVaultVolume_info (assemble r (keys, base, sz, info)) = info"
  "FileVaultVolume_size (assemble r (keys, base, sz, info)) = sz"
  "into_decrypted (assemble r (keys, base, sz, info)) = DecryptedVolume_new r keys base sz"
  by (simp_all add: assemble_def FileVaultVolume_info_def FileVaultVolume_size_def DecryptedVolume_size_def
      DecryptedVolume_new_def into_decrypted_def)

context image_reader
begin

lemma assembled_read:
  assumes "ok r" and "xts_documented P" and "keys_ok keys" and "extent_ok base sz" and "n < 2 ^ 64"
  shows "\<exists>v'. FileVaultVolume_read_at P ops off n (assemble r (keys, base, sz, info)) =
      Some (v', Ok (window (unat off) n (plaintext P keys (unat base) (unat sz) (image r)))) \<and>
    FileVaultVolume_info v' = info"
proof -
  let ?dv = "DecryptedVolume_new r keys base sz"
  have "volume_ok P ok ?dv"
    using assms(1-4) by (simp add: volume_ok_def DecryptedVolume_new_def)
  from read_at_plaintext [OF this assms(5), of off]
  obtain r'' where "DecryptedVolume_read_at P ops off n ?dv =
      Some (?dv\<lparr>dv_reader := r''\<rparr>, Ok (window (unat off) n (plaintext P keys (unat base) (unat sz) (image r))))"
    by (auto simp: volume_bytes_def DecryptedVolume_new_def)
  then show ?thesis
    by (simp add: assemble_def FileVaultVolume_read_at_def on_decrypted_def FileVaultVolume_info_def)
qed

end

section \<open>Panics and extents\<close>

lemma decrypt_metadata_no_panic:
  assumes "xts_documented P" and "wf_header h" and "length ct = m * unat (vh_block_size h)"
    and "16 dvd unat (vh_block_size h)" and "length ct < 2 ^ 64"
  shows "\<exists>x. decrypt_metadata P h ct = Ok x \<and> length x = length ct"
proof -
  have "16 dvd length ct"
    using assms(3,4) by simp
  then have "16 dvd length ct mod 8192"
    by (simp add: dvd_mod)
  then have "\<not> (0 < length ct mod 8192 \<and> length ct mod 8192 < 16)"
    by (auto dest: dvd_imp_le)
  moreover have "xts_keyed P (vh_key_data h) (vh_physical_volume_identifier h) 8192"
    using assms by (simp add: xts_keyed_def wf_header_def)
  moreover have "unat (0 :: u128) + length ct div 8192 < 2 ^ 128"
    using assms(5) by simp
  ultimately show ?thesis
    unfolding decrypt_metadata_def METADATA_UNIT_SIZE_def
    using decrypt_units_cases [of P "vh_key_data h" "vh_physical_volume_identifier h" 8192 0 ct]
    by (auto split: if_splits)
qed

text \<open>The extent, with the arithmetic in the integers.\<close>

lemma resolve_lv_extent_eq:
  assumes "length md < 2 ^ 63"
  shows "resolve_lv_extent md h lv =
    Ok (case segments_of md (unat (vh_block_size h)) of
          [] \<Rightarrow> (0, lv_size lv)
        | s # _ \<Rightarrow>
            (saturating_mul (seg_physical_block s) (ucast (vh_block_size h)),
             if lv_size lv \<noteq> 0 then lv_size lv
             else saturating_mul (ucast (seg_number_of_blocks s)) (ucast (vh_block_size h))))"
proof -
  have "unat (vh_block_size h) < 2 ^ 64"
    using unat_u32_less [of "vh_block_size h"] by simp
  then show ?thesis
    using assms by (simp add: resolve_lv_extent_def parse_segments_eq Let_def split: list.split)
qed

lemma plaintext_metadata_size_no_panic: "plaintext_metadata_size h b \<noteq> Panic"
  by (simp add: plaintext_metadata_size_eq)

lemma locate_no_panic: "locate_encrypted_metadata h r \<noteq> Panic"
  by (simp add: locate_encrypted_metadata_eq)

lemma parse_no_panic: "parse b \<noteq> Panic"
  by (simp add: parse_eq)

lemma image_at_no_panic [simp]: "image_at img off n \<noteq> Panic"
  by (simp add: image_at_def)

lemma image_at_length: "image_at img off n = Ok x \<Longrightarrow> length x = n"
  by (auto simp: image_at_def split: if_splits)

text \<open>The metadata, when it is returned, has the located length, so its size is bounded.\<close>

lemma metadata_spec_outcome:
  assumes "xts_documented P" and "wf_header h" and "16 dvd unat (vh_block_size h)"
  shows "metadata_spec P img h \<noteq> Panic"
    and "metadata_spec P img h = Ok md \<Longrightarrow> length md < 2 ^ 52"
proof -
  have dec: "\<exists>x. decrypt_metadata P h ct = Ok x \<and> length x < 2 ^ 52"
    if "vh_block_size h \<noteq> 0" "locate_encrypted_metadata h r = Ok loc"
      "image_at img off (unat (em_length loc)) = Ok ct" for r loc off ct
    using decrypt_metadata_no_panic [OF assms(1,2) _ assms(3), of ct "unat (em_block_count loc)"]
      locate_length [OF that(2,1)] image_at_length [OF that(3)] by auto
  show "metadata_spec P img h \<noteq> Panic"
  proof
    assume "metadata_spec P img h = Panic"
    then obtain r loc off ct where "vh_block_size h \<noteq> 0" "locate_encrypted_metadata h r = Ok loc"
        "image_at img off (unat (em_length loc)) = Ok ct" "decrypt_metadata P h ct = Panic"
      by (auto simp: metadata_spec_def Let_def comp_iff plaintext_metadata_size_no_panic locate_no_panic
          unat_gt_0 split: if_splits)
    with dec show False by force
  qed
  assume "metadata_spec P img h = Ok md"
  then obtain r loc off ct where "vh_block_size h \<noteq> 0" "locate_encrypted_metadata h r = Ok loc"
      "image_at img off (unat (em_length loc)) = Ok ct" "decrypt_metadata P h ct = Ok md"
    by (auto simp: metadata_spec_def Let_def comp_iff unat_gt_0 split: if_splits)
  with dec show "length md < 2 ^ 52" by force
qed

lemma info_spec_no_panic:
  assumes "xts_documented P" and "chain (image_at img 0 512) parse = Ok h" and "16 dvd unat (vh_block_size h)"
  shows "metadata_spec P img h \<noteq> Panic"
    and "metadata_spec P img h = Ok md \<Longrightarrow> resolve_lv_extent md h lv \<noteq> Panic"
proof -
  have wf: "wf_header h"
    using assms(2) by (auto simp: comp_iff parse_wf)
  show "metadata_spec P img h \<noteq> Panic"
    by (rule metadata_spec_outcome(1) [OF assms(1) wf assms(3)])
  assume "metadata_spec P img h = Ok md"
  then have "length md < 2 ^ 63"
    using metadata_spec_outcome(2) [OF assms(1) wf assms(3)] by fastforce
  then show "resolve_lv_extent md h lv \<noteq> Panic"
    by (simp add: resolve_lv_extent_eq)
qed

lemma unlock_spec_keys_ok:
  assumes "kdf_documented P" and "unlock_spec P password bs = Ok (keys, base, sz, info)"
  shows "keys_ok keys"
  using assms derive_volume_keys_keys_ok [OF assms(1)] extract_context_ok
  by (fastforce simp: unlock_spec_def comp_iff)

text \<open>A header, if the image has one, gives a block size that is a multiple of the AES block.\<close>

definition aligned_image :: "bytes \<Rightarrow> bool" where
  "aligned_image img \<longleftrightarrow>
    (case chain (image_at img 0 512) parse of Ok h \<Rightarrow> 16 dvd unat (vh_block_size h) | _ \<Rightarrow> True)"

lemma header_no_panic: "chain (image_at img 0 512) parse \<noteq> Panic"
  by (simp add: comp_iff parse_no_panic)

lemma specs_no_panic:
  assumes "xts_documented P" and "aligned_image img"
  shows "info_spec P img \<noteq> Panic" and "kdf_documented P \<Longrightarrow> unlock_spec P pw img \<noteq> Panic"
proof -
  let ?header = "chain (image_at img 0 512) parse"
  have meta: "metadata_spec P img h \<noteq> Panic" "\<And>md lv. metadata_spec P img h = Ok md \<Longrightarrow> resolve_lv_extent md h lv \<noteq> Panic"
    if "?header = Ok h" for h
    using info_spec_no_panic [OF assms(1) that] that assms(2) by (simp_all add: aligned_image_def)
  show "info_spec P img \<noteq> Panic"
    unfolding info_spec_def using header_no_panic [of img] meta
    by (cases ?header)
      (fastforce simp: comp_iff extract_context_no_panic extract_lv_info_no_panic simp del: chain_assoc)+
  assume "kdf_documented P"
  then show "unlock_spec P pw img \<noteq> Panic"
    unfolding unlock_spec_def using header_no_panic [of img] meta
    by (cases ?header)
      (fastforce simp: comp_iff extract_context_no_panic extract_lv_info_no_panic
        derive_volume_keys_no_panic simp del: chain_assoc)+
qed

text \<open>The ciphertext of the metadata, and when reading the information panics.\<close>

definition ciphertext_spec :: "bytes \<Rightarrow> VolumeHeader \<Rightarrow> bytes fv" where
  "ciphertext_spec img header =
    (let region_offset = fst (plaintext_metadata_region header);
         block_size = unat (vh_block_size header)
     in
     if block_size = 0 then Err (OutOfRange ''block size is zero'')
     else
       chain (image_at img region_offset block_size) (\<lambda>first_block.
       chain (plaintext_metadata_size header first_block) (\<lambda>region_size.
       chain (image_at img region_offset (unat region_size)) (\<lambda>region.
       chain (locate_encrypted_metadata header region) (\<lambda>location.
       image_at img (em_primary_offset location) (unat (em_length location)))))))"

lemma metadata_spec_ciphertext: "metadata_spec P img h = chain (ciphertext_spec img h) (decrypt_metadata P h)"
  by (simp add: metadata_spec_def ciphertext_spec_def Let_def)

lemma ciphertext_spec_no_panic: "ciphertext_spec img h \<noteq> Panic"
  by (simp add: ciphertext_spec_def Let_def comp_iff plaintext_metadata_size_no_panic locate_no_panic)

lemma ciphertext_spec_length:
  assumes "ciphertext_spec img h = Ok ct"
  shows "length ct < 2 ^ 52"
proof -
  obtain r loc off where "vh_block_size h \<noteq> 0" "locate_encrypted_metadata h r = Ok loc"
      "image_at img off (unat (em_length loc)) = Ok ct"
    using assms by (auto simp: ciphertext_spec_def Let_def comp_iff unat_gt_0 split: if_splits)
  then show ?thesis
    using locate_length(3) image_at_length by metis
qed

definition short_unit :: "bytes \<Rightarrow> bool" where
  "short_unit ct \<longleftrightarrow> 0 < length ct mod 8192 \<and> length ct mod 8192 < 16"

lemma decrypt_metadata_short_unit:
  assumes "xts_documented P" and "wf_header h" and "length ct < 2 ^ 52"
  shows "decrypt_metadata P h ct = Panic \<longleftrightarrow> short_unit ct"
    and "decrypt_metadata P h ct = Ok md \<Longrightarrow> length md < 2 ^ 52"
proof -
  have "xts_keyed P (vh_key_data h) (vh_physical_volume_identifier h) 8192"
    using assms by (simp add: xts_keyed_def wf_header_def)
  moreover have "unat (0 :: u128) + length ct div 8192 < 2 ^ 128"
    using assms(3) by simp
  ultimately have "if short_unit ct then decrypt_metadata P h ct = Panic
      else \<exists>x. decrypt_metadata P h ct = Ok x \<and> length x = length ct"
    unfolding decrypt_metadata_def METADATA_UNIT_SIZE_def short_unit_def by (rule decrypt_units_cases)
  then show "decrypt_metadata P h ct = Panic \<longleftrightarrow> short_unit ct"
    and "decrypt_metadata P h ct = Ok md \<Longrightarrow> length md < 2 ^ 52"
    using assms(3) by (auto split: if_splits)
qed

lemma info_spec_Panic:
  assumes "xts_documented P"
  shows "info_spec P img = Panic \<longleftrightarrow>
    (\<exists>h ct. chain (image_at img 0 512) parse = Ok h \<and> ciphertext_spec img h = Ok ct \<and> short_unit ct)"
proof (cases "chain (image_at img 0 512) parse")
  case (Ok h)
  have wf: "wf_header h"
    using Ok by (auto simp: comp_iff parse_wf)
  have "resolve_lv_extent md h lv \<noteq> Panic" if "metadata_spec P img h = Ok md" for md lv
  proof -
    have "length md < 2 ^ 63"
      using that decrypt_metadata_short_unit(2) [OF assms wf] ciphertext_spec_length
      by (fastforce simp: metadata_spec_ciphertext comp_iff)
    then show ?thesis
      by (simp add: resolve_lv_extent_eq)
  qed
  then have "info_spec P img = Panic \<longleftrightarrow> metadata_spec P img h = Panic"
    by (auto simp: info_spec_def Ok comp_iff extract_context_no_panic extract_lv_info_no_panic
        simp del: chain_assoc)
  also have "\<dots> \<longleftrightarrow> (\<exists>ct. ciphertext_spec img h = Ok ct \<and> short_unit ct)"
    using decrypt_metadata_short_unit(1) [OF assms wf] ciphertext_spec_length ciphertext_spec_no_panic
    by (auto simp: metadata_spec_ciphertext comp_iff)
  finally show ?thesis
    using Ok by simp
next
  case (Err e)
  then show ?thesis
    by (simp add: info_spec_def del: chain_assoc)
next
  case Panic
  then show ?thesis
    using header_no_panic by blast
qed

section \<open>Independence of the password\<close>

lemma kek_loop_base64:
  "base64_decode P = base64_decode Q \<Longrightarrow> kek_loop P md c = kek_loop Q md c"
proof (induction P md c rule: kek_loop.induct)
  case (1 P md c)
  have ed: "extract_data P = extract_data Q"
    unfolding extract_data_def "1.prems" by (rule refl)
  show ?case
    using "1.IH" "1.prems"
    by (subst (1 2) kek_loop.simps) (auto simp: ed simp del: str_Cons split: option.split)
qed

lemma extract_context_base64:
  assumes "base64_decode P = base64_decode Q"
  shows "extract_context P md = extract_context Q md"
proof -
  have "extract_data P = extract_data Q"
    unfolding extract_data_def assms by (rule refl)
  then show ?thesis
    using kek_loop_base64 [OF assms]
    by (simp add: extract_context_def extract_kek_wrapped_aes_xts_def del: str_Cons)
qed

section \<open>Properties\<close>

text \<open>
  C17 Auditing a locked volume is a function of the image alone: over every conforming reader
  \<open>parse_info\<close> returns, leaves the image untouched, and its result is \<open>info_spec\<close> of the image's bytes
  (up to which I/O error the reader reports where the image is too short). Short reads,
  interruptions and the reader's initial position make no difference.
\<close>

theorem parse_info_of_image:
  assumes "image_reader ops ok img pos patience" and "ok r"
  shows "\<exists>r' c. parse_info P ops r = Some (r', c) \<and> ok r' \<and> img r' = img r \<and> io_eq c (info_spec P (img r))"
  using image_reader.reads_as_info [OF assms(1), of "img r" P] assms(2) unfolding reads_as_def by blast

lemma from_le_zeros: "from_le_bytes (replicate n 0) = (0 :: 'w::len word)"
  by (induction n) simp_all

lemma zero_header_image: "chain (image_at (replicate 512 0) 0 512) parse = Err (NotCoreStorage 0)"
  by (simp add: image_at_def parse_eq field_at_def const_defs from_le_zeros)

theorem parse_info_of_image_witness:
  "\<exists>r'. parse_info demo_prims cursor_ops (cursor_new (replicate 512 0)) = Some (r', Err (NotCoreStorage 0))"
proof -
  have "info_spec demo_prims (replicate 512 0) = Err (NotCoreStorage 0)"
    by (simp add: info_spec_def zero_header_image del: chain_assoc)
  then show ?thesis
    using parse_info_of_image [OF cur.image_reader_axioms, of "cursor_new (replicate 512 0)" demo_prims]
    by (auto simp: cursor_ok_def cursor_new_def io_eq_def)
qed

text \<open>
  C18 Unlocking is a function of the image and the password: over every conforming reader
  \<open>unlock_with_password\<close> returns; it returns the volume assembled around the reader from the keys,
  extent and information that \<open>unlock_spec\<close> computes from the image's bytes, and fails exactly where
  \<open>unlock_spec\<close> fails, with the same error (up to which I/O error a short image gives).
\<close>

theorem unlock_of_image:
  assumes "image_reader ops ok img pos patience" and "ok r"
  shows "\<exists>r'. ok r' \<and> img r' = img r \<and>
    (case unlock_spec P password (img r) of
      Ok x \<Rightarrow> unlock_with_password P ops password r = Some (r', Ok (assemble r' x))
    | Err e \<Rightarrow> (\<exists>e'. unlock_with_password P ops password r = Some (r', Err e') \<and>
        (e' = e \<or> (\<exists>i j. e = Io i \<and> e' = Io j)))
    | Panic \<Rightarrow> unlock_with_password P ops password r = Some (r', Panic))"
  by (rule image_reader.unlock_image [OF assms])

theorem unlock_of_image_witness:
  "\<exists>r'. unlock_with_password demo_prims cursor_ops (str ''pw'') (cursor_new (replicate 512 0)) =
    Some (r', Err (NotCoreStorage 0))"
proof -
  have "unlock_spec demo_prims (str ''pw'') (replicate 512 0) = Err (NotCoreStorage 0)"
    by (simp add: unlock_spec_def zero_header_image del: chain_assoc)
  then show ?thesis
    using unlock_of_image [OF cur.image_reader_axioms, of "cursor_new (replicate 512 0)" demo_prims "str ''pw''"]
    by (auto simp: cursor_ok_def cursor_new_def)
qed

lemma unlock_info_parts:
  assumes "unlock_parts P ops pw r = Some (r', Ok (keys, base, sz, info))"
  shows "parse_info P ops r = Some (r', Ok info)" and "fvi_lv_size info = sz"
  using assms unfolding unlock_parts_def parse_info_def
  by (auto simp: andThen_eq_Ok return_eq_Some build_info_def split: prod.splits)

text \<open>
  C20 What an unlocked volume says about itself is what the audit of the locked volume says: when
  unlocking succeeds, \<open>parse_info\<close> on the same reader succeeds with the very same information, the
  size in it is the size of the volume, and the volume starts at position zero. This holds for every
  reader, conforming or not, since both read the same things in the same order.
\<close>

theorem unlock_agrees_with_parse_info:
  "case unlock_with_password P ops password r of
     Some (r', Ok v) \<Rightarrow>
       parse_info P ops r = Some (r', Ok (FileVaultVolume_info v)) \<and>
       fvi_lv_size (FileVaultVolume_info v) = FileVaultVolume_size v \<and>
       dv_reader (into_decrypted v) = r' \<and> dv_position (into_decrypted v) = 0
   | _ \<Rightarrow> True"
proof -
  have "parse_info P ops r = Some (r', Ok (fv_info v)) \<and> fvi_lv_size (fv_info v) = dv_size (fv_decrypted v) \<and>
      dv_reader (fv_decrypted v) = r' \<and> dv_position (fv_decrypted v) = 0"
    if u: "unlock_with_password P ops password r = Some (r', Ok v)" for r' v
  proof -
    obtain keys base sz info where parts: "unlock_parts P ops password r = Some (r', Ok (keys, base, sz, info))"
      and v: "v = assemble r' (keys, base, sz, info)"
      using u by (auto simp: unlock_with_password_parts andThen_eq_Ok)
    show ?thesis
      using unlock_info_parts [OF parts] by (simp add: v assemble_def DecryptedVolume_new_def)
  qed
  then show ?thesis
    by (auto simp: FileVaultVolume_info_def FileVaultVolume_size_def DecryptedVolume_size_def
        into_decrypted_def split: option.split prod.split comp.split)
qed

text \<open>
  C21 Auditing never unwraps a key: \<open>parse_info\<close> gives the same result whatever the key derivation,
  the key unwrap, the hash and the UUID parser do.
\<close>

theorem parse_info_password_independent:
  "parse_info (P\<lparr>pbkdf2_sha256 := kdf, kw_unwrap := unwrap, sha256 := hash, uuid_parse := up\<rparr>) ops r =
    parse_info P ops r"
proof -
  let ?Q = "P\<lparr>pbkdf2_sha256 := kdf, kw_unwrap := unwrap, sha256 := hash, uuid_parse := up\<rparr>"
  have "decrypt_metadata ?Q = decrypt_metadata P"
    by (intro ext) (simp add: decrypt_metadata_def decrypt_units_def)
  then have "decrypt_metadata_region ?Q ops = decrypt_metadata_region P ops"
    by (intro ext) (simp only: decrypt_metadata_region_def)
  moreover have "extract_context ?Q = extract_context P"
    by (intro ext extract_context_base64) simp
  ultimately show ?thesis
    by (simp add: parse_info_def build_info_def format_uuid_def)
qed

text \<open>
  C19 No panic: over every conforming reader, for an image whose block size is a multiple of sixteen
  (every size the format uses is), auditing and unlocking return a result or an error and never
  panic, whatever else the image holds: no out-of-range access, no arithmetic overflow, no oversized
  allocation, no short XTS unit.
\<close>

theorem bootstrap_no_panic:
  assumes "image_reader ops ok img pos patience" and "ok r"
    and "xts_documented P" and "kdf_documented P" and "aligned_image (img r)"
  shows "\<exists>r1 r2 c1 c2. parse_info P ops r = Some (r1, c1) \<and> c1 \<noteq> Panic \<and>
    unlock_with_password P ops password r = Some (r2, c2) \<and> c2 \<noteq> Panic"
proof -
  obtain r1 c1 where "parse_info P ops r = Some (r1, c1)" "io_eq c1 (info_spec P (img r))"
    using image_reader.reads_as_info [OF assms(1), of "img r" P] assms(2) unfolding reads_as_def by blast
  moreover have "c1 \<noteq> Panic"
    using calculation(2) specs_no_panic(1) [OF assms(3,5)] by (auto dest: io_eq_PanicD)
  moreover have "\<exists>r2 c2. unlock_with_password P ops password r = Some (r2, c2) \<and> c2 \<noteq> Panic"
    using image_reader.unlock_image [OF assms(1,2), of P password] specs_no_panic(2) [OF assms(3,5,4)]
    by (fastforce split: comp.splits)
  ultimately show ?thesis by blast
qed

theorem bootstrap_no_panic_witness:
  "\<exists>r1 c1. parse_info demo_prims cursor_ops (cursor_new (encode_header sample_header (replicate 512 0))) =
    Some (r1, c1) \<and> c1 \<noteq> Panic"
proof -
  let ?img = "encode_header sample_header (replicate 512 0)"
  have wf: "wf_header sample_header"
    by (simp add: wf_header_def sample_header_def)
  then have len: "length ?img = 512"
    by (intro length_encode_header) simp_all
  have "aligned_image ?img"
    using len parse_encode [OF wf, of "replicate 512 0"]
    by (simp add: aligned_image_def image_at_def) (simp add: sample_header_def)
  moreover have "cursor_ok (cursor_new ?img)"
    by (simp add: cursor_ok_def cursor_new_def len)
  ultimately show ?thesis
    using bootstrap_no_panic [OF cur.image_reader_axioms, of "cursor_new ?img" demo_prims "[]"] demo_documented
    by (auto simp: cursor_new_def)
qed

text \<open>
  The extent of the logical volume never overflows and never panics: without a segment the base
  is 0 and the size that of the plist; with one, the base is the first segment's block number times
  the block size, and the size is that of the plist unless it is 0, when it is the segment's number
  of blocks times the block size, both capped at the largest 64-bit number.
\<close>

theorem resolve_lv_extent_outcome:
  assumes "length md < 2 ^ 63"
  shows "\<exists>base sz. resolve_lv_extent md h lv = Ok (base, sz) \<and>
    (case segments_of md (unat (vh_block_size h)) of
      [] \<Rightarrow> base = 0 \<and> sz = lv_size lv
    | s # _ \<Rightarrow>
        unat base = min (unat (seg_physical_block s) * unat (vh_block_size h)) (2 ^ 64 - 1) \<and>
        unat sz = (if lv_size lv \<noteq> 0 then unat (lv_size lv)
          else min (unat (seg_number_of_blocks s) * unat (vh_block_size h)) (2 ^ 64 - 1)))"
  using unat_saturating_mul [where ?'w = 64]
  by (auto simp: resolve_lv_extent_eq [OF assms] split: list.split)

theorem resolve_lv_extent_outcome_witness:
  "resolve_lv_extent (encode_segment_block 4096 7
      [\<lparr>seg_logical_block = 0, seg_physical_block = 16384, seg_number_of_blocks = 3\<rparr>] @ [])
      sample_header \<lparr>lv_size = 0, lv_family_uuid = [], lv_identifier = None, lv_name = None\<rparr> =
    Ok (67108864, 12288)"
proof -
  let ?e = "\<lparr>seg_logical_block = 0, seg_physical_block = 16384, seg_number_of_blocks = 3\<rparr>"
  let ?md = "encode_segment_block 4096 7 [?e] @ []"
  have "length ?md < 2 ^ 63"
    by (simp add: encode_segment_block_def)
  moreover have "segments_of ?md (unat (vh_block_size sample_header)) = [?e]"
    using segments_of_encoded [of "[?e]" 4096 7 "[]"] by (simp add: sample_header_def)
  ultimately show ?thesis
    using resolve_lv_extent_outcome [of ?md sample_header
        "\<lparr>lv_size = 0, lv_family_uuid = [], lv_identifier = None, lv_name = None\<rparr>"]
    by (auto simp: sample_header_def word_unat_eq_iff)
qed

end
