(* ===== verification/Sample.thy ===== *)
theory Sample
  imports FileVault
begin

text \<open>
  Concrete images, so that the properties of the entry points can be shown to apply: a small volume
  that unlocks with one password and not with another, and an image whose metadata ends in a
  four-byte unit. The cryptographic functions are those of \<open>demo_prims\<close>.
\<close>

section \<open>The pointer block\<close>

text \<open>
  A plaintext metadata block of at least 512 bytes: the type, the size of the region, the offset of
  the volume-groups descriptor, its block count and its primary block number.
\<close>

definition pointer_block :: "nat \<Rightarrow> u64 \<Rightarrow> u64 \<Rightarrow> bytes" where
  "pointer_block n cnt primary =
    copy_at 288 (to_le_bytes 8 primary)
    (copy_at 264 (to_le_bytes 8 cnt)
    (copy_at 220 (to_le_bytes 4 (256 :: u32))
    (copy_at 64 (to_le_bytes 4 (of_nat n :: u32))
    (copy_at 10 (to_le_bytes 2 (0x0011 :: u16)) (replicate n 0)))))"

lemma length_pointer_block: "512 \<le> n \<Longrightarrow> length (pointer_block n cnt primary) = n"
  by (simp add: pointer_block_def)

lemma pointer_block_fields:
  assumes "512 \<le> n"
  shows "type_field (pointer_block n cnt primary) = 0x0011"
    and "size_field (pointer_block n cnt primary) = of_nat n"
    and "(field_at 4 from_le_bytes 0 (pointer_block n cnt primary) 220 :: u32) = 256"
    and "field_at 8 from_le_bytes 0 (pointer_block n cnt primary) 264 = cnt"
    and "field_at 8 from_le_bytes 0 (pointer_block n cnt primary) 288 = primary"
  using assms by (simp_all add: pointer_block_def field_copied from_le_to_le)

lemma pointer_block_size:
  assumes "512 \<le> n" and "n < 2 ^ 31" and "vh_block_size h = of_nat n"
  shows "plaintext_metadata_size h (pointer_block n cnt primary) = Ok (of_nat n)"
proof -
  have u: "unat (of_nat n :: u32) = n"
    using assms(2) by (intro unat_of_nat_fit) simp
  then have nz: "(of_nat n :: u32) \<noteq> 0"
    using assms(1) by (metis not_numeral_le_zero unsigned_0)
  have "n div n \<le> 2 ^ 20"
    using assms(1) by simp
  moreover have "(ucast (of_nat n :: u32) :: u64) = of_nat n"
    by (metis of_nat_unat u)
  ultimately show ?thesis
    using assms nz by (simp add: plaintext_metadata_size_eq pointer_block_fields u)
qed

lemma pointer_block_location:
  assumes "512 \<le> n" and "n < 2 ^ 31" and "vh_block_size h = of_nat n"
    and "0 < unat cnt" and "unat cnt \<le> 2 ^ 20" and "unat primary < 2 ^ 20"
  shows "locate_encrypted_metadata h (pointer_block n cnt primary) =
    Ok \<lparr>em_primary_offset = primary * of_nat n, em_block_count = cnt, em_length = cnt * of_nat n\<rparr>"
proof -
  have u: "unat (of_nat n :: u32) = n"
    using assms(2) by (intro unat_of_nat_fit) simp
  have p: "primary AND BLOCK_NUMBER_MASK = primary"
    using assms(6) by (simp add: word_unat_eq_iff unat_block_number)
  have c: "(ucast (of_nat n :: u32) :: u64) = of_nat n"
    by (metis of_nat_unat u)
  have "unat primary * n < 2 ^ 20 * 2 ^ 31"
    using assms(1,2,6) by (intro mult_strict_mono) simp_all
  then show ?thesis
    using assms by (simp add: locate_encrypted_metadata_eq pointer_block_fields length_pointer_block u p c
        unat_gt_0 not_le)
qed

section \<open>The layout of an image\<close>

text \<open>The header, the pointer block as block 1, the encrypted metadata from block 2 on, the rest.\<close>

definition layout :: "nat \<Rightarrow> VolumeHeader \<Rightarrow> u64 \<Rightarrow> bytes \<Rightarrow> bytes \<Rightarrow> bytes" where
  "layout n h cnt md rest =
    (encode_header h (replicate 512 0) @ replicate (n - 512) 0) @ pointer_block n cnt 2 @ md @ rest"

definition plain_header :: "nat \<Rightarrow> VolumeHeader" where
  "plain_header n =
    \<lparr>vh_block_size = of_nat n, vh_bytes_per_sector = 512, vh_physical_volume_size = 0,
     vh_metadata_block_numbers = [1, 0, 0, 0],
     vh_key_data = replicate 16 0x18, vh_physical_volume_identifier = replicate 16 0x32\<rparr>"

lemma wf_plain_header: "wf_header (plain_header n)"
  by (simp add: wf_header_def plain_header_def)

lemma length_plain_encoded: "length (encode_header (plain_header n) (replicate 512 0)) = 512"
  by (intro length_encode_header wf_plain_header) simp

lemma layout_header: "chain (image_at (layout n (plain_header n) cnt md rest) 0 512) parse = Ok (plain_header n)"
  using parse_encode [OF wf_plain_header, of "replicate 512 0" n]
  by (simp add: image_at_def layout_def length_plain_encoded)

lemma layout_ciphertext:
  assumes "512 \<le> n" and "n < 2 ^ 31" and "0 < unat cnt" and "unat cnt \<le> 2 ^ 20"
    and "length md = unat cnt * n"
  shows "ciphertext_spec (layout n (plain_header n) cnt md rest) (plain_header n) = Ok md"
proof -
  let ?h = "plain_header n" and ?img = "layout n (plain_header n) cnt md rest"
  have u: "unat (of_nat n :: u32) = n" and u64: "unat (of_nat n :: u64) = n"
    using assms(2) by (intro unat_of_nat_fit, simp)+
  have bs: "vh_block_size ?h = of_nat n"
    by (simp add: plain_header_def)
  have c: "(ucast (of_nat n :: u32) :: u64) = of_nat n"
    by (metis of_nat_unat u)
  have region: "fst (plaintext_metadata_region ?h) = of_nat n"
    using assms(2) u64
    by (simp add: plaintext_metadata_region_def Let_def plain_header_def saturating_mul_def c)
  have one: "image_at ?img (of_nat n) n = Ok (pointer_block n cnt 2)"
    using assms(1) u64 by (simp add: image_at_def layout_def length_plain_encoded length_pointer_block)
  have "unat cnt * n < 2 ^ 20 * 2 ^ 31 + 1"
    using mult_le_mono [OF assms(4), of n "2 ^ 31"] assms(2) by simp
  then have len: "unat (cnt * of_nat n) = unat cnt * n"
    using unat_mult_fit [of cnt "of_nat n"] u64 by simp
  have off: "unat (2 * of_nat n :: u64) = 2 * n"
    using unat_mult_fit [of 2 "of_nat n :: u64"] u64 assms(2) by simp
  have two: "image_at ?img (2 * of_nat n) (unat (cnt * of_nat n)) = Ok md"
    unfolding len using assms(1,5) off
    by (simp add: image_at_def layout_def length_plain_encoded length_pointer_block)
  show ?thesis
    using assms(1) pointer_block_size [OF assms(1,2) bs, of cnt 2]
      pointer_block_location [OF assms(1,2) bs assms(3,4), of 2]
    by (simp add: ciphertext_spec_def Let_def region bs u u64 one two)
qed

section \<open>A volume that unlocks\<close>

definition sample_password :: bytes where
  "sample_password = replicate 16 0x41"

definition pass_struct :: bytes where
  "pass_struct = replicate 32 1 @ (replicate 8 0x41 @ replicate 16 2) @ replicate 116 1"

definition vmk_struct :: bytes where
  "vmk_struct = replicate 8 1 @ replicate 8 2 @ replicate 16 3"

definition pass_pair :: bytes where
  "pass_pair = data_pair (str ''PassphraseWrappedKEKStruct'') [] [] pass_struct"

definition algo_pair :: bytes where
  "algo_pair = string_pair (str ''BlockAlgorithm'') [] [] (str ''AES-XTS'')"

definition vmk_pair :: bytes where
  "vmk_pair = data_pair (str ''KEKWrappedVolumeKeyStruct'') [] [] vmk_struct"

definition size_pair :: bytes where
  "size_pair = integer_pair (str ''com.apple.corestorage.lv.size'') [] [] (integer_text True (9 :: u64))"

definition family_pair :: bytes where
  "family_pair = string_pair (str ''com.apple.corestorage.lv.familyUUID'') [] [] (replicate 16 0x61)"

definition sample_segment :: SegmentEntry where
  "sample_segment = \<lparr>seg_logical_block = 0, seg_physical_block = 5, seg_number_of_blocks = 1\<rparr>"

definition sample_metadata :: bytes where
  "sample_metadata =
    (let text = encode_segment_block 512 0 [sample_segment] @ pass_pair @ algo_pair @ vmk_pair @ size_pair @ family_pair
     in text @ replicate (1536 - length text) 0)"

definition sample_image :: bytes where
  "sample_image = layout 512 (plain_header 512) 3 sample_metadata (replicate 512 7)"

lemma integer_text_nine: "integer_text True (9 :: u64) = str ''0x9''"
  by (simp add: integer_text_def show_radix_small digit_byte)

lemmas pair_defs = pass_pair_def algo_pair_def vmk_pair_def size_pair_def family_pair_def
  data_pair_def string_pair_def integer_pair_def tagged_value_def key_tag_def integer_text_nine
  pass_struct_def vmk_struct_def

lemma pair_lengths:
  "length pass_pair = 226" "length algo_pair = 53" "length vmk_pair = 85" "length size_pair = 62"
  "length family_pair = 83"
  by (simp_all add: pair_defs)

lemma length_sample_segment_block: "length (encode_segment_block 512 0 [sample_segment]) = 512"
  by (simp add: encode_segment_block_def)

text \<open>Bytes that do not occur before a key.\<close>

lemma fresh_bytes:
  "0x3C \<notin> set (encode_segment_block 512 0 [sample_segment])"
  "0x42 \<notin> set (encode_segment_block 512 0 [sample_segment])"
  "0x7A \<notin> set (encode_segment_block 512 0 [sample_segment])"
  "0x55 \<notin> set (encode_segment_block 512 0 [sample_segment])"
  "0x42 \<notin> set pass_pair" "0x7A \<notin> set pass_pair" "0x55 \<notin> set pass_pair"
  "0x7A \<notin> set algo_pair" "0x55 \<notin> set algo_pair" "0x7A \<notin> set vmk_pair" "0x55 \<notin> set vmk_pair"
  "0x55 \<notin> set size_pair"
  by (simp_all add: encode_segment_block_def encode_segment_def sample_segment_def const_defs
      to_le_bytes_def upt_rec pair_defs)

lemma sample_metadata_eq:
  "sample_metadata = encode_segment_block 512 0 [sample_segment] @ pass_pair @ algo_pair @ vmk_pair @
    size_pair @ family_pair @ replicate 515 0"
  by (simp add: sample_metadata_def Let_def pair_lengths length_sample_segment_block)

lemma length_sample_metadata: "length sample_metadata = 1536"
  by (simp add: sample_metadata_eq pair_lengths length_sample_segment_block)

lemma sample_pass: "extract_data demo_prims sample_metadata (str ''PassphraseWrappedKEKStruct'') = Some pass_struct"
proof -
  let ?S = "encode_segment_block 512 0 [sample_segment]"
  have "extract_data demo_prims sample_metadata (str ''PassphraseWrappedKEKStruct'') =
      (let t = filter (\<lambda>b. \<not> is_ascii_whitespace b) pass_struct
       in if length t \<le> MAX_BASE64_BLOB then base64_decode demo_prims t else None)"
  proof (rule extract_data_printed [where pre = ?S and gap = "[]" and attrs = "[]"])
    show "sample_metadata = ?S @ data_pair (str ''PassphraseWrappedKEKStruct'') [] [] pass_struct @
        algo_pair @ vmk_pair @ size_pair @ family_pair @ replicate 515 0"
      by (simp add: sample_metadata_eq pass_pair_def)
    show "clear_of (key_tag (str ''PassphraseWrappedKEKStruct'')) ?S"
      by (rule clear_of_byte [OF fresh_bytes(1), of 0]) (simp_all add: key_tag_def)
    show "0x3C \<notin> set pass_struct"
      by (simp add: pass_struct_def)
  qed (simp_all add: length_sample_metadata)
  also have "filter (\<lambda>b. \<not> is_ascii_whitespace b) pass_struct = pass_struct"
    by (simp add: pass_struct_def is_ascii_whitespace_def)
  finally show ?thesis
    by (simp add: pass_struct_def MAX_BASE64_BLOB_def demo_prims_def)
qed

lemma sample_algorithm:
  "algorithms sample_metadata 0 =
    Some (str ''AES-XTS'', length (encode_segment_block 512 0 [sample_segment] @ pass_pair @ algo_pair))"
proof -
  let ?S = "encode_segment_block 512 0 [sample_segment]"
  have fresh: "0x42 \<notin> set (?S @ pass_pair)"
    using fresh_bytes by simp
  have "extract_tagged_from sample_metadata (str ''BlockAlgorithm'') (str ''<string ID='') (str ''</string>'')
      (length ([] :: bytes)) = Some (str ''AES-XTS'', length ([] @ (?S @ pass_pair) @ tagged_value (str ''BlockAlgorithm'') []
        (str ''<string ID='') [] (str ''AES-XTS'') (str ''</string>'')))"
  proof (rule scan_pair [where ct = "str ''/string>''"])
    show "sample_metadata = [] @ (?S @ pass_pair) @ tagged_value (str ''BlockAlgorithm'') []
        (str ''<string ID='') [] (str ''AES-XTS'') (str ''</string>'') @
        vmk_pair @ size_pair @ family_pair @ replicate 515 0"
      by (simp add: sample_metadata_eq algo_pair_def string_pair_def)
    show "clear_of (key_tag (str ''BlockAlgorithm'')) (?S @ pass_pair)"
      by (rule clear_of_byte [OF fresh, of 5]) (simp_all add: key_tag_def)
  qed (simp_all add: length_sample_metadata)
  then show ?thesis
    by (simp add: algo_pair_def string_pair_def)
qed

lemma sample_vmk: "extract_kek_wrapped_aes_xts demo_prims sample_metadata = Some vmk_struct"
proof -
  let ?pre = "encode_segment_block 512 0 [sample_segment] @ pass_pair @ algo_pair"
  have drop: "drop (length ?pre) sample_metadata = vmk_pair @ size_pair @ family_pair @ replicate 515 0"
    by (simp add: sample_metadata_eq)
  have "extract_data demo_prims (vmk_pair @ size_pair @ family_pair @ replicate 515 0)
      (str ''KEKWrappedVolumeKeyStruct'') =
      (let t = filter (\<lambda>b. \<not> is_ascii_whitespace b) vmk_struct
       in if length t \<le> MAX_BASE64_BLOB then base64_decode demo_prims t else None)"
  proof (rule extract_data_printed [where pre = "[]" and gap = "[]" and attrs = "[]"])
    show "vmk_pair @ size_pair @ family_pair @ replicate 515 0 =
        [] @ data_pair (str ''KEKWrappedVolumeKeyStruct'') [] [] vmk_struct @ size_pair @ family_pair @ replicate 515 0"
      by (simp add: vmk_pair_def)
    show "0x3C \<notin> set vmk_struct"
      by (simp add: vmk_struct_def)
  qed (simp_all add: pair_lengths)
  also have "filter (\<lambda>b. \<not> is_ascii_whitespace b) vmk_struct = vmk_struct"
    by (simp add: vmk_struct_def is_ascii_whitespace_def)
  finally have data: "extract_data demo_prims (vmk_pair @ size_pair @ family_pair @ replicate 515 0)
      (str ''KEKWrappedVolumeKeyStruct'') = Some vmk_struct"
    by (simp add: vmk_struct_def MAX_BASE64_BLOB_def demo_prims_def)
  have "scan_run (algorithms sample_metadata) 0 ([] @ [str ''AES-XTS'']) (length ?pre)"
    unfolding append_Nil scan_run_Cons using sample_algorithm by (simp del: str_Cons)
  then show ?thesis
    unfolding extract_kek_wrapped_aes_xts_def kek_loop_run using data
    by (intro exI [of _ "[]"] exI [of _ "length ?pre"]) (simp add: drop del: str_Cons length_append)
qed

lemma sample_lv_size: "extract_lv_size sample_metadata = Some 9"
proof (rule extract_lv_size_carried)
  let ?pre = "encode_segment_block 512 0 [sample_segment] @ pass_pair @ algo_pair @ vmk_pair"
  have fresh: "0x7A \<notin> set ?pre"
    using fresh_bytes by simp
  show "carries_integer sample_metadata ''com.apple.corestorage.lv.size'' (integer_text True (9 :: u64))"
    by (rule carriesI [OF _ _ fresh, where post = "family_pair @ replicate 515 0" and k = 32])
      (simp_all add: sample_metadata_eq size_pair_def key_tag_def)
qed (simp add: length_sample_metadata)

lemma sample_family:
  "extract_string sample_metadata (str ''com.apple.corestorage.lv.familyUUID'') = Some (replicate 16 0x61)"
proof (rule extract_string_carried)
  let ?pre = "encode_segment_block 512 0 [sample_segment] @ pass_pair @ algo_pair @ vmk_pair @ size_pair"
  have fresh: "0x55 \<notin> set ?pre"
    using fresh_bytes by simp
  show "carries_string sample_metadata ''com.apple.corestorage.lv.familyUUID'' (replicate 16 0x61)"
    by (rule carriesI [OF _ _ fresh, where post = "replicate 515 0" and k = 36])
      (simp_all add: sample_metadata_eq family_pair_def key_tag_def)
  show "utf8_valid (replicate 16 0x61)"
    by (rule utf8_valid_ascii) simp
qed (simp_all add: length_sample_metadata)

definition sample_ctx :: EncryptionContext where
  "sample_ctx = \<lparr>ec_salt = replicate 16 1, ec_iterations = 0x01010101,
    ec_wrapped_kek = replicate 8 0x41 @ replicate 16 2, ec_wrapped_vmk = replicate 8 2 @ replicate 16 3,
    ec_protectors = extract_protectors sample_metadata,
    ec_conversion_status = extract_string sample_metadata (str ''ConversionStatus'')\<rparr>"

definition sample_lv_info :: LogicalVolumeInfo where
  "sample_lv_info = \<lparr>lv_size = 9, lv_family_uuid = replicate 16 0x61,
    lv_identifier = extract_string sample_metadata (str ''com.apple.corestorage.lv.uuid''),
    lv_name = extract_string sample_metadata (str ''com.apple.corestorage.lv.name'')\<rparr>"

definition sample_keys :: VolumeKeys where
  "sample_keys = \<lparr>vk_vmk = replicate 16 3, vk_tweak_key = replicate 16 3\<rparr>"

lemma sample_context: "extract_context demo_prims sample_metadata = Ok sample_ctx"
proof -
  have it: "from_le_bytes (replicate 4 1) = (0x01010101 :: u32)"
    by (simp add: numeral_eq_Suc)
  have pw: "slice16 pass_struct PW_SALT_OFFSET = Some (replicate 16 1)"
      "slice24 pass_struct PW_WRAPPED_KEK_OFFSET = Some (replicate 8 0x41 @ replicate 16 2)"
      "read_u32_le pass_struct PW_ITERATIONS_OFFSET = Some 0x01010101"
    by (simp_all add: slice16_eq slice24_eq read_u32_le_eq const_defs pass_struct_def it)
  have vk: "slice24 vmk_struct KEK_WRAPPED_VMK_OFFSET = Some (replicate 8 2 @ replicate 16 3)"
    by (simp add: slice24_eq const_defs vmk_struct_def)
  show ?thesis
    by (simp add: extract_context_def sample_pass sample_vmk pw vk sample_ctx_def del: str_Cons)
qed

lemma sample_lv: "extract_lv_info sample_metadata = Ok sample_lv_info"
  by (simp add: extract_lv_info_def sample_family sample_lv_size sample_lv_info_def del: str_Cons)

lemma sample_decrypted: "metadata_spec demo_prims sample_image (plain_header 512) = Ok sample_metadata"
proof -
  have zero: "map (\<lambda>x. x XOR ucast (0 :: u128)) bs = (bs :: bytes)" for bs
    by (induction bs) simp_all
  have "decrypt_metadata demo_prims (plain_header 512) sample_metadata = Ok sample_metadata"
    using length_sample_metadata
    by (simp add: decrypt_metadata_def decrypt_units_def demo_prims_def const_defs mask_area_unit zero)
  then show ?thesis
    unfolding sample_image_def metadata_spec_ciphertext
    by (subst layout_ciphertext) (simp_all add: length_sample_metadata)
qed

lemma sample_extent: "resolve_lv_extent sample_metadata (plain_header 512) sample_lv_info = Ok (2560, 9)"
proof -
  have "segments_of sample_metadata 512 = [sample_segment]"
    unfolding sample_metadata_eq by (rule segments_of_encoded) (simp_all add: sample_segment_def)
  then show ?thesis
    using length_sample_metadata
    by (simp add: resolve_lv_extent_eq plain_header_def sample_segment_def sample_lv_info_def saturating_mul_def)
qed

lemma sample_header_image: "chain (image_at sample_image 0 512) parse = Ok (plain_header 512)"
  unfolding sample_image_def by (rule layout_header)

lemma sample_keys_right:
  "derive_volume_keys demo_prims sample_password sample_ctx (replicate 16 0x61) = Ok sample_keys"
  by (simp add: derive_volume_keys_def passphrase_key_def aes_kw_unwrap_def demo_prims_def sample_ctx_def
      sample_password_def slice_get_def sample_keys_def)

lemma sample_keys_wrong:
  "kw_unwrap demo_prims (passphrase_key demo_prims (replicate 16 0x42) (ec_salt sample_ctx) (ec_iterations sample_ctx))
    (ec_wrapped_kek sample_ctx) = None"
  by (simp add: passphrase_key_def demo_prims_def sample_ctx_def)

lemma sample_uuid: "parse_uuid_bytes demo_prims (lv_family_uuid sample_lv_info) = Some (replicate 16 0x61)"
  by (simp add: parse_uuid_bytes_def demo_prims_def sample_lv_info_def)

lemma sample_unlock:
  "unlock_spec demo_prims sample_password sample_image =
    Ok (sample_keys, 2560, 9, build_info demo_prims (plain_header 512) sample_ctx sample_lv_info 9)"
  by (simp add: unlock_spec_def sample_header_image sample_decrypted sample_context sample_lv sample_uuid
      sample_keys_right sample_extent del: chain_assoc)

lemma sample_reader: "cursor_ok (cursor_new sample_image)" "cur_data (cursor_new sample_image) = sample_image"
  by (simp_all add: cursor_ok_def cursor_new_def sample_image_def layout_def length_plain_encoded
      length_pointer_block length_sample_metadata)

lemma sample_plaintext: "plaintext demo_prims sample_keys 2560 9 sample_image = replicate 9 7"
proof -
  have "drop 2560 sample_image = replicate 512 7"
    by (simp add: sample_image_def layout_def length_plain_encoded length_pointer_block length_sample_metadata)
  then have "cipher_sectors 2560 9 sample_image = replicate 512 7"
    by (simp add: cipher_sectors_def)
  then show ?thesis
    by (simp add: plaintext_def demo_prims_def mask_area_unit)
qed

section \<open>An image whose metadata ends in four bytes\<close>

text \<open>A block size of 683 and twelve blocks: 8196 bytes, one unit of 8192 and four bytes more.\<close>

definition short_unit_image :: bytes where
  "short_unit_image = layout 683 (plain_header 683) 12 (replicate 8196 0) []"

lemma short_unit_reader:
  "cursor_ok (cursor_new short_unit_image)" "cur_data (cursor_new short_unit_image) = short_unit_image"
  by (simp_all add: cursor_ok_def cursor_new_def short_unit_image_def layout_def length_plain_encoded
      length_pointer_block)

end
