(* ===== verification/Session.thy ===== *)
theory Session
  imports Sample
begin

text \<open>
  Client sessions on an unlocked volume: any sequence of calls of \<open>read_at\<close>, \<open>read\<close> and \<open>seek\<close> of
  \<open>core/src/lib.rs\<close> and \<open>core/src/volume.rs\<close>, successful or not. The type invariant of what unlocking
  returns is kept by every call, over any reader at all; and over a conforming reader a client that
  keeps reading reaches the end of the volume.
\<close>

section \<open>Well-formed information and volumes\<close>

definition wf_info :: "FileVaultInfo \<Rightarrow> bool" where
  "wf_info info \<longleftrightarrow>
    length (fvi_pbkdf2_salt info) = 16 \<and>
    utf8_valid (fvi_family_uuid info) \<and>
    list_all (\<lambda>s. case s of None \<Rightarrow> True | Some t \<Rightarrow> utf8_valid t)
      [fvi_lv_identifier info, fvi_lv_name info, fvi_conversion_status info] \<and>
    fvi_encryption_method info = str ''AES-XTS-128'' \<and>
    length (fvi_protectors info) \<le> 64 \<and>
    list_all (\<lambda>p. pr_kind p = from_user_type (pr_user_type p)) (fvi_protectors info)"

definition wf_volume :: "'r FileVaultVolume \<Rightarrow> bool" where
  "wf_volume v \<longleftrightarrow> wf_info (FileVaultVolume_info v) \<and> keys_ok (dv_keys (into_decrypted v)) \<and>
    FileVaultVolume_size v = fvi_lv_size (FileVaultVolume_info v)"

lemma extract_string_utf8: "extract_string md k = Some s \<Longrightarrow> utf8_valid s"
  by (auto simp: extract_string_def bind_eq_Some_conv split: if_splits)

lemma extract_string_cases: "case extract_string md k of None \<Rightarrow> True | Some t \<Rightarrow> utf8_valid t"
  by (auto split: option.split dest: extract_string_utf8)

lemma extract_protectors_wf:
  "length (extract_protectors md) \<le> 64 \<and>
    list_all (\<lambda>p. pr_kind p = from_user_type (pr_user_type p)) (extract_protectors md)"
proof -
  obtain codes where "extract_protectors md = map protector_of codes" "length codes \<le> 64"
    using protectors_loop_run [of "[]" md 0] by (auto simp: extract_protectors_def simp del: str_Cons)
  then show ?thesis
    by (simp add: list_all_iff protector_of_def)
qed

lemma wf_build_info:
  assumes "extract_context P md = Ok ctx" and "extract_lv_info md = Ok lv"
  shows "wf_info (build_info P h ctx lv sz)"
proof -
  have "ec_protectors ctx = extract_protectors md"
    and "ec_conversion_status ctx = extract_string md (str ''ConversionStatus'')"
    using assms(1) by (auto simp: extract_context_def comp_iff simp del: str_Cons)
  moreover have "utf8_valid (lv_family_uuid lv)"
    and "lv_identifier lv = extract_string md (str ''com.apple.corestorage.lv.uuid'')"
    and "lv_name lv = extract_string md (str ''com.apple.corestorage.lv.name'')"
    using assms(2) by (auto simp: extract_lv_info_def comp_iff Let_def extract_string_utf8 simp del: str_Cons)
  ultimately show ?thesis
    using extract_context_lengths(1) [OF assms(1)] extract_protectors_wf [of md]
      extract_string_cases [of md "str ''ConversionStatus''"]
      extract_string_cases [of md "str ''com.apple.corestorage.lv.uuid''"]
      extract_string_cases [of md "str ''com.apple.corestorage.lv.name''"]
    by (simp add: wf_info_def build_info_def del: str_Cons)
qed

lemma parse_info_wf:
  assumes "parse_info P ops r = Some (r', Ok info)"
  shows "wf_info info"
  using assms
  by (auto simp: parse_info_def andThen_eq_Ok return_eq_Some split_def intro: wf_build_info)

lemma unlock_wf:
  assumes "kdf_documented P" and "unlock_with_password P ops pw r = Some (r', Ok v)"
  shows "wf_volume v"
proof -
  obtain md h ctx lv fam keys base sz where parts: "extract_context P md = Ok ctx" "extract_lv_info md = Ok lv"
      "derive_volume_keys P pw ctx fam = Ok keys"
      "v = \<lparr>fv_decrypted = DecryptedVolume_new r' keys base sz, fv_info = build_info P h ctx lv sz\<rparr>"
    using assms(2) by (auto simp: unlock_with_password_def andThen_eq_Ok return_eq_Some split_def)
  have "keys_ok keys"
    by (rule derive_volume_keys_keys_ok [OF assms(1) extract_context_ok [OF parts(1)] parts(3)])
  then show ?thesis
    using wf_build_info [OF parts(1,2), of h sz]
    by (simp add: wf_volume_def parts(4) FileVaultVolume_info_def FileVaultVolume_size_def DecryptedVolume_size_def
        DecryptedVolume_new_def into_decrypted_def build_info_def)
qed

section \<open>Calls\<close>

inductive fv_step :: "prims \<Rightarrow> 'r read_seek \<Rightarrow> 'r FileVaultVolume \<Rightarrow> 'r FileVaultVolume \<Rightarrow> bool"
  for P :: prims and ops :: "'r read_seek" where
  step_read_at: "FileVaultVolume_read_at P ops off n v = Some (v', res) \<Longrightarrow> fv_step P ops v v'"
| step_read: "FileVaultVolume_read P ops n v = Some (v', res) \<Longrightarrow> fv_step P ops v v'"
| step_seek: "FileVaultVolume_seek v p = (v', res) \<Longrightarrow> fv_step P ops v v'"

text \<open>The parts of a volume that no call changes.\<close>

definition frame :: "'r FileVaultVolume \<Rightarrow> VolumeKeys \<times> u64 \<times> u64 \<times> FileVaultInfo" where
  "frame v = (dv_keys (fv_decrypted v), dv_physical_base (fv_decrypted v), dv_size (fv_decrypted v), fv_info v)"

definition reader_only :: "('r DecryptedVolume, 'e, 'a) action \<Rightarrow> bool" where
  "reader_only act \<longleftrightarrow> (\<forall>d d' c. act d = Some (d', c) \<longrightarrow> (\<exists>r. d' = d\<lparr>dv_reader := r\<rparr>))"

lemma reader_onlyD: "\<lbrakk>reader_only act; act d = Some (d', c)\<rbrakk> \<Longrightarrow> \<exists>r. d' = d\<lparr>dv_reader := r\<rparr>"
  by (auto simp: reader_only_def)

lemma reader_only_return: "reader_only (return c)"
  unfolding reader_only_def return_def
proof (intro allI impI)
  fix d d' :: "'a DecryptedVolume" and c'
  assume "Some (d, c) = Some (d', c')"
  then show "\<exists>r. d' = d\<lparr>dv_reader := r\<rparr>"
    by (intro exI [of _ "dv_reader d"]) simp
qed

lemma reader_only_on_reader: "reader_only (on_reader a)"
  by (auto simp: reader_only_def on_reader_def)

lemma reader_only_andThen:
  assumes "reader_only m" and "\<And>x. reader_only (f x)"
  shows "reader_only (andThen m f)"
  unfolding reader_only_def
proof (intro allI impI)
  fix d d'' c assume run: "andThen m f d = Some (d'', c)"
  then obtain d' c' where m: "m d = Some (d', c')"
    by (auto simp: andThen_def split: option.splits)
  then obtain r where d': "d' = d\<lparr>dv_reader := r\<rparr>"
    using assms(1) by (auto simp: reader_only_def)
  show "\<exists>r. d'' = d\<lparr>dv_reader := r\<rparr>"
  proof (cases c')
    case (Ok x)
    with run m assms(2) [of x] obtain r' where "d'' = d'\<lparr>dv_reader := r'\<rparr>"
      by (auto simp: andThen_def reader_only_def)
    then show ?thesis
      using d' by auto
  qed (use run m d' in \<open>auto simp: andThen_def\<close>)
qed

lemma andThen_reader_only:
  "\<lbrakk>andThen m f d = Some (d', c); reader_only m; \<And>x. reader_only (f x)\<rbrakk> \<Longrightarrow> \<exists>r. d' = d\<lparr>dv_reader := r\<rparr>"
  using reader_onlyD [OF reader_only_andThen] .

lemma read_at_reader_only:
  assumes "DecryptedVolume_read_at P ops off n d = Some (d', c)"
  shows "\<exists>r. d' = d\<lparr>dv_reader := r\<rparr>"
proof (cases "off \<ge> dv_size d \<or> n = 0")
  case True
  then show ?thesis
    using assms reader_onlyD [OF reader_only_return] by (auto simp: DecryptedVolume_read_at_def)
next
  case False
  note run = assms [unfolded DecryptedVolume_read_at_def if_not_P [OF False]]
  show ?thesis
    by (rule andThen_reader_only [OF run])
      (auto intro!: reader_only_andThen reader_only_return reader_only_on_reader split: prod.split)
qed

lemma step_frame:
  assumes "fv_step P ops v v'"
  shows "frame v' = frame v"
  using assms
proof cases
  case (step_read_at off n res)
  then show ?thesis
    by (auto simp: FileVaultVolume_read_at_def on_decrypted_def frame_def dest!: read_at_reader_only)
next
  case (step_read n res)
  then show ?thesis
    by (auto simp: FileVaultVolume_read_def on_decrypted_def DecryptedVolume_read_def frame_def
        split: option.splits comp.splits dest!: read_at_reader_only)
next
  case (step_seek p res)
  then show ?thesis
    by (auto simp: FileVaultVolume_seek_def DecryptedVolume_seek_def frame_def split: comp.splits seek_from.splits)
qed

lemma session_frame: "(fv_step P ops)\<^sup>*\<^sup>* v v' \<Longrightarrow> frame v' = frame v"
  by (induction rule: rtranclp_induct) (simp_all add: step_frame)

lemma wf_volume_frame:
  "frame v' = frame v \<Longrightarrow> wf_volume v' \<longleftrightarrow> wf_volume v"
  by (simp add: frame_def wf_volume_def FileVaultVolume_info_def FileVaultVolume_size_def DecryptedVolume_size_def
      into_decrypted_def)

section \<open>Reading on to the end\<close>

text \<open>
  A client that reads with a buffer of \<open>n\<close> bytes until a read returns nothing, trying again when it
  is interrupted.
\<close>

partial_function (option) read_on ::
  "'r read_seek \<Rightarrow> nat \<Rightarrow> bytes \<Rightarrow> 'r \<Rightarrow> ('r \<times> bytes io_result) option" where
  "read_on ops n acc r =
    (case rd_read ops r n of
      (r', Ok bs) \<Rightarrow> (if bs = [] then Some (r', Ok acc) else read_on ops n (acc @ bs) r')
    | (r', Err e) \<Rightarrow> (if e = Interrupted then read_on ops n acc r' else Some (r', Err e))
    | (r', Panic) \<Rightarrow> Some (r', Panic))"

context image_reader
begin

lemma read_on_correct:
  assumes "ok r" and "0 < n" and "n < 2 ^ 64"
  shows "\<exists>r'. ok r' \<and> image r' = image r \<and> length (image r) \<le> pos r' \<and>
    read_on ops n acc r = Some (r', Ok (acc @ drop (pos r) (image r)))"
  using assms(1)
proof (induction "length (image r) - pos r + patience r" arbitrary: acc r rule: less_induct)
  case less
  from less.prems assms(2,3) show ?case
  proof (cases rule: read_cases)
    case (interrupted r')
    with less.hyps [of r' acc] show ?thesis
      by (subst read_on.simps) auto
  next
    case (eof r')
    then show ?thesis
      by (subst read_on.simps) auto
  next
    case (some_bytes r' k)
    let ?w = "window (pos r) k (image r)"
    have "\<exists>r''. ok r'' \<and> image r'' = image r' \<and> length (image r') \<le> pos r'' \<and>
        read_on ops n (acc @ ?w) r' = Some (r'', Ok ((acc @ ?w) @ drop (pos r') (image r')))"
      using some_bytes by (intro less.hyps) auto
    moreover have "?w @ drop (pos r') (image r') = drop (pos r) (image r)"
      using some_bytes by (simp add: add.commute flip: drop_drop)
    moreover have "?w \<noteq> []"
      using some_bytes by auto
    ultimately show ?thesis
      using some_bytes by (subst read_on.simps) auto
  qed
qed

end

section \<open>Properties\<close>

text \<open>
  C6 What unlocking returns is well typed and stays so: a volume unlocked over any reader, conforming
  or not, has keys of sixteen bytes and information with a sixteen-byte salt, valid UTF-8 strings,
  the one supported method, at most 64 protectors each with the kind of its code, and the size of the
  volume; after any sequence of reads and seeks, successful or failing, that still holds and keys,
  extent and information are the same.
\<close>

theorem unlocked_volume_well_typed:
  assumes "kdf_documented P" and "unlock_with_password P ops password r = Some (r', Ok v)"
    and "(fv_step P ops)\<^sup>*\<^sup>* v v'"
  shows "wf_volume v' \<and> FileVaultVolume_info v' = FileVaultVolume_info v \<and>
    FileVaultVolume_size v' = FileVaultVolume_size v \<and>
    dv_keys (into_decrypted v') = dv_keys (into_decrypted v) \<and>
    dv_physical_base (into_decrypted v') = dv_physical_base (into_decrypted v)"
proof -
  have "frame v' = frame v"
    by (rule session_frame [OF assms(3)])
  moreover from this have "wf_volume v'"
    using unlock_wf [OF assms(1,2)] wf_volume_frame by blast
  ultimately show ?thesis
    by (simp add: frame_def FileVaultVolume_info_def FileVaultVolume_size_def DecryptedVolume_size_def into_decrypted_def)
qed

theorem unlocked_volume_well_typed_witness:
  "\<exists>r' v. unlock_with_password demo_prims cursor_ops sample_password (cursor_new sample_image) = Some (r', Ok v) \<and>
    wf_volume (fst (FileVaultVolume_seek v (Start 4))) \<and>
    FileVaultVolume_size (fst (FileVaultVolume_seek v (Start 4))) = 9"
proof -
  let ?parts = "(sample_keys, 2560, 9, build_info demo_prims (plain_header 512) sample_ctx sample_lv_info 9)"
  obtain r' where u: "unlock_with_password demo_prims cursor_ops sample_password (cursor_new sample_image) =
      Some (r', Ok (assemble r' ?parts))"
    using cur.unlock_image [OF sample_reader(1), of demo_prims sample_password]
    by (auto simp: sample_reader(2) sample_unlock)
  have "(fv_step demo_prims cursor_ops)\<^sup>*\<^sup>* (assemble r' ?parts) (fst (FileVaultVolume_seek (assemble r' ?parts) (Start 4)))"
    by (rule r_into_rtranclp, rule step_seek, rule prod.collapse [symmetric])
  from unlocked_volume_well_typed [OF demo_documented(2) u this] u show ?thesis
    by auto
qed

text \<open>
  C7 A client that keeps reading makes progress and finishes: over any conforming reader, a read
  before the end of the volume returns at least one byte, and reading on with any buffer size stops
  after finitely many reads with all bytes of the plaintext from the current position on.
\<close>

theorem reading_on_reaches_end:
  assumes "image_reader ops ok img pos patience" and "volume_ok P ok dv" and "0 < n" and "n < 2 ^ 64"
  shows "(unat (dv_position dv) < length (volume_bytes P img dv) \<longrightarrow>
      (\<exists>dv' bs. DecryptedVolume_read P ops n dv = Some (dv', Ok bs) \<and> bs \<noteq> [])) \<and>
    (\<exists>dv'. read_on (dv_ops P ops) n [] dv =
        Some (dv', Ok (drop (unat (dv_position dv)) (volume_bytes P img dv))) \<and>
      length (volume_bytes P img dv) \<le> unat (dv_position dv'))"
proof (intro conjI impI)
  assume "unat (dv_position dv) < length (volume_bytes P img dv)"
  then show "\<exists>dv' bs. DecryptedVolume_read P ops n dv = Some (dv', Ok bs) \<and> bs \<noteq> []"
    using image_reader.read_plaintext(1) [OF assms(1,2,4)] assms(3) by fastforce
next
  show "\<exists>dv'. read_on (dv_ops P ops) n [] dv =
        Some (dv', Ok (drop (unat (dv_position dv)) (volume_bytes P img dv))) \<and>
      length (volume_bytes P img dv) \<le> unat (dv_position dv')"
    using image_reader.read_on_correct [OF image_reader.volume_image_reader [OF assms(1)] assms(2-4), of "[]"]
    by auto
qed

theorem reading_on_reaches_end_witness:
  "\<exists>dv'. read_on (dv_ops demo_prims cursor_ops) 48 [] sample_volume = Some (dv', Ok (replicate 500 7))"
proof -
  have "unat (dv_position sample_volume) = 0"
    by (simp add: sample_volume_def DecryptedVolume_new_def)
  then show ?thesis
    using reading_on_reaches_end [OF cur.image_reader_axioms sample_volume_ok, of 48]
    by (auto simp: sample_volume_bytes)
qed

end
