(* ===== verification/Vfs.thy ===== *)
theory Vfs
  imports FileVault
begin

text \<open>
  The adapter to the forensic virtual file system (\<open>core/src/vfs.rs\<close>). The crate \<open>forensic-vfs\<close> is a
  parameter: the length of a byte source, the reader \<open>SourceCursor\<close> over it, the scheme's name, the
  password in a credential, the empty hex dump, and the message of an I/O error are the fields of
  the record \<open>vfs_env\<close>; a credential source is a function. Of the crate's error type the model has
  the two variants the adapter constructs. An access is a single step here; its interleaving
  with others around the \<open>Mutex\<close> is in \<open>Concurrent\<close>.
\<close>

section \<open>Definitions\<close>

record ('src, 'r, 'scheme, 'cred, 'hex) vfs_env =
  ve_len :: "'src \<Rightarrow> u64"
  ve_cursor :: "'src \<Rightarrow> u64 \<Rightarrow> u64 \<Rightarrow> 'r"
  ve_filevault :: 'scheme
  ve_password :: "'cred \<Rightarrow> bytes option"
  ve_no_bytes :: 'hex
  ve_show_io :: "io_error \<Rightarrow> string"

datatype 'hex VfsError =
  NeedCredentials string string
| Decode string u64 string 'hex

record 'src FileVaultLayer =
  fl_encrypted :: 'src
  fl_len :: u64

record 'r FileVaultSource =
  fs_inner :: "'r FileVaultVolume"
  fs_len :: u64

definition FileVaultLayer_new ::
  "('src, 'r, 'scheme, 'cred, 'hex) vfs_env \<Rightarrow> 'src \<Rightarrow> 'src FileVaultLayer" where
  "FileVaultLayer_new E encrypted = \<lparr>fl_encrypted = encrypted, fl_len = ve_len E encrypted\<rparr>"

definition scheme :: "('src, 'r, 'scheme, 'cred, 'hex) vfs_env \<Rightarrow> 'src FileVaultLayer \<Rightarrow> 'scheme" where
  "scheme E layer = ve_filevault E"

definition map_fvde_err ::
  "('src, 'r, 'scheme, 'cred, 'hex) vfs_env \<Rightarrow> FileVaultError \<Rightarrow> 'hex VfsError" where
  "map_fvde_err E e = Decode ''filevault'' 0 (display (ve_show_io E) e) (ve_no_bytes E)"

definition FileVaultSource_new :: "'r FileVaultVolume \<Rightarrow> 'r FileVaultSource" where
  "FileVaultSource_new vol = \<lparr>fs_inner = vol, fs_len = FileVaultVolume_size vol\<rparr>"

text \<open>The loop over the candidates, with the last error.\<close>

fun open_loop ::
  "prims \<Rightarrow> 'r read_seek \<Rightarrow> ('src, 'r, 'scheme, 'cred, 'hex) vfs_env \<Rightarrow> 'src FileVaultLayer \<Rightarrow>
    'cred list \<Rightarrow> FileVaultError option \<Rightarrow> ('hex VfsError, 'r FileVaultSource) comp option" where
  "open_loop P ops E layer [] last_err =
    Some (Err (case last_err of
        None \<Rightarrow> NeedCredentials ''filevault'' ''''
      | Some e \<Rightarrow> map_fvde_err E e))"
| "open_loop P ops E layer (cred # creds) last_err =
    (case ve_password E cred of
      None \<Rightarrow> open_loop P ops E layer creds last_err
    | Some p \<Rightarrow>
        (case unlock_with_password P ops p (ve_cursor E (fl_encrypted layer) 0 (fl_len layer)) of
          None \<Rightarrow> None
        | Some (_, Ok vol) \<Rightarrow> Some (Ok (FileVaultSource_new vol))
        | Some (_, Err e) \<Rightarrow> open_loop P ops E layer creds (Some e)
        | Some (_, Panic) \<Rightarrow> Some Panic))"

definition FileVaultLayer_open ::
  "prims \<Rightarrow> 'r read_seek \<Rightarrow> ('src, 'r, 'scheme, 'cred, 'hex) vfs_env \<Rightarrow> 'src FileVaultLayer \<Rightarrow>
    ('scheme \<Rightarrow> string \<Rightarrow> 'cred list) \<Rightarrow> ('hex VfsError, 'r FileVaultSource) comp option" where
  "FileVaultLayer_open P ops E layer creds =
    (let cands = creds (ve_filevault E) '''' in
     if cands = [] then Some (Err (NeedCredentials ''filevault'' ''''))
     else open_loop P ops E layer cands None)"

definition FileVaultSource_len :: "'r FileVaultSource \<Rightarrow> u64" where
  "FileVaultSource_len src = fs_len src"

definition FileVaultSource_read_at ::
  "prims \<Rightarrow> 'r read_seek \<Rightarrow> ('src, 'r, 'scheme, 'cred, 'hex) vfs_env \<Rightarrow> u64 \<Rightarrow> nat \<Rightarrow>
    ('r FileVaultSource, 'hex VfsError, bytes) action" where
  "FileVaultSource_read_at P ops E offset n src =
    (let avail = saturating_sub (fs_len src) offset in
     if avail = 0 then Some (src, Ok [])
     else
       let want = unat (min (of_nat n) avail) in
       if want \<le> n then
         map_option (\<lambda>(vol, c). (src\<lparr>fs_inner := vol\<rparr>, map_err (map_fvde_err E) c))
           (FileVaultVolume_read_at P ops offset want (fs_inner src))
       else Some (src, Ok []))"

section \<open>Sources\<close>

text \<open>A password that unlocks the image.\<close>

definition unlocks :: "prims \<Rightarrow> bytes \<Rightarrow> bytes \<Rightarrow> bool" where
  "unlocks P img p \<longleftrightarrow> (case unlock_spec P p img of Ok _ \<Rightarrow> True | _ \<Rightarrow> False)"

text \<open>
  The invariant of a source over a conforming reader: its volume is well formed and its length is
  the volume's size. Its bytes are the plaintext.
\<close>

definition source_ok :: "prims \<Rightarrow> ('r \<Rightarrow> bool) \<Rightarrow> 'r FileVaultSource \<Rightarrow> bool" where
  "source_ok P okr src \<longleftrightarrow> volume_ok P okr (fv_decrypted (fs_inner src)) \<and>
    fs_len src = FileVaultVolume_size (fs_inner src)"

definition source_bytes :: "prims \<Rightarrow> ('r \<Rightarrow> bytes) \<Rightarrow> 'r FileVaultSource \<Rightarrow> bytes" where
  "source_bytes P img src = volume_bytes P img (fv_decrypted (fs_inner src))"

lemma unat_saturating_sub: "unat (saturating_sub a b :: 'w::len word) = unat a - unat b"
  by (auto simp: saturating_sub_def unat_sub word_le_nat_alt)

context image_reader
begin

lemma source_read:
  assumes "source_ok P ok src" and "n < 2 ^ 64"
  shows "\<exists>src'. FileVaultSource_read_at P ops E off n src =
      Some (src', Ok (window (unat off) n (source_bytes P image src))) \<and>
    source_ok P ok src' \<and> source_bytes P image src' = source_bytes P image src \<and> fs_len src' = fs_len src"
proof -
  let ?dv = "fv_decrypted (fs_inner src)" and ?B = "source_bytes P image src"
  have vok: "volume_ok P ok ?dv" and len: "length ?B = unat (fs_len src)"
    using assms(1) volume_bytes_length [of P ?dv]
    by (simp_all add: source_ok_def source_bytes_def FileVaultVolume_size_def DecryptedVolume_size_def)
  show ?thesis
  proof (cases "saturating_sub (fs_len src) off = 0")
    case True
    then have "unat (fs_len src) \<le> unat off"
      using unat_saturating_sub [of "fs_len src" off] by simp
    then show ?thesis
      using True assms(1) len by (simp add: FileVaultSource_read_at_def)
  next
    case False
    define w where "w = unat (min (of_nat n) (saturating_sub (fs_len src) off))"
    have w: "w = min n (length ?B - unat off)"
      unfolding w_def using assms(2) len by (simp add: unat_min unat_saturating_sub unat_of_nat_fit)
    then have "w < 2 ^ 64" and win: "window (unat off) w ?B = window (unat off) n ?B"
      using assms(2) by (simp_all add: min_def)
    then obtain r' where r': "ok r'" "image r' = image (dv_reader ?dv)"
        "DecryptedVolume_read_at P ops off w ?dv = Some (?dv\<lparr>dv_reader := r'\<rparr>, Ok (window (unat off) n ?B))"
      using read_at_plaintext [OF vok, of w off] by (auto simp: source_bytes_def)
    let ?src' = "src\<lparr>fs_inner := (fs_inner src)\<lparr>fv_decrypted := ?dv\<lparr>dv_reader := r'\<rparr>\<rparr>\<rparr>"
    have "w \<le> n"
      by (simp add: w)
    then have "FileVaultSource_read_at P ops E off n src = Some (?src', Ok (window (unat off) n ?B))"
      unfolding FileVaultSource_read_at_def Let_def w_def [symmetric] using False r'(3)
      by (simp add: FileVaultVolume_read_at_def on_decrypted_def)
    moreover have "source_ok P ok ?src'" and "source_bytes P image ?src' = ?B"
      using assms(1) volume_unchanged(3,4) [OF r'(2,1) vok]
      by (simp_all add: source_ok_def source_bytes_def FileVaultVolume_size_def DecryptedVolume_size_def)
    ultimately show ?thesis
      by (intro exI [of _ ?src']) simp
  qed
qed

end

text \<open>
  Accesses by any number of clients, in the order in which they take the lock: the log has every
  request with the bytes it got.
\<close>

inductive serves ::
  "(u64 \<Rightarrow> nat \<Rightarrow> 'r FileVaultSource \<Rightarrow> ('r FileVaultSource \<times> ('e, bytes) comp) option) \<Rightarrow>
    'r FileVaultSource \<Rightarrow> (u64 \<times> nat \<times> bytes) list \<Rightarrow> 'r FileVaultSource \<Rightarrow> bool"
  for read :: "u64 \<Rightarrow> nat \<Rightarrow> 'r FileVaultSource \<Rightarrow> ('r FileVaultSource \<times> ('e, bytes) comp) option"
where
  serves_none: "serves read src [] src"
| serves_read: "\<lbrakk>read off n src = Some (src', Ok bs); n < 2 ^ 64; serves read src' log src''\<rbrakk> \<Longrightarrow>
    serves read src ((off, n, bs) # log) src''"

inductive_simps serves_Nil [simp]: "serves read src [] src'"
inductive_simps serves_Cons: "serves read src ((off, n, bs) # log) src'"

context image_reader
begin

lemma serves_plaintext:
  assumes "serves (FileVaultSource_read_at P ops E) src log src'" and "source_ok P ok src"
  shows "source_ok P ok src' \<and> source_bytes P image src' = source_bytes P image src \<and>
    list_all (\<lambda>(off, n, bs). bs = window (unat off) n (source_bytes P image src)) log"
  using assms
proof (induction rule: serves.induct)
  case (serves_none src)
  then show ?case by simp
next
  case (serves_read off n src src1 bs log src2)
  obtain src3 where "FileVaultSource_read_at P ops E off n src =
        Some (src3, Ok (window (unat off) n (source_bytes P image src)))"
      "source_ok P ok src3" "source_bytes P image src3 = source_bytes P image src"
    using source_read [OF serves_read.prems serves_read.hyps(2), of E off] by blast
  then show ?case
    using serves_read.hyps(1) serves_read.IH by auto
qed

text \<open>
  Opening tries the passwords in order. The outcome for the candidates still to be tried, given
  the last error so far.
\<close>

lemma open_loop_outcome:
  fixes E :: "('src, 'r, 'scheme, 'cred, 'hex) vfs_env" and layer :: "'src FileVaultLayer"
  defines "r0 \<equiv> ve_cursor E (fl_encrypted layer) 0 (fl_len layer)"
  assumes "ok r0" and "\<And>p. unlock_spec P p (image r0) \<noteq> Panic"
  shows "let pws = List.map_filter (ve_password E) creds;
      res = open_loop P ops E layer creds last_err
    in case find (unlocks P (image r0)) pws of
      Some p \<Rightarrow> (\<exists>r' x. unlock_spec P p (image r0) = Ok x \<and> ok r' \<and> image r' = image r0 \<and>
        res = Some (Ok (FileVaultSource_new (assemble r' x))))
    | None \<Rightarrow>
        if pws = []
        then res = Some (Err (case last_err of None \<Rightarrow> NeedCredentials ''filevault'' '''' | Some e \<Rightarrow> map_fvde_err E e))
        else \<exists>e. res = Some (Err (map_fvde_err E e)) \<and> io_eq (Err e) (unlock_spec P (last pws) (image r0))"
proof (induction creds arbitrary: last_err)
  case Nil
  then show ?case
    by (simp add: List.map_filter_def)
next
  case (Cons cred creds)
  show ?case
  proof (cases "ve_password E cred")
    case None
    then show ?thesis
      using Cons.IH [of last_err] by (simp add: map_filter_simps)
  next
    case (Some p)
    obtain r' where r': "ok r'" "image r' = image r0"
        "case unlock_spec P p (image r0) of
          Ok x \<Rightarrow> unlock_with_password P ops p r0 = Some (r', Ok (assemble r' x))
        | Err e \<Rightarrow> (\<exists>e'. unlock_with_password P ops p r0 = Some (r', Err e') \<and>
            (e' = e \<or> (\<exists>i j. e = Io i \<and> e' = Io j)))
        | Panic \<Rightarrow> unlock_with_password P ops p r0 = Some (r', Panic)"
      using unlock_image [OF assms(2), of P p] by blast
    show ?thesis
    proof (cases "unlock_spec P p (image r0)")
      case (Ok x)
      then show ?thesis
        using Some r' by (simp add: map_filter_simps unlocks_def Let_def flip: r0_def) blast
    next
      case (Err e)
      then obtain e' where e': "unlock_with_password P ops p r0 = Some (r', Err e')"
          "io_eq (Err e' :: (VolumeKeys \<times> u64 \<times> u64 \<times> FileVaultInfo) fv) (unlock_spec P p (image r0))"
        using r'(3) by (auto simp: io_eq_def)
      then have "open_loop P ops E layer (cred # creds) last_err = open_loop P ops E layer creds (Some e')"
        using Some by (simp add: r0_def)
      then show ?thesis
        using Cons.IH [of "Some e'"] Some Err e'(2)
        by (cases "List.map_filter (ve_password E) creds = []")
          (auto simp: map_filter_simps unlocks_def Let_def split: option.splits)
    next
      case Panic
      then show ?thesis
        using assms(3) by blast
    qed
  qed
qed

lemma layer_open_outcome:
  fixes E :: "('src, 'r, 'scheme, 'cred, 'hex) vfs_env" and layer :: "'src FileVaultLayer"
  assumes "ok (ve_cursor E (fl_encrypted layer) 0 (fl_len layer))"
    and "image (ve_cursor E (fl_encrypted layer) 0 (fl_len layer)) = content"
    and "xts_documented P" and "kdf_documented P" and "aligned_image content"
  shows "case find (unlocks P content) (List.map_filter (ve_password E) (creds (ve_filevault E) '''')) of
      Some p \<Rightarrow> (\<exists>r' x. unlock_spec P p content = Ok x \<and> ok r' \<and> image r' = content \<and>
        FileVaultLayer_open P ops E layer creds = Some (Ok (FileVaultSource_new (assemble r' x))))
    | None \<Rightarrow>
        if List.map_filter (ve_password E) (creds (ve_filevault E) '''') = []
        then FileVaultLayer_open P ops E layer creds = Some (Err (NeedCredentials ''filevault'' ''''))
        else \<exists>e. FileVaultLayer_open P ops E layer creds = Some (Err (map_fvde_err E e)) \<and>
          io_eq (Err e) (unlock_spec P (last (List.map_filter (ve_password E) (creds (ve_filevault E) ''''))) content)"
proof (cases "creds (ve_filevault E) '''' = []")
  case True
  then show ?thesis
    by (simp add: FileVaultLayer_open_def List.map_filter_def)
next
  case False
  have "unlock_spec P p (image (ve_cursor E (fl_encrypted layer) 0 (fl_len layer))) \<noteq> Panic" for p
    unfolding assms(2) by (rule specs_no_panic(2) [OF assms(3,5,4)])
  from open_loop_outcome [OF assms(1) this, of "creds (ve_filevault E) ''''" None] False
  show ?thesis
    unfolding assms(2) Let_def by (auto simp: FileVaultLayer_open_def split: option.splits)
qed

end

section \<open>Properties\<close>

text \<open>
  A source over an unlocked volume serves every client the plaintext: for any number of
  accesses in any order, by whichever clients, each access returned exactly the bytes of the
  decrypted volume in its window, and the source afterwards is as good as before. So accesses do not
  interfere, whatever the position the shared reader was left at.
\<close>

theorem source_serves_plaintext:
  assumes "image_reader ops ok img pos patience" and "source_ok P ok src"
    and "serves (FileVaultSource_read_at P ops E) src log src'"
  shows "list_all (\<lambda>(off, n, bs). bs = window (unat off) n (source_bytes P img src)) log \<and>
    source_ok P ok src' \<and> source_bytes P img src' = source_bytes P img src"
  using image_reader.serves_plaintext [OF assms(1,3,2)] by blast

definition sample_env :: "(bytes, cursor, unit, bytes, unit) vfs_env" where
  "sample_env = \<lparr>ve_len = (\<lambda>s. of_nat (length s)), ve_cursor = (\<lambda>s a b. cursor_new s), ve_filevault = (),
    ve_password = Some, ve_no_bytes = (), ve_show_io = (\<lambda>_. '''')\<rparr>"

definition sample_source :: "cursor FileVaultSource" where
  "sample_source = FileVaultSource_new
    \<lparr>fv_decrypted = sample_volume,
     fv_info = build_info demo_prims sample_header sample_context
       \<lparr>lv_size = 500, lv_family_uuid = [], lv_identifier = None, lv_name = None\<rparr> 500\<rparr>"

lemma sample_source_ok: "source_ok demo_prims cursor_ok sample_source"
  by (simp add: source_ok_def sample_source_def FileVaultSource_new_def sample_volume_ok)

lemma sample_source_bytes: "source_bytes demo_prims cur_data sample_source = replicate 500 7"
  by (simp add: source_bytes_def sample_source_def FileVaultSource_new_def sample_volume_bytes)

theorem source_serves_plaintext_witness:
  "\<exists>src'. serves (FileVaultSource_read_at demo_prims cursor_ops sample_env) sample_source
      [(498, 9, replicate 2 7), (3, 1, [7])] src' \<and> source_ok demo_prims cursor_ok src'"
proof -
  let ?rd = "FileVaultSource_read_at demo_prims cursor_ops sample_env"
  note B = sample_source_bytes
  obtain s1 where s1: "?rd 498 9 sample_source = Some (s1, Ok (replicate 2 7))" "source_ok demo_prims cursor_ok s1"
      "source_bytes demo_prims cur_data s1 = replicate 500 7"
    using cur.source_read [OF sample_source_ok, of 9 sample_env 498] by (auto simp: B)
  obtain s2 where s2: "?rd 3 1 s1 = Some (s2, Ok [7])"
    using cur.source_read [OF s1(2), of 1 sample_env 3] by (auto simp: s1(3))
  have "serves ?rd sample_source [(498, 9, replicate 2 7), (3, 1, [7])] s2"
    using s1 s2 by (auto simp: serves_Cons)
  then show ?thesis
    using source_serves_plaintext [OF cur.image_reader_axioms sample_source_ok] by blast
qed

text \<open>
  C23 Opening the layer uses the first password that unlocks the volume, in the order of the
  candidates; credentials that are not passwords are skipped. If none unlocks it, the error is that
  of the last password tried, as a decode error; if there is no password among the candidates, or
  no candidate, credentials are asked for. Opening always returns and does not panic.
\<close>

theorem open_first_password:
  fixes E :: "('src, 'r, 'scheme, 'cred, 'hex) vfs_env" and layer :: "'src FileVaultLayer"
  assumes "image_reader ops ok img pos patience" and "ok (ve_cursor E (fl_encrypted layer) 0 (fl_len layer))"
    and "img (ve_cursor E (fl_encrypted layer) 0 (fl_len layer)) = content"
    and "xts_documented P" and "kdf_documented P" and "aligned_image content"
    and "pws = List.map_filter (ve_password E) (creds (scheme E layer) '''')"
  shows "case find (unlocks P content) pws of
      Some p \<Rightarrow> (\<exists>r' x. unlock_spec P p content = Ok x \<and> ok r' \<and> img r' = content \<and>
        FileVaultLayer_open P ops E layer creds = Some (Ok (FileVaultSource_new (assemble r' x))))
    | None \<Rightarrow>
        if pws = []
        then FileVaultLayer_open P ops E layer creds = Some (Err (NeedCredentials ''filevault'' ''''))
        else \<exists>e. FileVaultLayer_open P ops E layer creds = Some (Err (map_fvde_err E e)) \<and>
          io_eq (Err e) (unlock_spec P (last pws) content)"
  using image_reader.layer_open_outcome [OF assms(1-6)] unfolding assms(7) scheme_def .

theorem open_first_password_witness:
  "\<exists>e. FileVaultLayer_open demo_prims cursor_ops sample_env
      (FileVaultLayer_new sample_env (replicate 512 0)) (\<lambda>_ _. [str ''a'', str ''b'']) =
    Some (Err (map_fvde_err sample_env e)) \<and> e = NotCoreStorage 0"
proof -
  have u: "unlock_spec demo_prims p (replicate 512 0) = Err (NotCoreStorage 0)" for p
    by (simp add: unlock_spec_def zero_header_image del: chain_assoc)
  have a: "aligned_image (replicate 512 0)"
    by (simp add: aligned_image_def zero_header_image)
  show ?thesis
    using open_first_password [OF cur.image_reader_axioms _ _ demo_documented(1,2) a refl,
        of sample_env "FileVaultLayer_new sample_env (replicate 512 0)" "\<lambda>_ _. [str ''a'', str ''b'']"]
    by (simp add: sample_env_def FileVaultLayer_new_def cursor_ok_def cursor_new_def u unlocks_def map_filter_simps
        io_eq_def del: str_Cons)
qed

end
