(* ===== verification/Concurrent.thy ===== *)
theory Concurrent
  imports Vfs
begin

text \<open>
  Concurrent clients of a decrypted source (\<open>FileVaultSource::read_at\<close> of \<open>core/src/vfs.rs\<close>), step by
  step. A client computes how much it may read without the lock, returns at once if that is nothing,
  and otherwise takes the mutex, reads the volume and releases it on return. The read inside the
  critical section (\<open>DecryptedVolume::read_at\<close> of \<open>core/src/volume.rs\<close>) is taken apart into its calls of
  the shared reader: one seek, and each read of the loop \<open>read_full_or_eof\<close>, is a step of its own.
  Steps of any number of clients interleave, so that without the mutex one client's seek would move
  the reader under another's reads. A panic inside the critical section poisons the mutex;
  \<open>PoisonError::into_inner\<close> lets the next client in all the same.
\<close>

section \<open>The critical section, step by step\<close>

text \<open>
  Where a client stands in \<open>DecryptedVolume::read_at\<close>: before the sector arithmetic; before the seek
  to the physical offset, with the first sector, the bytes wanted and the region; in the loop that
  fills the region, with the bytes filled; before decryption; with the result.
\<close>

datatype phase =
  Entered
| Seeking u64 nat bytes u64
| Filling u64 nat bytes nat
| Decrypting u64 nat bytes
| Finished "bytes fv"

definition deliver :: "prims \<Rightarrow> u64 \<Rightarrow> nat \<Rightarrow> VolumeKeys \<Rightarrow> u64 \<Rightarrow> nat \<Rightarrow> bytes \<Rightarrow> bytes fv" where
  "deliver P offset n keys first_sector want region =
    chain (decrypt_units P region (vk_vmk keys) (vk_tweak_key keys) SECTOR_SIZE (ucast first_sector)) (\<lambda>region.
    chain (chain (word_mul first_sector (of_nat SECTOR_SIZE)) (word_sub offset)) (\<lambda>rel.
    let inner = unat rel in
    chain (usize_add inner want) (\<lambda>stop.
    chain (ok_or (slice_get region inner stop) (OutOfRange ''decrypted window'')) (\<lambda>slice.
    if want \<le> n then Ok slice else Err (OutOfRange ''output buffer window'')))))"

fun section_step ::
  "prims \<Rightarrow> 'r read_seek \<Rightarrow> u64 \<Rightarrow> nat \<Rightarrow> phase \<Rightarrow> 'r DecryptedVolume \<Rightarrow> phase \<times> 'r DecryptedVolume" where
  "section_step P ops offset n Entered dv =
    (if offset \<ge> dv_size dv \<or> n = 0 then Finished (Ok [])
     else
       (case read_plan (dv_physical_base dv) (dv_size dv) offset n of
         Ok (first_sector, want, region, physical) \<Rightarrow> Seeking first_sector want region physical
       | Err e \<Rightarrow> Finished (Err e)
       | Panic \<Rightarrow> Finished Panic),
     dv)"
| "section_step P ops offset n (Seeking first_sector want region physical) dv =
    (case rd_seek ops (dv_reader dv) (Start physical) of
      (r', Ok _) \<Rightarrow> (Filling first_sector want region 0, dv\<lparr>dv_reader := r'\<rparr>)
    | (r', Err e) \<Rightarrow> (Finished (Err (Io e)), dv\<lparr>dv_reader := r'\<rparr>)
    | (r', Panic) \<Rightarrow> (Finished Panic, dv\<lparr>dv_reader := r'\<rparr>))"
| "section_step P ops offset n (Filling first_sector want region filled) dv =
    (if filled < length region then
       (case rd_read ops (dv_reader dv) (length region - filled) of
         (r', Ok bs) \<Rightarrow>
           (if bs = [] then Decrypting first_sector want region
            else
              (case usize_add filled (length bs) :: nat fv of
                Ok filled' \<Rightarrow>
                  Filling first_sector want (copy_at filled (take (length region - filled) bs) region) filled'
              | _ \<Rightarrow> Finished Panic),
            dv\<lparr>dv_reader := r'\<rparr>)
       | (r', Err e) \<Rightarrow>
           (if e = Interrupted then Filling first_sector want region filled else Finished (Err (Io e)),
            dv\<lparr>dv_reader := r'\<rparr>)
       | (r', Panic) \<Rightarrow> (Finished Panic, dv\<lparr>dv_reader := r'\<rparr>))
     else (Decrypting first_sector want region, dv))"
| "section_step P ops offset n (Decrypting first_sector want region) dv =
    (Finished (deliver P offset n (dv_keys dv) first_sector want region), dv)"
| "section_step P ops offset n (Finished c) dv = (Finished c, dv)"

text \<open>
  What the rest of the section does if nobody else touches the volume, as one computation: from the
  beginning it is \<open>read_at\<close>, and no step changes it.
\<close>

fun section_rest ::
  "prims \<Rightarrow> 'r read_seek \<Rightarrow> u64 \<Rightarrow> nat \<Rightarrow> phase \<Rightarrow> ('r DecryptedVolume, FileVaultError, bytes) action" where
  "section_rest P ops offset n Entered dv = DecryptedVolume_read_at P ops offset n dv"
| "section_rest P ops offset n (Seeking first_sector want region physical) dv =
    andThen (on_reader (from_io (seek_start ops physical))) (\<lambda>_.
    andThen (on_reader (from_io (read_full_or_eof ops region))) (\<lambda>region.
    return (deliver P offset n (dv_keys dv) first_sector want region))) dv"
| "section_rest P ops offset n (Filling first_sector want region filled) dv =
    map_option (\<lambda>(r', region', c).
      (dv\<lparr>dv_reader := r'\<rparr>, chain (map_err Io c) (\<lambda>_. deliver P offset n (dv_keys dv) first_sector want region')))
      (read_full_loop ops region filled (dv_reader dv))"
| "section_rest P ops offset n (Decrypting first_sector want region) dv =
    Some (dv, deliver P offset n (dv_keys dv) first_sector want region)"
| "section_rest P ops offset n (Finished c) dv = Some (dv, c)"

lemma read_at_sections:
  "DecryptedVolume_read_at P ops offset n dv =
    (if offset \<ge> dv_size dv \<or> n = 0 then Some (dv, Ok [])
     else
       (case read_plan (dv_physical_base dv) (dv_size dv) offset n of
         Ok (first_sector, want, region, physical) \<Rightarrow>
           section_rest P ops offset n (Seeking first_sector want region physical) dv
       | Err e \<Rightarrow> Some (dv, Err e)
       | Panic \<Rightarrow> Some (dv, Panic)))"
  by (auto simp: DecryptedVolume_read_at_def deliver_def return_def andThen_def [of "\<lambda>r. Some (r, _)"]
      split: comp.split)

lemma section_step_rest:
  assumes "section_step P ops offset n ph dv = (ph', dv')"
  shows "section_rest P ops offset n ph' dv' = section_rest P ops offset n ph dv"
proof (cases ph)
  case Entered
  with assms show ?thesis
    unfolding Entered section_rest.simps(1) read_at_sections by (auto split: comp.splits if_splits prod.splits)
next
  case (Seeking first_sector want region physical)
  with assms show ?thesis
    by (auto simp: andThen_def on_reader_def from_io_def seek_start_def read_full_or_eof_def return_def option.map_comp
        comp_def comp_iff split: prod.splits comp.splits option.split)
next
  case (Filling first_sector want region filled)
  with assms show ?thesis
    unfolding Filling section_rest.simps(3) read_full_loop_simps [of ops region filled "dv_reader dv"]
    by (auto split: if_splits prod.splits comp.splits)
qed (use assms in auto)

text \<open>The section changes nothing of the volume but its reader, and its buffers stay vectors.\<close>

fun phase_ok :: "phase \<Rightarrow> bool" where
  "phase_ok (Seeking _ _ region _) \<longleftrightarrow> length region < 2 ^ 63"
| "phase_ok (Filling _ _ region _) \<longleftrightarrow> length region < 2 ^ 63"
| "phase_ok _ \<longleftrightarrow> True"

lemma read_plan_region: "read_plan base sz offset n = Ok (f, w, region, p) \<Longrightarrow> length region < 2 ^ 63"
  by (auto simp: read_plan_def Let_def comp_iff zeroed_vec_def split: if_splits)

lemma section_step_ok:
  fixes dv :: "'r DecryptedVolume"
  assumes "section_step P ops offset n ph dv = (ph', dv')" and "phase_ok ph"
  shows "phase_ok ph'" and "\<exists>r'. dv' = dv\<lparr>dv_reader := r'\<rparr>"
proof -
  show "phase_ok ph'"
    using assms by (cases ph) (auto split: if_splits prod.splits comp.splits dest: read_plan_region)
  have same: "\<exists>r'. d = d\<lparr>dv_reader := r'\<rparr>" for d :: "'r DecryptedVolume"
    by (rule exI [of _ "dv_reader d"]) simp
  show "\<exists>r'. dv' = dv\<lparr>dv_reader := r'\<rparr>"
    using assms by (cases ph) (auto split: if_splits prod.splits comp.splits simp: same)
qed

section \<open>An access\<close>

text \<open>What a client of a source of length \<open>len\<close> is going to read, if anything.\<close>

definition request :: "u64 \<Rightarrow> u64 \<Rightarrow> nat \<Rightarrow> nat option" where
  "request len offset n =
    (let avail = saturating_sub len offset in
     if avail = 0 then None
     else
       let want = unat (min (of_nat n) avail) in
       if want \<le> n then Some want else None)"

abbreviation volume_of :: "'r FileVaultSource \<Rightarrow> 'r DecryptedVolume" where
  "volume_of src \<equiv> fv_decrypted (fs_inner src)"

definition put_volume :: "'r DecryptedVolume \<Rightarrow> 'r FileVaultSource \<Rightarrow> 'r FileVaultSource" where
  "put_volume dv src = src\<lparr>fs_inner := (fs_inner src)\<lparr>fv_decrypted := dv\<rparr>\<rparr>"

lemma put_volume_simps [simp]:
  "volume_of (put_volume dv src) = dv" "fs_len (put_volume dv src) = fs_len src"
  "put_volume dv (put_volume dv' src) = put_volume dv src" "put_volume (volume_of src) src = src"
  by (simp_all add: put_volume_def)

text \<open>The rest of a locked access, errors translated.\<close>

definition locked_rest ::
  "prims \<Rightarrow> 'r read_seek \<Rightarrow> ('src, 'r, 'scheme, 'cred, 'hex) vfs_env \<Rightarrow> u64 \<Rightarrow> nat \<Rightarrow> phase \<Rightarrow>
    ('r FileVaultSource, 'hex VfsError, bytes) action" where
  "locked_rest P ops E offset want ph src =
    map_option (\<lambda>(dv, c). (put_volume dv src, map_err (map_fvde_err E) c))
      (section_rest P ops offset want ph (volume_of src))"

lemma read_at_parts:
  "FileVaultSource_read_at P ops E offset n src =
    (case request (fs_len src) offset n of
      None \<Rightarrow> Some (src, Ok [])
    | Some want \<Rightarrow> locked_rest P ops E offset want Entered src)"
  by (simp add: FileVaultSource_read_at_def request_def locked_rest_def Let_def FileVaultVolume_read_at_def
      on_decrypted_def put_volume_def option.map_comp comp_def split_def)

lemma locked_rest_step:
  assumes "section_step P ops offset want ph (volume_of src) = (ph', dv')"
  shows "locked_rest P ops E offset want ph' (put_volume dv' src) = locked_rest P ops E offset want ph src"
  using section_step_rest [OF assms] by (simp add: locked_rest_def)

section \<open>Clients and their steps\<close>

datatype 'hex client =
  Idle
| Called u64 nat
| Inside u64 nat nat phase
| Answered u64 nat "('hex VfsError, bytes) comp"

record ('r, 'hex) shared_source =
  sh_source :: "'r FileVaultSource"
  sh_holder :: "nat option"
  sh_poisoned :: bool
  sh_clients :: "'hex client list"

text \<open>
  \<open>Mutex::lock\<close>, when nobody holds it, gives the guard, here the number of the client, or wraps it in a
  \<open>PoisonError\<close>; \<open>unwrap_or_else(PoisonError::into_inner)\<close> takes it out again.
\<close>

datatype 'g lock_result = Acquired 'g | PoisonError 'g

definition mutex_lock :: "nat \<Rightarrow> ('r, 'hex) shared_source \<Rightarrow> nat lock_result option" where
  "mutex_lock i s =
    (if sh_holder s \<noteq> None then None else if sh_poisoned s then Some (PoisonError i) else Some (Acquired i))"

fun into_guard :: "'g lock_result \<Rightarrow> 'g" where
  "into_guard (Acquired g) = g"
| "into_guard (PoisonError g) = g"

datatype 'hex event =
  Asked nat u64 nat
| Locked nat
| Worked nat
| Returned nat u64 nat "('hex VfsError, bytes) comp"

fun at_rest :: "'hex client \<Rightarrow> bool" where
  "at_rest Idle = True"
| "at_rest (Answered _ _ _) = True"
| "at_rest _ = False"

fun finished :: "phase \<Rightarrow> bool" where
  "finished (Finished _) = True"
| "finished _ = False"

definition put_client :: "nat \<Rightarrow> 'hex client \<Rightarrow> ('r, 'hex) shared_source \<Rightarrow> ('r, 'hex) shared_source" where
  "put_client i c s = s\<lparr>sh_clients := (sh_clients s)[i := c]\<rparr>"

inductive client_step ::
  "prims \<Rightarrow> 'r read_seek \<Rightarrow> ('src, 'r, 'scheme, 'cred, 'hex) vfs_env \<Rightarrow>
    ('r, 'hex) shared_source \<Rightarrow> 'hex event \<Rightarrow> ('r, 'hex) shared_source \<Rightarrow> bool"
  for P :: prims and ops :: "'r read_seek" and E :: "('src, 'r, 'scheme, 'cred, 'hex) vfs_env"
where
  ask: "\<lbrakk>i < length (sh_clients s); at_rest (sh_clients s ! i); n < 2 ^ 64\<rbrakk> \<Longrightarrow>
    client_step P ops E s (Asked i offset n) (put_client i (Called offset n) s)"
| nothing_to_read: "\<lbrakk>i < length (sh_clients s); sh_clients s ! i = Called offset n;
    request (fs_len (sh_source s)) offset n = None\<rbrakk> \<Longrightarrow>
    client_step P ops E s (Returned i offset n (Ok [])) (put_client i (Answered offset n (Ok [])) s)"
| lock: "\<lbrakk>i < length (sh_clients s); sh_clients s ! i = Called offset n;
    request (fs_len (sh_source s)) offset n = Some want; mutex_lock i s = Some res\<rbrakk> \<Longrightarrow>
    client_step P ops E s (Locked i)
      (put_client i (Inside offset n want Entered) (s\<lparr>sh_holder := Some (into_guard res)\<rparr>))"
| work: "\<lbrakk>i < length (sh_clients s); sh_clients s ! i = Inside offset n want ph; \<not> finished ph;
    section_step P ops offset want ph (volume_of (sh_source s)) = (ph', dv')\<rbrakk> \<Longrightarrow>
    client_step P ops E s (Worked i)
      (put_client i (Inside offset n want ph') (s\<lparr>sh_source := put_volume dv' (sh_source s)\<rparr>))"
| unlock: "\<lbrakk>i < length (sh_clients s); sh_clients s ! i = Inside offset n want (Finished c)\<rbrakk> \<Longrightarrow>
    client_step P ops E s (Returned i offset n (map_err (map_fvde_err E) c))
      (put_client i (Answered offset n (map_err (map_fvde_err E) c))
        (s\<lparr>sh_holder := None, sh_poisoned := sh_poisoned s \<or> c = Panic\<rparr>))"

inductive client_run ::
  "prims \<Rightarrow> 'r read_seek \<Rightarrow> ('src, 'r, 'scheme, 'cred, 'hex) vfs_env \<Rightarrow>
    ('r, 'hex) shared_source \<Rightarrow> 'hex event list \<Rightarrow> ('r, 'hex) shared_source \<Rightarrow> bool"
  for P :: prims and ops :: "'r read_seek" and E :: "('src, 'r, 'scheme, 'cred, 'hex) vfs_env"
    and s :: "('r, 'hex) shared_source"
where
  run_none: "client_run P ops E s [] s"
| run_step: "\<lbrakk>client_run P ops E s tr s'; client_step P ops E s' ev s''\<rbrakk> \<Longrightarrow> client_run P ops E s (tr @ [ev]) s''"

text \<open>\<open>Mutex::new\<close>, and any number of clients that have asked for nothing yet.\<close>

definition share :: "nat \<Rightarrow> 'r FileVaultSource \<Rightarrow> ('r, 'hex) shared_source" where
  "share k src = \<lparr>sh_source = src, sh_holder = None, sh_poisoned = False, sh_clients = replicate k Idle\<rparr>"

lemma put_client_simps [simp]:
  "sh_source (put_client i c s) = sh_source s" "sh_holder (put_client i c s) = sh_holder s"
  "sh_poisoned (put_client i c s) = sh_poisoned s" "sh_clients (put_client i c s) = (sh_clients s)[i := c]"
  by (simp_all add: put_client_def)

text \<open>A poisoned mutex is taken like any other.\<close>

lemma mutex_lock_guard: "(\<exists>res. mutex_lock i s = Some res) \<longleftrightarrow> sh_holder s = None"
  "mutex_lock i s = Some res \<Longrightarrow> into_guard res = i \<and> sh_holder s = None"
  by (auto simp: mutex_lock_def split: if_splits)

section \<open>Histories\<close>

text \<open>The accesses that have returned, in the order in which they did.\<close>

fun returned :: "'hex event list \<Rightarrow> (u64 \<times> nat \<times> ('hex VfsError, bytes) comp) list" where
  "returned [] = []"
| "returned (Returned i offset n c # tr) = (offset, n, c) # returned tr"
| "returned (_ # tr) = returned tr"

lemma returned_append: "returned (tr @ tr') = returned tr @ returned tr'"
  by (induction tr rule: returned.induct) simp_all

text \<open>Accesses of a single client, one after the other, whatever they return.\<close>

inductive history ::
  "(u64 \<Rightarrow> nat \<Rightarrow> ('r FileVaultSource, 'e, bytes) action) \<Rightarrow>
    'r FileVaultSource \<Rightarrow> (u64 \<times> nat \<times> ('e, bytes) comp) list \<Rightarrow> 'r FileVaultSource \<Rightarrow> bool"
  for read :: "u64 \<Rightarrow> nat \<Rightarrow> ('r FileVaultSource, 'e, bytes) action" and src :: "'r FileVaultSource"
where
  history_none: "history read src [] src"
| history_read: "\<lbrakk>history read src log src'; read offset n src' = Some (src'', c)\<rbrakk> \<Longrightarrow>
    history read src (log @ [(offset, n, c)]) src''"

section \<open>The mutex\<close>

text \<open>Exactly the client that holds the lock is in the critical section, with what it asked for.\<close>

fun guarded :: "nat option \<Rightarrow> u64 \<Rightarrow> nat \<Rightarrow> 'hex client \<Rightarrow> bool" where
  "guarded holder len i (Inside offset n want ph) \<longleftrightarrow>
    holder = Some i \<and> request len offset n = Some want \<and> n < 2 ^ 64 \<and> phase_ok ph"
| "guarded holder len i (Called offset n) \<longleftrightarrow> holder \<noteq> Some i \<and> n < 2 ^ 64"
| "guarded holder len i _ \<longleftrightarrow> holder \<noteq> Some i"

definition excl :: "('r, 'hex) shared_source \<Rightarrow> bool" where
  "excl s \<longleftrightarrow> (\<forall>i < length (sh_clients s). guarded (sh_holder s) (fs_len (sh_source s)) i (sh_clients s ! i)) \<and>
    (\<forall>i. sh_holder s = Some i \<longrightarrow> i < length (sh_clients s))"

lemma excl_share: "excl (share k src)"
  by (simp add: excl_def share_def)

lemma exclD:
  "\<lbrakk>excl s; i < length (sh_clients s)\<rbrakk> \<Longrightarrow> guarded (sh_holder s) (fs_len (sh_source s)) i (sh_clients s ! i)"
  by (simp add: excl_def)

lemma excl_inside:
  assumes "excl s" and "i < length (sh_clients s)" and "sh_clients s ! i = Inside offset n want ph"
  shows "sh_holder s = Some i" and "request (fs_len (sh_source s)) offset n = Some want" and "n < 2 ^ 64" and "phase_ok ph"
  using exclD [OF assms(1,2)] assms(3) by simp_all

lemma excl_holder:
  assumes "excl s" and "sh_holder s = Some i"
  obtains offset n want ph where "i < length (sh_clients s)" and "sh_clients s ! i = Inside offset n want ph"
  using assms exclD [OF assms(1), of i] by (cases "sh_clients s ! i") (auto simp: excl_def)

lemma guarded_at_rest: "at_rest c \<Longrightarrow> guarded holder len i c \<longleftrightarrow> holder \<noteq> Some i"
  by (cases c) simp_all

text \<open>Taking the lock when it is free, and releasing it, is no business of the other clients.\<close>

lemma guarded_other:
  "\<lbrakk>guarded holder len j c; j \<noteq> i; holder = None \<or> holder = Some i; holder' = None \<or> holder' = Some i\<rbrakk> \<Longrightarrow>
    guarded holder' len j c"
  by (cases c) auto

lemma exclI:
  assumes "excl s" and "sh_clients s' = (sh_clients s)[i := c]" and "i < length (sh_clients s)"
    and "fs_len (sh_source s') = fs_len (sh_source s)"
    and "guarded (sh_holder s') (fs_len (sh_source s)) i c"
    and "sh_holder s' = sh_holder s \<or>
      sh_holder s \<in> {None, Some i} \<and> sh_holder s' \<in> {None, Some i}"
  shows "excl s'"
proof -
  have "guarded (sh_holder s') (fs_len (sh_source s)) j (sh_clients s ! j)"
    if "j < length (sh_clients s)" "j \<noteq> i" for j
    using exclD [OF assms(1) that(1)] assms(6) that(2) guarded_other by (metis insert_iff singletonD)
  then show ?thesis
    using assms by (auto simp: excl_def nth_list_update)
qed

lemma excl_step:
  assumes "client_step P ops E s ev s'" and "excl s"
  shows "excl s'"
  using assms
proof cases
  case (ask i n offset)
  then show ?thesis
    using exclD [OF assms(2) ask(3)] by (intro exclI [OF assms(2)]) (auto simp: guarded_at_rest)
next
  case (nothing_to_read i offset n)
  then show ?thesis
    using exclD [OF assms(2) nothing_to_read(3)] by (intro exclI [OF assms(2)]) auto
next
  case (lock i offset n want res)
  then show ?thesis
    using exclD [OF assms(2) lock(3)] mutex_lock_guard(2) [OF lock(6)] by (intro exclI [OF assms(2)]) auto
next
  case (work i offset n want ph ph' dv')
  then show ?thesis
    using excl_inside [OF assms(2) work(3,4)] section_step_ok(1) [OF work(6)]
    by (intro exclI [OF assms(2)]) auto
next
  case (unlock i offset n want c)
  then show ?thesis
    using exclD [OF assms(2) unlock(3)] by (intro exclI [OF assms(2)]) auto
qed

lemma excl_run: "client_run P ops E s tr s' \<Longrightarrow> excl s \<Longrightarrow> excl s'"
  by (induction rule: client_run.induct) (auto intro: excl_step)

section \<open>Linearization\<close>

text \<open>
  The accesses returned so far are a history. Without a holder the source is as that history leaves
  it; a holder is on the way to the result that its access would have had at once on that source.
\<close>

definition linear ::
  "prims \<Rightarrow> 'r read_seek \<Rightarrow> ('src, 'r, 'scheme, 'cred, 'hex) vfs_env \<Rightarrow> 'r FileVaultSource \<Rightarrow>
    (u64 \<times> nat \<times> ('hex VfsError, bytes) comp) list \<Rightarrow> ('r, 'hex) shared_source \<Rightarrow> bool" where
  "linear P ops E src log s \<longleftrightarrow> list_all (\<lambda>(offset, n, c). n < 2 ^ 64) log \<and>
    (\<exists>src'. history (FileVaultSource_read_at P ops E) src log src' \<and> fs_len src' = fs_len (sh_source s) \<and>
      (case sh_holder s of
        None \<Rightarrow> sh_source s = src'
      | Some i \<Rightarrow> \<forall>offset n want ph. sh_clients s ! i = Inside offset n want ph \<longrightarrow>
          locked_rest P ops E offset want ph (sh_source s) = locked_rest P ops E offset want Entered src'))"

lemma linearI:
  assumes "list_all (\<lambda>(offset, n, c). n < 2 ^ 64) log" and "history (FileVaultSource_read_at P ops E) src log src'"
    and "fs_len src' = fs_len (sh_source s)" and "sh_holder s = None \<Longrightarrow> sh_source s = src'"
    and "\<And>i offset n want ph. \<lbrakk>sh_holder s = Some i; sh_clients s ! i = Inside offset n want ph\<rbrakk> \<Longrightarrow>
      locked_rest P ops E offset want ph (sh_source s) = locked_rest P ops E offset want Entered src'"
  shows "linear P ops E src log s"
  unfolding linear_def using assms(1-3) by (auto intro!: exI [of _ src'] assms(4,5) split: option.split)

lemma linear_step:
  assumes "client_step P ops E s ev s'" and "excl s" and "linear P ops E src log s"
  shows "linear P ops E src (log @ returned [ev]) s'"
proof -
  obtain src' where small: "list_all (\<lambda>(offset, n, c). n < 2 ^ 64) log"
    and hist: "history (FileVaultSource_read_at P ops E) src log src'" and len: "fs_len src' = fs_len (sh_source s)"
    and free: "sh_holder s = None \<Longrightarrow> sh_source s = src'"
    and held: "\<And>i offset n want ph. \<lbrakk>sh_holder s = Some i; sh_clients s ! i = Inside offset n want ph\<rbrakk> \<Longrightarrow>
      locked_rest P ops E offset want ph (sh_source s) = locked_rest P ops E offset want Entered src'"
    using assms(3) unfolding linear_def by (auto split: option.splits)
  from assms(1) show ?thesis
  proof cases
    case (ask i n offset)
    then have "sh_holder s \<noteq> Some i"
      using exclD [OF assms(2) ask(3)] guarded_at_rest [OF ask(4)] by simp
    with small hist len free held show ?thesis
      unfolding ask(1,2) by (intro linearI [of _ _ _ _ _ src']) (auto simp: nth_list_update split: if_splits)
  next
    case (nothing_to_read i offset n)
    have "sh_holder s \<noteq> Some i" and n: "n < 2 ^ 64"
      using exclD [OF assms(2) nothing_to_read(3)] nothing_to_read(4) by simp_all
    moreover have "FileVaultSource_read_at P ops E offset n src' = Some (src', Ok [])"
      using nothing_to_read(5) len by (simp add: read_at_parts)
    ultimately show ?thesis
      unfolding nothing_to_read(1,2) using small history_read [OF hist] len free held
      by (intro linearI [of _ _ _ _ _ src']) (auto simp: nth_list_update split: if_splits)
  next
    case (lock i offset n want res)
    have "into_guard res = i" "sh_source s = src'"
      using mutex_lock_guard(2) [OF lock(6)] free by auto
    with small hist lock(3) show ?thesis
      unfolding lock(1,2) by (intro linearI [of _ _ _ _ _ src']) auto
  next
    case (work i offset n want ph ph' dv')
    have holder: "sh_holder s = Some i"
      by (rule excl_inside(1) [OF assms(2) work(3,4)])
    have "locked_rest P ops E offset want ph' (put_volume dv' (sh_source s)) =
        locked_rest P ops E offset want Entered src'"
      using locked_rest_step [OF work(6), of E] held [OF holder work(4)] by simp
    with small hist len holder work(3) show ?thesis
      unfolding work(1,2) by (intro linearI [of _ _ _ _ _ src']) auto
  next
    case (unlock i offset n want c)
    note inside = excl_inside [OF assms(2) unlock(3,4)]
    have "FileVaultSource_read_at P ops E offset n src' = Some (sh_source s, map_err (map_fvde_err E) c)"
      using held [OF inside(1) unlock(4)] inside(2) len by (simp add: read_at_parts locked_rest_def)
    from history_read [OF hist this] small inside(3) show ?thesis
      unfolding unlock(1,2) by (intro linearI [of _ _ _ _ _ "sh_source s"]) auto
  qed
qed

lemma linear_run:
  assumes "client_run P ops E (share k src) tr s"
  shows "linear P ops E src (returned tr) s"
  using assms
proof (induction rule: client_run.induct)
  case run_none
  show ?case
    by (auto simp: linear_def share_def intro: history_none)
next
  case (run_step tr s ev s')
  from linear_step [OF run_step.hyps(2) excl_run [OF run_step.hyps(1) excl_share] run_step.IH] show ?case
    by (simp add: returned_append)
qed

lemma step_clients: "client_step P ops E s ev s' \<Longrightarrow> length (sh_clients s') = length (sh_clients s)"
  by (induction rule: client_step.induct) simp_all

lemma run_clients: "client_run P ops E s tr s' \<Longrightarrow> length (sh_clients s') = length (sh_clients s)"
  by (induction rule: client_run.induct) (simp_all add: step_clients)

section \<open>Progress over a conforming reader\<close>

text \<open>
  How far a section still is from its seek, and after it from its end: every step of a section brings
  it nearer to its seek, or does not lead back before it and either uses up an interruption of the
  reader or brings the section nearer to its end.
\<close>

fun phase_to_seek :: "phase \<Rightarrow> nat" where
  "phase_to_seek Entered = 2"
| "phase_to_seek (Seeking _ _ _ _) = 1"
| "phase_to_seek _ = 0"

fun phase_to_end :: "phase \<Rightarrow> nat" where
  "phase_to_end (Filling _ _ region filled) = 3 + (length region - filled)"
| "phase_to_end (Decrypting _ _ _) = 2"
| "phase_to_end (Finished _) = 1"
| "phase_to_end _ = 0"

fun to_seek :: "'hex client \<Rightarrow> nat" where
  "to_seek (Called _ _) = 3"
| "to_seek (Inside _ _ _ ph) = phase_to_seek ph"
| "to_seek _ = 0"

fun to_end :: "'hex client \<Rightarrow> nat" where
  "to_end (Inside _ _ _ ph) = phase_to_end ph"
| "to_end _ = 0"

abbreviation all_clients :: "('hex client \<Rightarrow> nat) \<Rightarrow> ('r, 'hex) shared_source \<Rightarrow> nat" where
  "all_clients f s \<equiv> sum_list (map f (sh_clients s))"

fun asks :: "'hex event \<Rightarrow> bool" where
  "asks (Asked _ _ _) = True"
| "asks _ = False"

lemma sum_put:
  fixes f :: "'c \<Rightarrow> nat"
  assumes "i < length cs"
  shows "sum_list (map f (cs[i := c])) + f (cs ! i) = sum_list (map f cs) + f c"
proof -
  have "f (cs ! i) \<le> sum_list (map f cs)"
    using assms by (intro member_le_sum_list) simp_all
  then show ?thesis
    using assms by (simp add: map_update sum_list_update)
qed

lemma sections_finish: "finished ph \<longleftrightarrow> (\<exists>c. ph = Finished c)"
  by (cases ph) simp_all

text \<open>A step can always be taken: by the holder in its section, and without a holder by anyone.\<close>

lemma not_stuck:
  assumes "excl s" and "\<not> list_all at_rest (sh_clients s)"
  shows "\<exists>ev s'. client_step P ops E s ev s' \<and> \<not> asks ev"
proof (cases "sh_holder s")
  case None
  obtain i where i: "i < length (sh_clients s)" "\<not> at_rest (sh_clients s ! i)"
    using assms(2) by (auto simp: list_all_length)
  with exclD [OF assms(1) i(1)] None obtain offset n where c: "sh_clients s ! i = Called offset n"
    by (cases "sh_clients s ! i") auto
  obtain res where "mutex_lock i s = Some res"
    using mutex_lock_guard(1) None by blast
  then show ?thesis
    using nothing_to_read [OF i(1) c, of P ops E] lock [OF i(1) c, of _ res P ops E]
    by (cases "request (fs_len (sh_source s)) offset n") (metis asks.simps(2,4))+
next
  case (Some i)
  then obtain offset n want ph where i: "i < length (sh_clients s)" "sh_clients s ! i = Inside offset n want ph"
    using excl_holder [OF assms(1)] by metis
  obtain ph' dv' where "section_step P ops offset want ph (volume_of (sh_source s)) = (ph', dv')"
    by (cases "section_step P ops offset want ph (volume_of (sh_source s))")
  then show ?thesis
    using work [OF i, of P ops ph' dv' E] unlock [OF i(1), of offset n want _ P ops E] i(2)
    by (cases "finished ph") (auto simp: sections_finish, (metis asks.simps(3,4))+)
qed

context image_reader
begin

lemma section_step_progress:
  assumes "section_step P ops offset n ph dv = (ph', dv')" and "phase_ok ph" and "volume_ok P ok dv"
  shows "volume_ok P ok dv'"
    and "\<not> finished ph \<Longrightarrow> phase_to_seek ph' < phase_to_seek ph \<or>
      phase_to_seek ph' = phase_to_seek ph \<and>
      patience (dv_reader dv') + phase_to_end ph' < patience (dv_reader dv) + phase_to_end ph"
proof -
  have okr: "ok (dv_reader dv)"
    using assms(3) by (simp add: volume_ok_def)
  have vol: "volume_ok P ok (dv\<lparr>dv_reader := r\<rparr>)" if "ok r" for r
    using assms(3) that by (simp add: volume_ok_def)
  have "volume_ok P ok dv' \<and> (\<not> finished ph \<longrightarrow> phase_to_seek ph' < phase_to_seek ph \<or>
      phase_to_seek ph' = phase_to_seek ph \<and>
      patience (dv_reader dv') + phase_to_end ph' < patience (dv_reader dv) + phase_to_end ph)"
  proof (cases ph)
    case Entered
    then show ?thesis
      using assms by (auto split: if_splits comp.splits prod.splits)
  next
    case (Seeking f w region physical)
    show ?thesis
      using okr
    proof (cases rule: seek_start_cases [where off = physical])
      case (sought r')
      with assms(1) Seeking vol show ?thesis
        by (auto simp: seek_start_def)
    next
      case (refused r' e)
      with assms(1) Seeking vol show ?thesis
        by (auto simp: seek_start_def)
    qed
  next
    case (Filling f w region filled)
    show ?thesis
    proof (cases "filled < length region")
      case False
      with assms Filling show ?thesis by auto
    next
      case True
      then have "0 < length region - filled" "length region - filled < 2 ^ 64"
        using assms(2) Filling by auto
      with okr show ?thesis
      proof (cases rule: read_cases)
        case (interrupted r')
        with assms(1) Filling True vol show ?thesis by auto
      next
        case (eof r')
        with assms(1) Filling True vol show ?thesis
          using read_law [OF okr _ _ eof(1)] \<open>0 < length region - filled\<close> \<open>length region - filled < 2 ^ 64\<close> by auto
      next
        case (some_bytes r' k)
        define w where "w = window (pos (dv_reader dv)) k (image (dv_reader dv))"
        have "length w = k" "w \<noteq> []" and rd: "rd_read ops (dv_reader dv) (length region - filled) = (r', Ok w)"
          using some_bytes(1,5,7) by (auto simp: w_def)
        moreover have "(usize_add filled k :: nat fv) = Ok (filled + k)"
          using some_bytes(6) assms(2) Filling True by (intro usize_add_Ok) simp
        moreover have "length (copy_at filled (take (length region - filled) w) region) = length region"
          using True by simp
        moreover have "patience r' + (3 + length region) - (filled + k) <
            patience (dv_reader dv) + (3 + length region) - filled"
          using some_bytes(4-6) True by linarith
        ultimately show ?thesis
          using assms(1) Filling True vol [OF some_bytes(2)] some_bytes(6) by auto
      qed
    qed
  qed (use assms in auto)
  then show "volume_ok P ok dv'"
    and "\<not> finished ph \<Longrightarrow> phase_to_seek ph' < phase_to_seek ph \<or>
      phase_to_seek ph' = phase_to_seek ph \<and>
      patience (dv_reader dv') + phase_to_end ph' < patience (dv_reader dv) + phase_to_end ph"
    by blast+
qed

end

definition ahead :: "('r \<Rightarrow> nat) \<Rightarrow> ('r, 'hex) shared_source \<Rightarrow> nat \<times> nat" where
  "ahead patience s =
    (all_clients to_seek s, patience (dv_reader (volume_of (sh_source s))) + all_clients to_end s)"

context image_reader
begin

lemma step_source_ok:
  assumes "client_step P ops E s ev s'" and "excl s" and "source_ok P ok (sh_source s)"
  shows "source_ok P ok (sh_source s')"
  using assms(1)
proof cases
  case (work i offset n want ph ph' dv')
  have "volume_ok P ok (volume_of (sh_source s))"
    using assms(3) by (simp add: source_ok_def)
  then have "volume_ok P ok dv'"
    using section_step_progress(1) [OF work(6) excl_inside(4) [OF assms(2) work(3,4)]] by blast
  moreover obtain r' where "dv' = (volume_of (sh_source s))\<lparr>dv_reader := r'\<rparr>"
    using section_step_ok(2) [OF work(6) excl_inside(4) [OF assms(2) work(3,4)]] by blast
  ultimately show ?thesis
    using assms(3) work(2)
    by (simp add: source_ok_def put_volume_def FileVaultVolume_size_def DecryptedVolume_size_def)
qed (use assms(3) in simp_all)

lemma run_source_ok:
  "\<lbrakk>client_run P ops E s tr s'; excl s; source_ok P ok (sh_source s)\<rbrakk> \<Longrightarrow> source_ok P ok (sh_source s')"
proof (induction rule: client_run.induct)
  case (run_step tr s' ev s'')
  then show ?case
    using step_source_ok [OF run_step.hyps(2) excl_run [OF run_step.hyps(1) run_step.prems(1)]] by blast
qed

lemma step_ahead:
  assumes "client_step P ops E s ev s'" and "\<not> asks ev" and "excl s" and "source_ok P ok (sh_source s)"
  shows "(ahead patience s', ahead patience s) \<in> less_than <*lex*> less_than"
  using assms(1)
proof cases
  case (ask i n offset)
  then show ?thesis
    using assms(2) by simp
next
  case (nothing_to_read i offset n)
  then show ?thesis
    using sum_put [OF nothing_to_read(3), of to_seek "Answered offset n (Ok [])"] by (simp add: ahead_def)
next
  case (lock i offset n want res)
  then show ?thesis
    using sum_put [OF lock(3), of to_seek "Inside offset n want Entered"] by (simp add: ahead_def)
next
  case (work i offset n want ph ph' dv')
  have vol: "volume_ok P ok (volume_of (sh_source s))"
    using assms(4) by (simp add: source_ok_def)
  note seek = sum_put [OF work(3), of to_seek "Inside offset n want ph'", unfolded work(4) to_seek.simps to_end.simps]
  note finish = sum_put [OF work(3), of to_end "Inside offset n want ph'", unfolded work(4) to_seek.simps to_end.simps]
  have put: "sh_clients s' = (sh_clients s)[i := Inside offset n want ph']"
    by (simp add: work(2))
  from section_step_progress(2) [OF work(6) excl_inside(4) [OF assms(3) work(3,4)] vol work(5)]
  show ?thesis
  proof (elim disjE conjE)
    assume "phase_to_seek ph' < phase_to_seek ph"
    with seek have "all_clients to_seek s' < all_clients to_seek s"
      unfolding put by linarith
    then show ?thesis
      by (simp add: ahead_def)
  next
    assume "phase_to_seek ph' = phase_to_seek ph"
      and "patience (dv_reader dv') + phase_to_end ph' <
        patience (dv_reader (volume_of (sh_source s))) + phase_to_end ph"
    with seek finish have "all_clients to_seek s' = all_clients to_seek s"
        "patience (dv_reader dv') + all_clients to_end s' <
          patience (dv_reader (volume_of (sh_source s))) + all_clients to_end s"
      unfolding put by linarith+
    then show ?thesis
      by (simp add: ahead_def work(2))
  qed
next
  case (unlock i offset n want c)
  let ?a = "Answered offset n (map_err (map_fvde_err E) c)"
  show ?thesis
    using sum_put [OF unlock(3), of to_seek ?a] sum_put [OF unlock(3), of to_end ?a] unlock(2,4)
    by (simp add: ahead_def)
qed

text \<open>So no schedule goes on for ever without new requests.\<close>

lemma schedules_end:
  assumes "excl s" and "source_ok P ok (sh_source s)"
  shows "\<not> (\<exists>f. f 0 = s \<and> (\<forall>i. \<exists>ev. client_step P ops E (f i) ev (f (Suc i)) \<and> \<not> asks ev))"
proof
  assume "\<exists>f. f 0 = s \<and> (\<forall>i. \<exists>ev. client_step P ops E (f i) ev (f (Suc i)) \<and> \<not> asks ev)"
  then obtain f where f: "f 0 = s" "\<And>i. \<exists>ev. client_step P ops E (f i) ev (f (Suc i)) \<and> \<not> asks ev"
    by blast
  have good: "excl (f i) \<and> source_ok P ok (sh_source (f i))" for i
  proof (induction i)
    case 0
    then show ?case
      using assms f(1) by simp
  next
    case (Suc i)
    then show ?case
      using f(2) [of i] excl_step step_source_ok by blast
  qed
  have "(ahead patience (f (Suc i)), ahead patience (f i)) \<in> less_than <*lex*> less_than" for i
    using f(2) [of i] good [of i] step_ahead by blast
  moreover have "wf (less_than <*lex*> less_than)"
    by auto
  ultimately show False
    unfolding wf_iff_no_infinite_down_chain by (auto dest: spec [of _ "\<lambda>i. ahead patience (f i)"])
qed

lemma history_served:
  assumes "history (FileVaultSource_read_at P ops E) src log src'" and "source_ok P ok src"
    and "list_all (\<lambda>(offset, n, c). n < 2 ^ 64) log"
  shows "source_ok P ok src' \<and> source_bytes P image src' = source_bytes P image src \<and>
    list_all (\<lambda>(offset, n, c). c = Ok (window (unat offset) n (source_bytes P image src))) log"
  using assms
proof (induction rule: history.induct)
  case (history_read log src' offset n src'' c)
  then have ok: "source_ok P ok src'" "n < 2 ^ 64"
    by simp_all
  then show ?case
    using source_read [OF ok, of E offset] history_read by auto
qed simp

end

text \<open>
  The mutex is what this rests on. On a volume of two sectors, a client that has sought the first one
  reads its byte; after another client's seek to the second sector it would get a byte from there.
\<close>

definition two_sectors :: "u64 \<Rightarrow> cursor DecryptedVolume" where
  "two_sectors p = \<lparr>dv_reader = \<lparr>cur_data = replicate 512 1 @ replicate 512 2, cur_pos = p\<rparr>,
    dv_keys = dv_keys sample_volume, dv_physical_base = 0, dv_size = 1024, dv_position = 0\<rparr>"

lemma seeks_must_not_mix:
  fixes R :: bytes
  defines "R \<equiv> replicate 512 0"
  shows "section_step demo_prims cursor_ops 0 1 (Seeking 0 1 R 0) (two_sectors 0) = (Filling 0 1 R 0, two_sectors 0)"
    and "section_rest demo_prims cursor_ops 0 1 (Filling 0 1 R 0) (two_sectors 0) = Some (two_sectors 512, Ok [1])"
    and "section_step demo_prims cursor_ops 512 1 (Seeking 1 1 R 512) (two_sectors 0) = (Filling 1 1 R 0, two_sectors 512)"
    and "section_rest demo_prims cursor_ops 0 1 (Filling 0 1 R 0) (two_sectors 512) = Some (two_sectors 1024, Ok [2])"
proof -
  show "section_step demo_prims cursor_ops 0 1 (Seeking 0 1 R 0) (two_sectors 0) = (Filling 0 1 R 0, two_sectors 0)"
    and "section_step demo_prims cursor_ops 512 1 (Seeking 1 1 R 512) (two_sectors 0) = (Filling 1 1 R 0, two_sectors 512)"
    by (simp_all add: two_sectors_def cursor_ops_def)
  have fill: "section_step demo_prims cursor_ops 0 1 (Filling 0 1 R 0) (two_sectors 0) = (Filling 0 1 (replicate 512 1) 512, two_sectors 512)"
      "section_step demo_prims cursor_ops 0 1 (Filling 0 1 R 0) (two_sectors 512) = (Filling 0 1 (replicate 512 2) 512, two_sectors 1024)"
    by (simp_all add: R_def two_sectors_def cursor_ops_def cursor_read_def copy_at_def usize_add_def Let_def)
  have rest_done: "section_rest demo_prims cursor_ops 0 1 (Filling 0 1 (replicate 512 b) 512) (two_sectors p) =
      Some (two_sectors p, Ok [b])" for b p
    by (simp add: read_full_loop_simps, simp add: deliver_def decrypt_units_def demo_prims_def mask_area_unit two_sectors_def
        SECTOR_SIZE_def word_mul_def word_sub_def slice_get_def)
  show "section_rest demo_prims cursor_ops 0 1 (Filling 0 1 R 0) (two_sectors 0) = Some (two_sectors 512, Ok [1])"
    using trans [OF section_step_rest [OF fill(1), symmetric] rest_done] .
  show "section_rest demo_prims cursor_ops 0 1 (Filling 0 1 R 0) (two_sectors 512) = Some (two_sectors 1024, Ok [2])"
    using trans [OF section_step_rest [OF fill(2), symmetric] rest_done] .
qed

section \<open>Properties\<close>

text \<open>
  C9 Concurrent accesses are linearizable, over any reader, conforming or not, with their errors and
  panics: however the seeks, reads and other steps of any number of clients interleave, the accesses
  that have returned, in the order in which they returned, are accesses of a single client, one after
  the other, with the same results, and whenever nobody is in the critical section the source is as
  these leave it. No two clients are ever in the critical section, whose single calls of the reader
  would otherwise mix; a panic in it, which poisons the mutex, does not lock the others out.
\<close>

theorem accesses_linearizable:
  assumes "client_run P ops E (share k src) tr s"
  shows "(\<exists>src'. history (FileVaultSource_read_at P ops E) src (returned tr) src' \<and>
      (sh_holder s = None \<longrightarrow> sh_source s = src')) \<and>
    (\<forall>i j offset n want ph offset' n' want' ph'. i < k \<and> j < k \<and> sh_clients s ! i = Inside offset n want ph \<and>
      sh_clients s ! j = Inside offset' n' want' ph' \<longrightarrow> i = j) \<and>
    (\<forall>i. (\<exists>res. mutex_lock i s = Some res) \<longleftrightarrow> (\<forall>j < k. \<forall>offset n want ph. sh_clients s ! j \<noteq> Inside offset n want ph))"
proof (intro conjI allI impI)
  have excl: "excl s" and len: "length (sh_clients s) = k"
    using excl_run [OF assms excl_share] run_clients [OF assms] by (simp_all add: share_def)
  show "\<exists>src'. history (FileVaultSource_read_at P ops E) src (returned tr) src' \<and>
      (sh_holder s = None \<longrightarrow> sh_source s = src')"
    using linear_run [OF assms] unfolding linear_def by (auto split: option.splits)
  show "i = j" if "i < k \<and> j < k \<and> sh_clients s ! i = Inside offset n want ph \<and>
      sh_clients s ! j = Inside offset' n' want' ph'" for i j offset n want ph offset' n' want' ph'
    using that excl_inside(1) [OF excl, of i offset n want ph] excl_inside(1) [OF excl, of j offset' n' want' ph'] len
    by simp
  show "(\<exists>res. mutex_lock i s = Some res) \<longleftrightarrow> (\<forall>j < k. \<forall>offset n want ph. sh_clients s ! j \<noteq> Inside offset n want ph)" for i
    unfolding mutex_lock_guard(1) using excl_inside(1) [OF excl] excl_holder [OF excl] len
    by (cases "sh_holder s") (metis option.distinct(1))+
qed

text \<open>A run of two clients: both ask, and the second is let in first and reads to the end of its section.\<close>

lemma sample_asked:
  "\<exists>s. client_run demo_prims cursor_ops sample_env (share 2 sample_source) [Asked 0 498 9, Asked 1 3 1] s \<and>
    sh_source s = sample_source \<and> sh_holder s = None \<and> sh_poisoned s = False \<and> sh_clients s = [Called 498 9, Called 3 1]"
proof -
  let ?s0 = "share 2 sample_source" let ?s1 = "put_client 0 (Called 498 9) ?s0"
  let ?s2 = "put_client 1 (Called 3 1) ?s1"
  have one: "client_step demo_prims cursor_ops sample_env ?s0 (Asked 0 498 9) ?s1"
    by (rule ask) (simp_all add: share_def)
  have two: "client_step demo_prims cursor_ops sample_env ?s1 (Asked 1 3 1) ?s2"
    by (rule ask) (simp_all add: share_def)
  show ?thesis
    using run_step [OF run_step [OF run_none one] two]
    by (intro exI [of _ ?s2]) (simp add: share_def numeral_2_eq_2)
qed

lemma sample_section:
  defines "R \<equiv> replicate 512 (0 :: u8)" and "at \<equiv> \<lambda>p. sample_volume\<lparr>dv_reader := \<lparr>cur_data = replicate 600 7, cur_pos = p\<rparr>\<rparr>"
  shows "section_step demo_prims cursor_ops 3 1 Entered sample_volume = (Seeking 0 1 R 88, at 0)"
    and "section_step demo_prims cursor_ops 3 1 (Seeking 0 1 R 88) (at 0) = (Filling 0 1 R 0, at 88)"
    and "section_step demo_prims cursor_ops 3 1 (Filling 0 1 R 0) (at 88) = (Filling 0 1 (replicate 512 7) 512, at 600)"
    and "section_step demo_prims cursor_ops 3 1 (Filling 0 1 (replicate 512 7) 512) (at 600) =
      (Decrypting 0 1 (replicate 512 7), at 600)"
    and "section_step demo_prims cursor_ops 3 1 (Decrypting 0 1 (replicate 512 7)) (at 600) = (Finished (Ok [7]), at 600)"
proof -
  have "read_plan 88 500 3 1 = Ok (0, 1, R, 88)"
    using read_plan_eq [of 3 500 1 1 88] by (simp add: sector_span_def R_def)
  then show "section_step demo_prims cursor_ops 3 1 Entered sample_volume = (Seeking 0 1 R 88, at 0)"
    by (simp add: sample_volume_def DecryptedVolume_new_def at_def cursor_new_def)
  show "section_step demo_prims cursor_ops 3 1 (Seeking 0 1 R 88) (at 0) = (Filling 0 1 R 0, at 88)"
    by (simp add: at_def cursor_ops_def)
  show "section_step demo_prims cursor_ops 3 1 (Filling 0 1 R 0) (at 88) = (Filling 0 1 (replicate 512 7) 512, at 600)"
    by (simp add: at_def R_def cursor_ops_def cursor_read_def copy_at_def usize_add_def)
  show "section_step demo_prims cursor_ops 3 1 (Filling 0 1 (replicate 512 7) 512) (at 600) =
      (Decrypting 0 1 (replicate 512 7), at 600)"
    by simp
  show "section_step demo_prims cursor_ops 3 1 (Decrypting 0 1 (replicate 512 7)) (at 600) = (Finished (Ok [7]), at 600)"
    by (simp add: deliver_def decrypt_units_def demo_prims_def mask_area_unit at_def sample_volume_def DecryptedVolume_new_def
        SECTOR_SIZE_def word_mul_def word_sub_def slice_get_def)
qed

text \<open>The first client waits while the second is at \<open>ph\<close> in its section.\<close>

definition sample_inside :: "phase \<Rightarrow> cursor DecryptedVolume \<Rightarrow> (cursor, unit) shared_source" where
  "sample_inside ph dv = \<lparr>sh_source = put_volume dv sample_source, sh_holder = Some 1, sh_poisoned = False,
    sh_clients = [Called 498 9, Inside 3 1 1 ph]\<rparr>"

abbreviation sample_run :: "unit event list \<Rightarrow> (cursor, unit) shared_source \<Rightarrow> bool" where
  "sample_run \<equiv> client_run demo_prims cursor_ops sample_env (share 2 sample_source)"

lemma sample_work:
  assumes "sample_run tr (sample_inside ph dv)" and "section_step demo_prims cursor_ops 3 1 ph dv = (ph', dv')"
    and "\<not> finished ph"
  shows "sample_run (tr @ [Worked 1]) (sample_inside ph' dv')"
proof -
  have "client_step demo_prims cursor_ops sample_env (sample_inside ph dv) (Worked 1)
      (put_client 1 (Inside 3 1 1 ph') ((sample_inside ph dv)\<lparr>sh_source := put_volume dv' (sh_source (sample_inside ph dv))\<rparr>))"
    using assms(2,3) by (intro work [where ph = ph]) (simp_all add: sample_inside_def)
  then show ?thesis
    using run_step [OF assms(1)] by (simp add: sample_inside_def put_client_def)
qed

lemma sample_locked: "sample_run ([Asked 0 498 9, Asked 1 3 1] @ [Locked 1]) (sample_inside Entered sample_volume)"
proof -
  obtain s2 where s2: "sample_run [Asked 0 498 9, Asked 1 3 1] s2" "sh_source s2 = sample_source" "sh_holder s2 = None"
      "sh_poisoned s2 = False" "sh_clients s2 = [Called 498 9, Called 3 1]"
    using sample_asked by blast
  have "fs_len sample_source = 500" and vol: "volume_of sample_source = sample_volume"
    by (simp_all add: sample_source_def FileVaultSource_new_def FileVaultVolume_size_def DecryptedVolume_size_def
        sample_volume_def DecryptedVolume_new_def)
  then have "client_step demo_prims cursor_ops sample_env s2 (Locked 1)
      (put_client 1 (Inside 3 1 1 Entered) (s2\<lparr>sh_holder := Some (into_guard (Acquired 1))\<rparr>))"
    using s2 by (intro lock) (simp_all add: request_def saturating_sub_def mutex_lock_def)
  moreover have "put_client 1 (Inside 3 1 1 Entered) (s2\<lparr>sh_holder := Some (into_guard (Acquired 1))\<rparr>) =
      sample_inside Entered sample_volume"
    using s2(2,4,5) put_volume_simps(4) [of sample_source]
    by (simp add: sample_inside_def put_client_def vol)
  ultimately show ?thesis
    using run_step [OF s2(1)] by metis
qed

lemma sample_returned:
  "\<exists>s. sample_run [Asked 0 498 9, Asked 1 3 1, Locked 1, Worked 1, Worked 1, Worked 1, Worked 1, Worked 1,
      Returned 1 3 1 (Ok [7])] s \<and> sh_holder s = None \<and> sh_clients s = [Called 498 9, Answered 3 1 (Ok [7])]"
proof -
  note w = sample_section
  have "sample_run ((((([Asked 0 498 9, Asked 1 3 1] @ [Locked 1]) @ [Worked 1]) @ [Worked 1]) @ [Worked 1]) @ [Worked 1])
      (sample_inside (Decrypting 0 1 (replicate 512 7)) (sample_volume\<lparr>dv_reader := \<lparr>cur_data = replicate 600 7, cur_pos = 600\<rparr>\<rparr>))"
    by (rule sample_work [OF sample_work [OF sample_work [OF sample_work [OF sample_locked w(1)] w(2)] w(3)] w(4)]) simp_all
  from sample_work [OF this w(5)] obtain dv where
    run: "sample_run [Asked 0 498 9, Asked 1 3 1, Locked 1, Worked 1, Worked 1, Worked 1, Worked 1, Worked 1]
      (sample_inside (Finished (Ok [7])) dv)"
    by auto
  have "client_step demo_prims cursor_ops sample_env (sample_inside (Finished (Ok [7])) dv)
      (Returned 1 3 1 (map_err (map_fvde_err sample_env) (Ok [7])))
      (put_client 1 (Answered 3 1 (map_err (map_fvde_err sample_env) (Ok [7])))
        ((sample_inside (Finished (Ok [7])) dv)\<lparr>sh_holder := None,
          sh_poisoned := sh_poisoned (sample_inside (Finished (Ok [7])) dv) \<or> (Ok [7] :: bytes fv) = Panic\<rparr>))"
    by (rule unlock) (simp_all add: sample_inside_def)
  from run_step [OF run this] show ?thesis
    by (auto simp: sample_inside_def put_client_def)
qed

theorem accesses_linearizable_witness:
  "\<exists>s. sample_run [Asked 0 498 9, Asked 1 3 1, Locked 1, Worked 1, Worked 1, Worked 1, Worked 1, Worked 1,
      Returned 1 3 1 (Ok [7])] s \<and>
    history (FileVaultSource_read_at demo_prims cursor_ops sample_env) sample_source [(3, 1, Ok [7])] (sh_source s)"
proof -
  obtain s where s: "sample_run [Asked 0 498 9, Asked 1 3 1, Locked 1, Worked 1, Worked 1, Worked 1, Worked 1, Worked 1,
      Returned 1 3 1 (Ok [7])] s" "sh_holder s = None"
    using sample_returned by blast
  then show ?thesis
    using accesses_linearizable [OF s(1)] by auto
qed

text \<open>
  C10 Every concurrent client is served: over a conforming reader, however the single calls of the
  reader interleave with what the other clients do, each access that has returned got the window of
  the plaintext it asked for. In every state that clients can reach, as long as a call has not
  returned there is a step to take that is no new request, and no schedule without new requests goes
  on for ever. So no call waits for ever, and there is no deadlock.
\<close>

theorem concurrent_clients_served:
  assumes "image_reader ops ok img pos patience" and "source_ok P ok src"
    and "client_run P ops E (share k src) tr s"
  shows "list_all (\<lambda>(offset, n, c). c = Ok (window (unat offset) n (source_bytes P img src))) (returned tr) \<and>
    (list_all at_rest (sh_clients s) \<or> (\<exists>ev s'. client_step P ops E s ev s' \<and> \<not> asks ev)) \<and>
    \<not> (\<exists>f. f 0 = s \<and> (\<forall>i. \<exists>ev. client_step P ops E (f i) ev (f (Suc i)) \<and> \<not> asks ev))"
proof (intro conjI)
  have excl: "excl s"
    by (rule excl_run [OF assms(3) excl_share])
  show "list_all (\<lambda>(offset, n, c). c = Ok (window (unat offset) n (source_bytes P img src))) (returned tr)"
    using linear_run [OF assms(3)] image_reader.history_served [OF assms(1) _ assms(2)] unfolding linear_def by blast
  show "list_all at_rest (sh_clients s) \<or> (\<exists>ev s'. client_step P ops E s ev s' \<and> \<not> asks ev)"
    using not_stuck [OF excl] by blast
  have "source_ok P ok (sh_source s)"
    using image_reader.run_source_ok [OF assms(1,3) excl_share] assms(2) by (simp add: share_def)
  then show "\<not> (\<exists>f. f 0 = s \<and> (\<forall>i. \<exists>ev. client_step P ops E (f i) ev (f (Suc i)) \<and> \<not> asks ev))"
    by (rule image_reader.schedules_end [OF assms(1) excl])
qed

theorem concurrent_clients_served_witness:
  "\<exists>s. sample_run [Asked 0 498 9, Asked 1 3 1, Locked 1, Worked 1, Worked 1, Worked 1, Worked 1, Worked 1,
      Returned 1 3 1 (Ok [7])] s \<and>
    (\<exists>ev s'. client_step demo_prims cursor_ops sample_env s ev s' \<and> \<not> asks ev)"
proof -
  obtain s where s: "sample_run [Asked 0 498 9, Asked 1 3 1, Locked 1, Worked 1, Worked 1, Worked 1, Worked 1, Worked 1,
      Returned 1 3 1 (Ok [7])] s" "sh_clients s = [Called 498 9, Answered 3 1 (Ok [7])]"
    using sample_returned by blast
  then show ?thesis
    using concurrent_clients_served [OF cur.image_reader_axioms sample_source_ok s(1)] by auto
qed

end
