(* ===== verification/Truncation.thy ===== *)
theory Truncation
  imports Sample
begin

text \<open>
  Images that are cut off or differ somewhere: which bytes of an image decide what the program
  returns. The metadata is all or nothing: a cut-off image gives the same answer as the whole one or
  an I/O error, never another answer. A read of the decrypted volume depends on the sectors it
  touches and on no other byte of the image, with bytes past the end read as zeros.
\<close>

section \<open>Cut-off images\<close>

text \<open>The outcome on a cut-off image, next to that on the whole one.\<close>

definition cut :: "'a fv \<Rightarrow> 'a fv \<Rightarrow> bool" where
  "cut c c' \<longleftrightarrow> c' = c \<or> (\<exists>e. c' = Err (Io e))"

lemma cut_refl [simp]: "cut c c"
  by (simp add: cut_def)

lemma cut_chain:
  assumes "cut c c'" and "\<And>x. cut (f x) (g x)"
  shows "cut (chain c f) (chain c' g)"
proof (cases c)
  case (Ok x)
  then show ?thesis
    using assms(1) assms(2) [of x] by (auto simp: cut_def)
qed (use assms(1) in \<open>auto simp: cut_def\<close>)

lemma cut_image_at: "cut (image_at img off n) (image_at (take k img) off n)"
  by (auto simp: cut_def image_at_def drop_take min_def)

lemma cut_metadata: "cut (metadata_spec P img h) (metadata_spec P (take k img) h)"
  unfolding metadata_spec_def Let_def by (auto intro!: cut_chain cut_image_at)

lemma cut_specs:
  "cut (info_spec P img) (info_spec P (take k img))"
  "cut (unlock_spec P pw img) (unlock_spec P pw (take k img))"
  unfolding info_spec_def unlock_spec_def
  by (intro cut_chain cut_image_at cut_metadata cut_refl)+

section \<open>The sectors of a read\<close>

text \<open>A byte of the image, or zero past its end.\<close>

definition byte_at :: "bytes \<Rightarrow> nat \<Rightarrow> u8" where
  "byte_at img k = (if k < length img then img ! k else 0)"

lemma padded_bytes: "take m (drop a img @ replicate m 0) = map (byte_at img) [a..<a + m]"
  by (rule nth_equalityI) (auto simp: byte_at_def nth_append)

text \<open>The bytes of the image that a read of \<open>n\<close> bytes at \<open>off\<close> touches.\<close>

definition touched :: "nat \<Rightarrow> nat \<Rightarrow> nat \<Rightarrow> nat set" where
  "touched base off n = {base + off div 512 * 512 ..< base + (off + n + 511) div 512 * 512}"

lemma plaintext_local:
  assumes "xts_documented P" and "keys_ok keys" and "sz < 2 ^ 63" and "off + w \<le> sz"
    and "\<And>k. k \<in> touched base off w \<Longrightarrow> byte_at img k = byte_at img' k"
  shows "window off w (plaintext P keys base sz img) = window off w (plaintext P keys base sz img')"
proof (cases "w = 0")
  case False
  let ?f = "off div 512" and ?c = "sector_span off w"
  have "?f + ?c = (off + w + 511) div 512"
    using False by (simp add: sector_span_def)
  then have "map (byte_at img) [base + ?f * 512..<base + ?f * 512 + ?c * 512] =
      map (byte_at img') [base + ?f * 512..<base + ?f * 512 + ?c * 512]"
    using assms(5) by (simp add: touched_def flip: add.assoc distrib_right)
  then show ?thesis
    using decrypt_enclosing_sectors [OF assms(1-3) _ assms(4), of base img]
      decrypt_enclosing_sectors [OF assms(1-3) _ assms(4), of base img'] False
    unfolding padded_bytes by (metis comp.inject(1) neq0_conv)
qed simp

section \<open>Properties\<close>

text \<open>
  C11 Cutting an image off is noticed: over any conforming reader of any beginning of an image, the
  audit either gives what it gives on the whole image or an I/O error, never other information; and
  if unlocking succeeds at all, it succeeds on the whole image too, with the same information, keys
  and extent.
\<close>

theorem truncation_is_loud:
  assumes "image_reader ops ok img pos patience" and "ok r" and "ok r'" and "img r' = take k (img r)"
  shows "(\<exists>q q' c c'. parse_info P ops r = Some (q, c) \<and> parse_info P ops r' = Some (q', c') \<and>
      (c' = c \<or> (\<exists>e. c' = Err (Io e)))) \<and>
    (\<forall>q' v'. unlock_with_password P ops password r' = Some (q', Ok v') \<longrightarrow>
      (\<exists>q v. unlock_with_password P ops password r = Some (q, Ok v) \<and>
        FileVaultVolume_info v' = FileVaultVolume_info v \<and> FileVaultVolume_size v' = FileVaultVolume_size v \<and>
        dv_keys (into_decrypted v') = dv_keys (into_decrypted v) \<and>
        dv_physical_base (into_decrypted v') = dv_physical_base (into_decrypted v)))"
proof (intro conjI allI impI)
  obtain q c q' c' where "parse_info P ops r = Some (q, c)" "io_eq c (info_spec P (img r))"
      "parse_info P ops r' = Some (q', c')" "io_eq c' (info_spec P (img r'))"
    using image_reader.reads_as_info [OF assms(1), of "img r" P] image_reader.reads_as_info [OF assms(1), of "img r'" P]
      assms(2,3) unfolding reads_as_def by metis
  then show "\<exists>q q' c c'. parse_info P ops r = Some (q, c) \<and> parse_info P ops r' = Some (q', c') \<and>
      (c' = c \<or> (\<exists>e. c' = Err (Io e)))"
    using cut_specs(1) [of P "img r" k] unfolding assms(4) by (auto simp: cut_def io_eq_def)
  fix q' v' assume opened: "unlock_with_password P ops password r' = Some (q', Ok v')"
  obtain x where x: "unlock_spec P password (img r') = Ok x" "v' = assemble q' x"
    using image_reader.unlock_image [OF assms(1,3), of P password] opened
    by (cases "unlock_spec P password (img r')") auto
  then have "unlock_spec P password (img r) = Ok x"
    using cut_specs(2) [of P password "img r" k] by (auto simp: cut_def assms(4))
  then obtain q where "unlock_with_password P ops password r = Some (q, Ok (assemble q x))"
    using image_reader.unlock_image [OF assms(1,2), of P password] by auto
  then show "\<exists>q v. unlock_with_password P ops password r = Some (q, Ok v) \<and>
        FileVaultVolume_info v' = FileVaultVolume_info v \<and> FileVaultVolume_size v' = FileVaultVolume_size v \<and>
        dv_keys (into_decrypted v') = dv_keys (into_decrypted v) \<and>
        dv_physical_base (into_decrypted v') = dv_physical_base (into_decrypted v)"
    by (cases x) (auto simp: x(2) DecryptedVolume_new_def)
qed

lemma sample_info_spec:
  "info_spec demo_prims sample_image = Ok (build_info demo_prims (plain_header 512) sample_ctx sample_lv_info 9)"
  by (simp add: info_spec_def sample_header_image sample_decrypted sample_context sample_lv sample_extent
      del: chain_assoc)

theorem truncation_is_loud_witness:
  "\<exists>q c. parse_info demo_prims cursor_ops (cursor_new (take 2000 sample_image)) = Some (q, c) \<and>
    (c = Ok (build_info demo_prims (plain_header 512) sample_ctx sample_lv_info 9) \<or> (\<exists>e. c = Err (Io e)))"
proof -
  have cur: "cursor_ok (cursor_new (take 2000 sample_image))"
      "cur_data (cursor_new (take 2000 sample_image)) = take 2000 (cur_data (cursor_new sample_image))"
    using sample_reader by (simp_all add: cursor_ok_def cursor_new_def)
  obtain q where "parse_info demo_prims cursor_ops (cursor_new sample_image) =
      Some (q, Ok (build_info demo_prims (plain_header 512) sample_ctx sample_lv_info 9))"
    using cur.reads_as_info [of sample_image demo_prims] sample_reader
    unfolding reads_as_def sample_info_spec by auto
  then show ?thesis
    using truncation_is_loud [OF cur.image_reader_axioms sample_reader(1) cur, of demo_prims "[]"] by auto
qed

text \<open>
  C12 A read depends on its sectors only: two volumes with the same keys and extent, over whatever
  conforming readers, return the same bytes for a request if their images have the same bytes in the
  sectors that the request touches. So a damaged or missing sector affects the reads of that sector
  and no others, and the rest of an image that was cut off can still be read.
\<close>

theorem read_at_sector_local:
  assumes "image_reader ops ok img pos patience" and "volume_ok P ok dv"
    and "image_reader ops' ok' img' pos' patience'" and "volume_ok P ok' dv'"
    and "dv_keys dv' = dv_keys dv" and "dv_physical_base dv' = dv_physical_base dv" and "dv_size dv' = dv_size dv"
    and "n < 2 ^ 64"
    and "\<And>k. k \<in> touched (unat (dv_physical_base dv)) (unat off) n \<Longrightarrow>
      byte_at (img (dv_reader dv)) k = byte_at (img' (dv_reader dv')) k"
  shows "\<exists>q q' bs. DecryptedVolume_read_at P ops off n dv = Some (q, Ok bs) \<and>
    DecryptedVolume_read_at P ops' off n dv' = Some (q', Ok bs)"
proof -
  let ?sz = "unat (dv_size dv)" and ?base = "unat (dv_physical_base dv)"
  define w where "w = min n (?sz - unat off)"
  have doc: "xts_documented P" "keys_ok (dv_keys dv)" "?sz < 2 ^ 63"
    using assms(2) by (simp_all add: volume_ok_def extent_ok_def)
  have short: "window (unat off) n b = window (unat off) w b" if "length b = ?sz" for b :: bytes
    using that by (auto simp: w_def min_def)
  have "window (unat off) w (volume_bytes P img dv) = window (unat off) w (volume_bytes P img' dv')"
  proof (cases "unat off \<le> ?sz")
    case True
    have "touched ?base (unat off) w \<subseteq> touched ?base (unat off) n"
      by (auto simp: touched_def w_def intro: less_le_trans mult_le_mono1 div_le_mono)
    then show ?thesis
      unfolding volume_bytes_def assms(5-7) using True assms(9)
      by (intro plaintext_local [OF doc]) (auto simp: w_def)
  next
    case False
    then show ?thesis
      by (simp add: w_def)
  qed
  then show ?thesis
    using image_reader.read_at_plaintext [OF assms(1,2,8), of off] image_reader.read_at_plaintext [OF assms(3,4,8), of off]
      short image_reader.volume_bytes_length [OF assms(1,2)] image_reader.volume_bytes_length [OF assms(3,4)] assms(7)
    by metis
qed

theorem read_at_sector_local_witness:
  "\<exists>q. DecryptedVolume_read_at demo_prims cursor_ops 2 3
    (sample_volume\<lparr>dv_reader := cursor_new (replicate 88 0 @ replicate 512 7)\<rparr>) = Some (q, Ok (replicate 3 7))"
proof -
  let ?dv = "sample_volume\<lparr>dv_reader := cursor_new (replicate 88 0 @ replicate 512 7)\<rparr>"
  have ok: "volume_ok demo_prims cursor_ok ?dv"
    using sample_volume_ok by (simp add: volume_ok_def cursor_ok_def cursor_new_def)
  have "byte_at (cur_data (dv_reader sample_volume)) k = byte_at (cur_data (dv_reader ?dv)) k"
    if "k \<in> touched (unat (dv_physical_base sample_volume)) (unat (2 :: u64)) 3" for k
    using that by (auto simp: touched_def byte_at_def sample_volume_def DecryptedVolume_new_def cursor_new_def nth_append)
  then obtain q q' bs where "DecryptedVolume_read_at demo_prims cursor_ops 2 3 sample_volume = Some (q, Ok bs)"
      "DecryptedVolume_read_at demo_prims cursor_ops 2 3 ?dv = Some (q', Ok bs)"
    using read_at_sector_local [OF cur.image_reader_axioms sample_volume_ok cur.image_reader_axioms ok, of 3 2] by auto
  moreover have "\<exists>q. DecryptedVolume_read_at demo_prims cursor_ops 2 3 sample_volume = Some (q, Ok (replicate 3 7))"
    using cur.read_at_plaintext [OF sample_volume_ok, of 3 2] by (auto simp: sample_volume_bytes)
  ultimately show ?thesis
    by auto
qed

end
