(* ===== verification/Profiles.thy ===== *)
theory Profiles
  imports Volume
begin

text \<open>
  The two build profiles. Unchecked \<open>+\<close>, \<open>-\<close> and \<open>*\<close> panic on overflow in a debug build and wrap in a
  release build (\<open>Cargo.toml\<close> keeps the default). The other theories model the debug build; here the
  arithmetic of \<open>core/src/volume.rs\<close> is an argument, so that both builds are instances of the same
  definitions: where no value leaves its range the builds agree, and where the physical offset
  does, what a release build returns is known exactly.
\<close>

section \<open>Arithmetic of a profile\<close>

record arithmetic =
  ar_add :: "u64 \<Rightarrow> u64 \<Rightarrow> u64 fv"
  ar_sub :: "u64 \<Rightarrow> u64 \<Rightarrow> u64 fv"
  ar_mul :: "u64 \<Rightarrow> u64 \<Rightarrow> u64 fv"
  ar_usize_add :: "nat \<Rightarrow> nat \<Rightarrow> nat fv"

definition debug :: arithmetic where
  "debug = \<lparr>ar_add = word_add, ar_sub = word_sub, ar_mul = word_mul, ar_usize_add = usize_add\<rparr>"

definition release :: arithmetic where
  "release = \<lparr>ar_add = (\<lambda>a b. Ok (a + b)), ar_sub = (\<lambda>a b. Ok (a - b)), ar_mul = (\<lambda>a b. Ok (a * b)),
    ar_usize_add = (\<lambda>a b. Ok ((a + b) mod 2 ^ 64))\<rparr>"

section \<open>The volume in a profile\<close>

definition read_plan_in :: "arithmetic \<Rightarrow> u64 \<Rightarrow> u64 \<Rightarrow> u64 \<Rightarrow> nat \<Rightarrow> (u64 \<times> nat \<times> bytes \<times> u64) fv" where
  "read_plan_in A physical_base sz offset n =
    chain (ar_sub A sz offset) (\<lambda>available.
    let want = unat (min (of_nat n) available);
        first_sector = offset div of_nat SECTOR_SIZE
    in
    chain (ar_add A offset (of_nat want)) (\<lambda>stop.
    chain (ar_sub A stop 1) (\<lambda>last_byte.
    let last_sector = last_byte div of_nat SECTOR_SIZE in
    chain (chain (ar_sub A last_sector first_sector) (\<lambda>d. ar_add A d 1)) (\<lambda>sectors.
    let sector_count = unat sectors in
    chain (ok_or (checked_mul_usize sector_count SECTOR_SIZE) (OutOfRange ''read region length'')) (\<lambda>region_len.
    chain (zeroed_vec region_len) (\<lambda>region.
    chain (chain (ar_mul A first_sector (of_nat SECTOR_SIZE)) (ar_add A physical_base)) (\<lambda>physical.
      Ok (first_sector, want, region, physical))))))))"

definition read_full_or_eof_in :: "arithmetic \<Rightarrow> 'r read_seek \<Rightarrow> bytes \<Rightarrow> ('r, io_error, bytes) action" where
  "read_full_or_eof_in A ops buf r =
    map_option (\<lambda>(r', buf', c). (r', chain c (\<lambda>_. Ok buf'))) (read_full_loop_in (ar_usize_add A) ops buf 0 r)"

definition read_at_in ::
  "arithmetic \<Rightarrow> prims \<Rightarrow> 'r read_seek \<Rightarrow> u64 \<Rightarrow> nat \<Rightarrow> ('r DecryptedVolume, FileVaultError, bytes) action" where
  "read_at_in A P ops offset n dv =
    (if offset \<ge> dv_size dv \<or> n = 0 then return (Ok []) dv
     else
       andThen (return (read_plan_in A (dv_physical_base dv) (dv_size dv) offset n))
         (\<lambda>(first_sector, want, region, physical).
       andThen (on_reader (from_io (seek_start ops physical))) (\<lambda>_.
       andThen (on_reader (from_io (read_full_or_eof_in A ops region))) (\<lambda>region.
       return
         (chain (decrypt_units P region (vk_vmk (dv_keys dv)) (vk_tweak_key (dv_keys dv))
             SECTOR_SIZE (ucast first_sector)) (\<lambda>region.
          chain (chain (ar_mul A first_sector (of_nat SECTOR_SIZE)) (ar_sub A offset)) (\<lambda>rel.
          let inner = unat rel in
          chain (ar_usize_add A inner want) (\<lambda>stop.
          chain (ok_or (slice_get region inner stop) (OutOfRange ''decrypted window'')) (\<lambda>slice.
          if want \<le> n then Ok slice else Err (OutOfRange ''output buffer window'')))))))))
       dv)"

definition read_in :: "arithmetic \<Rightarrow> prims \<Rightarrow> 'r read_seek \<Rightarrow> nat \<Rightarrow> ('r DecryptedVolume, io_error, bytes) action" where
  "read_in A P ops n dv =
    (case read_at_in A P ops (dv_position dv) n dv of
      None \<Rightarrow> None
    | Some (dv', Ok bs) \<Rightarrow>
        (case ar_add A (dv_position dv') (of_nat (length bs)) of
          Ok p \<Rightarrow> Some (dv'\<lparr>dv_position := p\<rparr>, Ok bs)
        | _ \<Rightarrow> Some (dv', Panic))
    | Some (dv', Err e) \<Rightarrow> Some (dv', Err (Other e))
    | Some (dv', Panic) \<Rightarrow> Some (dv', Panic))"

text \<open>The debug build is the one of \<open>Volume\<close>.\<close>

lemma debug_read_plan: "read_plan_in debug = read_plan"
  by (intro ext) (simp add: read_plan_in_def read_plan_def debug_def)

lemma debug_read_full: "read_full_or_eof_in debug = read_full_or_eof"
  by (intro ext) (simp add: read_full_or_eof_in_def read_full_or_eof_def read_full_loop_def debug_def)

lemma debug_read_at: "read_at_in debug = DecryptedVolume_read_at"
  by (intro ext) (simp add: read_at_in_def DecryptedVolume_read_at_def debug_read_plan debug_read_full,
      simp add: debug_def)

lemma debug_read: "read_in debug = DecryptedVolume_read"
proof -
  have "ar_add debug = word_add"
    by (simp add: debug_def)
  then show ?thesis
    by (intro ext) (auto simp: read_in_def DecryptedVolume_read_def debug_read_at word_add_def
        split: option.split prod.split comp.split)
qed

section \<open>What the profiles have in common\<close>

locale machine_arithmetic =
  fixes A :: arithmetic
  assumes add_fits: "unat a + unat b < 2 ^ 64 \<Longrightarrow> ar_add A a b = Ok (a + b)"
    and sub_fits: "b \<le> a \<Longrightarrow> ar_sub A a b = Ok (a - b)"
    and mul_fits: "unat a * unat b < 2 ^ 64 \<Longrightarrow> ar_mul A a b = Ok (a * b)"
    and usize_fits: "i + j < 2 ^ 64 \<Longrightarrow> ar_usize_add A i j = Ok (i + j)"
begin

lemma first_sector_start: "ar_mul A (off div 512) 512 = Ok (off div 512 * 512)"
  "chain (ar_mul A (off div 512) 512) (ar_sub A off) = Ok (off - off div 512 * 512)"
proof -
  show mul: "ar_mul A (off div 512) 512 = Ok (off div 512 * 512)"
    using first_sector_bytes(1) [of off] by (intro mul_fits) (simp add: word_mul_def split: if_splits)
  show "chain (ar_mul A (off div 512) 512) (ar_sub A off) = Ok (off - off div 512 * 512)"
    unfolding mul chain.simps
    by (rule sub_fits) (simp add: word_le_nat_alt first_sector_bytes(2) div_times_less_eq_dividend)
qed

text \<open>Up to the physical offset no value leaves its range.\<close>

lemma plan_eq:
  assumes "off < sz" and "0 < n" and "n < 2 ^ 64"
  defines "w \<equiv> min n (unat sz - unat off)"
  shows "read_plan_in A base sz off n =
    chain (ok_or (checked_mul_usize (sector_span (unat off) w) 512) (OutOfRange ''read region length'')) (\<lambda>region_len.
    chain (zeroed_vec region_len) (\<lambda>region.
    chain (ar_add A base (off div 512 * 512)) (\<lambda>physical. Ok (off div 512, w, region, physical))))"
proof -
  have lt: "unat off < unat sz"
    using assms(1) by (simp add: word_less_nat_alt)
  then have w: "0 < w" "unat off + w < 2 ^ 64"
    using assms(2) unat_u64_less [of sz] by (auto simp: w_def)
  have avail: "ar_sub A sz off = Ok (sz - off)" "unat (sz - off) = unat sz - unat off"
    using assms(1) by (simp_all add: sub_fits less_imp_le unat_sub)
  have want: "unat (min (of_nat n) (sz - off)) = w"
    using assms(3) avail(2) by (simp add: w_def min_def word_le_nat_alt unat_of_nat_fit)
  note ar = sector_arith [OF w]
  have "ar_add A off (of_nat w) = Ok (off + of_nat w)"
    using w(2) ar(1) by (intro add_fits) simp
  moreover have "ar_sub A (off + of_nat w) 1 = Ok (off + of_nat w - 1)"
    using ar(2) by (rule sub_fits)
  moreover have "ar_sub A ((off + of_nat w - 1) div 512) (off div 512) = Ok ((off + of_nat w - 1) div 512 - off div 512)"
    using ar(3) by (rule sub_fits)
  moreover have "ar_add A ((off + of_nat w - 1) div 512 - off div 512) 1 = Ok ((off + of_nat w - 1) div 512 - off div 512 + 1)"
    using ar(4) by (intro add_fits) simp
  ultimately show ?thesis
    unfolding read_plan_in_def Let_def SECTOR_SIZE_def
    by (simp only: avail(1) want of_nat_numeral chain.simps first_sector_start(1) ar(5))
qed

text \<open>What a read does, as long as the physical offset stays in its range.\<close>

lemma read_at_eq:
  assumes "off < dv_size dv" and "0 < n" and "n < 2 ^ 63"
    and "ar_add A (dv_physical_base dv) (off div 512 * 512) = Ok physical"
  defines "w \<equiv> min n (unat (dv_size dv) - unat off)" and "d \<equiv> unat (off - off div 512 * 512)"
  shows "read_at_in A P ops off n dv =
    andThen (return (chain (ok_or (checked_mul_usize (sector_span (unat off) w) 512) (OutOfRange ''read region length''))
        zeroed_vec)) (\<lambda>region.
    andThen (on_reader (from_io (seek_start ops physical))) (\<lambda>_.
    andThen (on_reader (from_io (read_full_or_eof_in A ops region))) (\<lambda>region.
    return
      (chain (decrypt_units P region (vk_vmk (dv_keys dv)) (vk_tweak_key (dv_keys dv)) 512 (ucast (off div 512))) (\<lambda>region.
       ok_or (slice_get region d (d + w)) (OutOfRange ''decrypted window'')))))) dv"
proof -
  have "d < 512"
    unfolding d_def unat_sector_rel(2) by (simp add: minus_div_mult_eq_mod)
  then have stop: "ar_usize_add A d w = Ok (d + w)"
    using assms(3) by (intro usize_fits) (simp add: w_def)
  have "w \<le> n"
    by (simp add: w_def)
  have plan: "read_plan_in A (dv_physical_base dv) (dv_size dv) off n =
      chain (chain (ok_or (checked_mul_usize (sector_span (unat off) w) 512) (OutOfRange ''read region length'')) zeroed_vec)
        (\<lambda>region. Ok (off div 512, w, region, physical))"
    using plan_eq [OF assms(1,2)] assms(3,4) by (simp add: w_def)
  have inside: "\<not> (dv_size dv \<le> off \<or> n = 0)"
    using assms(1,2) by auto
  note rules = first_sector_start(2) chain.simps Let_def d_def [symmetric] stop \<open>w \<le> n\<close> if_True split_conv chain_Ok_right
  show ?thesis
  proof (cases "chain (ok_or (checked_mul_usize (sector_span (unat off) w) 512) (OutOfRange ''read region length'')) zeroed_vec :: bytes fv")
    case (Ok region)
    then show ?thesis
      unfolding read_at_in_def if_not_P [OF inside] plan SECTOR_SIZE_def of_nat_numeral
      by (simp only: andThen_return rules)
  qed (unfold read_at_in_def if_not_P [OF inside] plan, simp_all)
qed

lemma read_at_result:
  assumes "off < dv_size dv" and "0 < n" and "n < 2 ^ 63"
    and "ar_add A (dv_physical_base dv) (off div 512 * 512) = Ok physical"
    and "read_at_in A P ops off n dv = Some (dv', Ok bs)"
  shows "length bs = min n (unat (dv_size dv) - unat off)" and "dv_position dv' = dv_position dv"
  using assms(5) unfolding read_at_eq [OF assms(1-4)]
  by (auto simp: andThen_eq_Ok return_def on_reader_def comp_iff slice_get_def split: if_splits)

end

interpretation debug: machine_arithmetic debug
  by unfold_locales (simp_all add: debug_def word_add_def word_sub_def word_mul_def usize_add_def)

interpretation release: machine_arithmetic release
  by unfold_locales (simp_all add: release_def)

section \<open>Readers and their counts\<close>

text \<open>
  A reader that, asked for fewer than \<open>2^63\<close> bytes, reports fewer than \<open>2^63\<close>. Every reader does that
  keeps the promise of \<open>Read::read\<close> to report no more bytes than it was asked for, whatever else it
  does; \<open>good\<close> is what holds of its state.
\<close>

locale counted_reader =
  fixes ops :: "'r read_seek" and good :: "'r \<Rightarrow> bool"
  assumes seek_law: "\<lbrakk>good r; rd_seek ops r (Start off) = (r', sres)\<rbrakk> \<Longrightarrow> good r'"
    and count_law: "\<lbrakk>good r; 0 < n; n < 2 ^ 63; rd_read ops r n = (r', res)\<rbrakk> \<Longrightarrow>
      good r' \<and> (\<forall>bs. res = Ok bs \<longrightarrow> length bs < 2 ^ 63)"
begin

text \<open>Over such a reader two additions that are exact within the range fill a buffer alike.\<close>

lemma loop_le:
  assumes "read_full_loop_in add ops buf filled r = Some y"
    and "\<And>i j. i + j < 2 ^ 64 \<Longrightarrow> add i j = Ok (i + j)" and "\<And>i j. i + j < 2 ^ 64 \<Longrightarrow> add' i j = Ok (i + j)"
    and "good r" and "length buf < 2 ^ 63"
  shows "read_full_loop_in add' ops buf filled r = Some y"
proof -
  let ?P = "\<lambda>add ops' buf filled r y. ops' = ops \<longrightarrow> (\<forall>i j. i + j < 2 ^ 64 \<longrightarrow> add i j = Ok (i + j)) \<longrightarrow> good r \<longrightarrow>
    length buf < 2 ^ 63 \<longrightarrow> read_full_loop_in add' ops buf filled r = Some y"
  have "?P add ops buf filled r y"
  proof (rule read_full_loop_in.raw_induct [of ?P, OF _ assms(1)], intro impI)
    fix loop add ops' buf filled r y
    assume IH: "\<And>add ops' buf filled r y. loop add ops' buf filled r = Some y \<Longrightarrow> ?P add ops' buf filled r y"
      and body: "(if filled < length buf then
           (case rd_read ops' r (length buf - filled) of
             (r', Ok bs) \<Rightarrow>
               (if bs = [] then Some (r', buf, Ok ())
                else
                  (case add filled (length bs) of
                    Ok filled' \<Rightarrow> loop add ops' (copy_at filled (take (length buf - filled) bs) buf) filled' r'
                  | _ \<Rightarrow> Some (r', copy_at filled (take (length buf - filled) bs) buf, Panic)))
           | (r', Err e) \<Rightarrow> (if e = Interrupted then loop add ops' buf filled r' else Some (r', buf, Err e))
           | (r', Panic) \<Rightarrow> Some (r', buf, Panic))
         else Some (r, buf, Ok ())) = Some y"
      and ops: "ops' = ops" and fits: "\<forall>i j. i + j < 2 ^ 64 \<longrightarrow> add i j = Ok (i + j)" and good: "good r" and small: "length buf < 2 ^ 63"
    show "read_full_loop_in add' ops buf filled r = Some y"
    proof (cases "filled < length buf")
      case True
      obtain r' res where rd: "rd_read ops r (length buf - filled) = (r', res)"
        by (cases "rd_read ops r (length buf - filled)")
      have law: "good r'" "length bs < 2 ^ 63" if "res = Ok bs" for bs
        using count_law [OF good _ _ rd] True small that by auto
      have law': "good r'"
        using count_law [OF good _ _ rd] True small by auto
      show ?thesis
      proof (cases res)
        case (Ok bs)
        then have sum: "filled + length bs < 2 ^ 64"
          using law(2) [OF Ok] True small by simp
        then have "add filled (length bs) = Ok (filled + length bs)" "add' filled (length bs) = Ok (filled + length bs)"
          using fits assms(3) by auto
        moreover have "length (copy_at filled (take (length buf - filled) bs) buf) = length buf"
          using True by simp
        ultimately show ?thesis
          using IH body [unfolded ops] True rd Ok law' small fits
          by (subst read_full_loop_in.simps) (auto split: if_splits)
      qed (use IH body [unfolded ops] True rd law' small fits in
          \<open>(subst read_full_loop_in.simps, auto split: if_splits)+\<close>)
    qed (use body in \<open>subst read_full_loop_in.simps, simp\<close>)
  qed
  then show ?thesis
    using assms by blast
qed

lemma fill_agrees:
  assumes "machine_arithmetic A" and "good r" and "length buf < 2 ^ 63"
  shows "read_full_or_eof_in A ops buf r = read_full_or_eof ops buf r"
proof -
  note fits = machine_arithmetic.usize_fits [OF assms(1)]
  have "read_full_loop_in (ar_usize_add A) ops buf 0 r = read_full_loop_in usize_add ops buf 0 r"
  proof (cases "read_full_loop_in usize_add ops buf 0 r")
    case None
    then show ?thesis
      using loop_le [OF _ fits usize_add_Ok assms(2,3), of 0] by (metis not_Some_eq option.distinct(1))
  next
    case (Some y)
    then show ?thesis
      using loop_le [OF Some usize_add_Ok fits assms(2,3)] by simp
  qed
  then show ?thesis
    by (simp add: read_full_or_eof_in_def read_full_or_eof_def read_full_loop_def)
qed

lemma fetch_agrees:
  assumes "machine_arithmetic A" and "good (dv_reader dv)" and "length buf < 2 ^ 63"
  shows "andThen (on_reader (from_io (seek_start ops physical))) (\<lambda>_.
      andThen (on_reader (from_io (read_full_or_eof_in A ops buf))) g) dv =
    andThen (on_reader (from_io (seek_start ops physical))) (\<lambda>_.
      andThen (on_reader (from_io (read_full_or_eof ops buf))) g) dv"
proof -
  obtain r' res where sk: "rd_seek ops (dv_reader dv) (Start physical) = (r', res)"
    by (cases "rd_seek ops (dv_reader dv) (Start physical)")
  then show ?thesis
    using fill_agrees [OF assms(1) seek_law [OF assms(2) sk] assms(3)]
    by (cases res) (simp_all add: andThen_def on_reader_def from_io_def seek_start_def)
qed

lemma read_at_eq:
  assumes "machine_arithmetic A" and "good (dv_reader dv)" and "off < dv_size dv" and "0 < n" and "n < 2 ^ 63"
    and "ar_add A (dv_physical_base dv) (off div 512 * 512) = Ok physical"
  defines "w \<equiv> min n (unat (dv_size dv) - unat off)" and "d \<equiv> unat (off - off div 512 * 512)"
  shows "read_at_in A P ops off n dv =
    andThen (return (chain (ok_or (checked_mul_usize (sector_span (unat off) w) 512) (OutOfRange ''read region length''))
        zeroed_vec)) (\<lambda>region.
    andThen (on_reader (from_io (seek_start ops physical))) (\<lambda>_.
    andThen (on_reader (from_io (read_full_or_eof ops region))) (\<lambda>region.
    return
      (chain (decrypt_units P region (vk_vmk (dv_keys dv)) (vk_tweak_key (dv_keys dv)) 512 (ucast (off div 512))) (\<lambda>region.
       ok_or (slice_get region d (d + w)) (OutOfRange ''decrypted window'')))))) dv"
proof -
  have small: "length region < 2 ^ 63" if "chain (ok_or x e) zeroed_vec = (Ok region :: bytes fv)" for x e region
    using that by (auto simp: comp_iff zeroed_vec_def split: if_splits)
  show ?thesis
  proof (cases "chain (ok_or (checked_mul_usize (sector_span (unat off) w) 512) (OutOfRange ''read region length''))
      zeroed_vec :: bytes fv")
    case (Ok region)
    show ?thesis
      unfolding machine_arithmetic.read_at_eq [OF assms(1,3-6), folded w_def d_def] Ok andThen_return
      by (rule fetch_agrees [OF assms(1,2) small [OF Ok]])
  qed (simp_all only: machine_arithmetic.read_at_eq [OF assms(1,3-6), folded w_def d_def] andThen_return_Err
      andThen_return_Panic)
qed

end

text \<open>A conforming reader of an image is one of them, and so is a cursor in any state.\<close>

sublocale image_reader \<subseteq> counted: counted_reader ops ok
proof unfold_locales
  show "ok r'" if "ok r" "rd_seek ops r (Start off) = (r', sres)" for r off r' sres
    using seek_start_law [OF that] by blast
  show "ok r' \<and> (\<forall>bs. res = Ok bs \<longrightarrow> length bs < 2 ^ 63)"
    if "ok r" "0 < n" "n < 2 ^ 63" "rd_read ops r n = (r', res)" for r n r' res
    using read_law [OF that(1,2) _ that(4)] that(3) by auto
qed

interpretation any_cursor: counted_reader cursor_ops "\<lambda>_. True"
  by unfold_locales (auto simp: cursor_ops_def cursor_read_def)

text \<open>
  The bound is needed: a reader that breaks its promise after a first byte makes the sum of the bytes
  filled overflow. A debug build panics; a release build starts to fill the buffer again.
\<close>

definition boasting_ops :: "nat read_seek" where
  "boasting_ops = \<lparr>rd_read = (\<lambda>calls n. (Suc calls, Ok (if calls = 0 then [1] else if calls = 1 then replicate (2 ^ 64 - 1) 2 else []))),
    rd_seek = (\<lambda>calls p. (calls, Ok 0))\<rparr>"

lemma boasting_reader:
  assumes "2 \<le> length buf"
  shows "\<exists>buf'. read_full_loop boasting_ops buf 0 0 = Some (Suc 1, buf', Panic)"
    and "\<exists>buf'. read_full_loop_in (ar_usize_add release) boasting_ops buf 0 0 = Some (Suc (Suc 1), buf', Ok ())"
proof -
  have buf: "buf \<noteq> []" "Suc 0 < length buf" "length (copy_at 0 [1] buf) = length buf"
    using assms by (cases buf, auto)
  have fill: "length (copy_at (Suc 0) (take (length buf - Suc 0) (replicate (2 ^ 64 - 1) 2)) (copy_at 0 [1] buf)) = length buf"
    using buf by (subst length_copy_at) auto
  show "\<exists>buf'. read_full_loop boasting_ops buf 0 0 = Some (Suc 1, buf', Panic)"
    using buf by (subst read_full_loop_simps, subst read_full_loop_simps)
      (simp add: boasting_ops_def usize_add_def del: length_copy_at)
  show "\<exists>buf'. read_full_loop_in (ar_usize_add release) boasting_ops buf 0 0 = Some (Suc (Suc 1), buf', Ok ())"
    using buf fill by (subst read_full_loop_in.simps, subst read_full_loop_in.simps, subst read_full_loop_in.simps)
      (simp add: boasting_ops_def release_def del: length_copy_at)
qed

section \<open>Where nothing overflows\<close>

context counted_reader
begin

lemma read_at_agrees:
  assumes "good (dv_reader dv)" and "n < 2 ^ 63" and "unat (dv_physical_base dv) + unat off div 512 * 512 < 2 ^ 64"
  shows "read_at_in release P ops off n dv = read_at_in debug P ops off n dv"
    and "read_at_in debug P ops off n dv = Some (dv', Ok bs) \<Longrightarrow>
      unat off + length bs < 2 ^ 64 \<and> dv_position dv' = dv_position dv"
proof -
  let ?physical = "dv_physical_base dv + off div 512 * 512"
  have add: "ar_add debug (dv_physical_base dv) (off div 512 * 512) = Ok ?physical"
      "ar_add release (dv_physical_base dv) (off div 512 * 512) = Ok ?physical"
    using assms(3) by (intro debug.add_fits release.add_fits; simp add: first_sector_bytes(2))+
  consider "off < dv_size dv" "0 < n" | "dv_size dv \<le> off \<or> n = 0"
    by fastforce
  note split = this
  from split show "read_at_in release P ops off n dv = read_at_in debug P ops off n dv"
  proof cases
    case 1
    then show ?thesis
      unfolding read_at_eq [OF debug.machine_arithmetic_axioms assms(1) 1 assms(2) add(1)]
        read_at_eq [OF release.machine_arithmetic_axioms assms(1) 1 assms(2) add(2)] by simp
  qed (simp add: read_at_in_def)
  assume ok: "read_at_in debug P ops off n dv = Some (dv', Ok bs)"
  from split show "unat off + length bs < 2 ^ 64 \<and> dv_position dv' = dv_position dv"
  proof cases
    case 1
    then show ?thesis
      using debug.read_at_result [OF 1 assms(2) add(1) ok] unat_u64_less [of "dv_size dv"] by (auto simp: word_less_nat_alt)
  next
    case 2
    then show ?thesis
      using ok unat_u64_less [of off] by (auto simp: read_at_in_def return_def)
  qed
qed

lemma read_agrees:
  assumes "good (dv_reader dv)" and "n < 2 ^ 63"
    and "unat (dv_physical_base dv) + unat (dv_position dv) div 512 * 512 < 2 ^ 64"
  shows "read_in release P ops n dv = read_in debug P ops n dv"
proof -
  have "ar_add A (dv_position dv') (of_nat (length bs)) = Ok (dv_position dv + of_nat (length bs))"
    if "read_at_in debug P ops (dv_position dv) n dv = Some (dv', Ok bs)" "A = debug \<or> A = release" for A dv' bs
  proof -
    have "unat (dv_position dv) + length bs < 2 ^ 64" and pos: "dv_position dv' = dv_position dv"
      using read_at_agrees(2) [OF assms that(1)] by blast+
    moreover from this have "unat (of_nat (length bs) :: u64) = length bs"
      by (intro unat_of_nat_fit) simp
    ultimately show ?thesis
      using that(2) debug.add_fits release.add_fits by auto
  qed
  then show ?thesis
    by (auto simp: read_in_def read_at_agrees(1) [OF assms] split: option.split prod.split comp.split)
qed

end

section \<open>A volume whose base leaves the range\<close>

text \<open>
  Where the physical offset wraps, a release build reads from near the beginning of the image. The
  offset is that of an image to which as many bytes are put in front as are missing to \<open>2^64\<close>.
\<close>

lemma wrapped_offset:
  fixes base off :: u64
  assumes "2 ^ 64 \<le> unat base + unat off div 512 * 512"
  shows "unat (base + off div 512 * 512) = unat off div 512 * 512 - (2 ^ 64 - unat base)"
proof -
  have "unat off div 512 * 512 < 2 ^ 64"
    using unat_u64_less [of off] by (simp add: div_times_less_eq_dividend le_less_trans)
  then have "(unat base + unat off div 512 * 512) mod 2 ^ 64 = unat base + unat off div 512 * 512 - 2 ^ 64"
    using assms unat_u64_less [of base] by (subst le_mod_geq) simp_all
  moreover have "unat (base + off div 512 * 512) = (unat base + unat off div 512 * 512) mod 2 ^ 64"
    by (simp only: unat_word_ariths(1) first_sector_bytes(2)) simp
  ultimately show ?thesis
    using assms unat_u64_less [of base] by linarith
qed

definition shifted_plain :: "prims \<Rightarrow> ('r \<Rightarrow> bytes) \<Rightarrow> 'r DecryptedVolume \<Rightarrow> bytes" where
  "shifted_plain P img dv = plaintext P (dv_keys dv) 0 (unat (dv_size dv))
    (replicate (2 ^ 64 - unat (dv_physical_base dv)) 0 @ img (dv_reader dv))"

lemma wrapped_slice:
  assumes "xts_documented P" and "keys_ok (dv_keys dv)" and "unat (dv_size dv) < 2 ^ 63"
    and "off < dv_size dv" and "0 < n" and "2 ^ 64 \<le> unat (dv_physical_base dv) + unat off div 512 * 512"
  defines "w \<equiv> min n (unat (dv_size dv) - unat off)" and "d \<equiv> unat (off - off div 512 * 512)"
    and "phys \<equiv> unat (dv_physical_base dv + off div 512 * 512)"
  defines "m \<equiv> sector_span (unat off) w * 512"
  obtains y where "decrypt_units P (take m (drop phys (img (dv_reader dv)) @ replicate m 0)) (vk_vmk (dv_keys dv))
      (vk_tweak_key (dv_keys dv)) 512 (of_nat (unat off div 512)) = (Ok y :: bytes fv)"
    and "slice_get y d (d + w) = Some (window (unat off) n (shifted_plain P img dv))"
proof -
  let ?sz = "unat (dv_size dv)" and ?f = "unat off div 512" and ?gap = "2 ^ 64 - unat (dv_physical_base dv)"
  let ?img = "img (dv_reader dv)"
  have w: "0 < w" "unat off + w \<le> ?sz"
    using assms(4,5) by (auto simp: w_def word_less_nat_alt)
  have rest: "drop (0 + ?f * 512) (replicate ?gap 0 @ ?img) = drop phys ?img"
    using assms(6) wrapped_offset [OF assms(6)] by (simp add: phys_def)
  obtain y where y: "decrypt_units P (take m (drop phys ?img @ replicate m 0)) (vk_vmk (dv_keys dv))
        (vk_tweak_key (dv_keys dv)) 512 (of_nat ?f) = (Ok y :: bytes fv)" "d + w \<le> length y"
      "window d w y = window (unat off) w (shifted_plain P img dv)"
    using decrypt_enclosing_sectors [OF assms(1-3) w, of 0 "replicate ?gap 0 @ ?img"]
    unfolding rest d_def unat_sector_rel(2) m_def shifted_plain_def by metis
  have len: "length (shifted_plain P img dv) = ?sz"
    unfolding shifted_plain_def using assms(3) by (intro length_plaintext [OF assms(1,2)]) simp
  have "window (unat off) w (shifted_plain P img dv) = window (unat off) n (shifted_plain P img dv)"
    unfolding w_def len [symmetric] min.commute [of n] by (rule window_min_length)
  then show thesis
    using that [OF y(1)] y(2,3) by (simp add: slice_get_def)
qed

context image_reader
begin

lemma release_wrapped:
  assumes "xts_documented P" and "keys_ok (dv_keys dv)" and "ok (dv_reader dv)"
    and "unat (dv_size dv) + 1024 \<le> 2 ^ 63" and "off < dv_size dv" and "0 < n" and "n < 2 ^ 63"
    and "2 ^ 64 \<le> unat (dv_physical_base dv) + unat off div 512 * 512"
  shows "\<exists>r'. read_at_in release P ops off n dv =
    Some (dv\<lparr>dv_reader := r'\<rparr>, Ok (window (unat off) n (shifted_plain P image dv)))"
proof -
  let ?sz = "unat (dv_size dv)" and ?f = "unat off div 512" and ?img = "image (dv_reader dv)"
  let ?phys = "dv_physical_base dv + off div 512 * 512"
  define w d where "w = min n (?sz - unat off)" and "d = unat (off - off div 512 * 512)"
  have off: "unat off < ?sz"
    using assms(5) by (simp add: word_less_nat_alt)
  then have w: "0 < w" "w + 1024 \<le> 2 ^ 63" and sz: "?sz < 2 ^ 63"
    using assms(4,6) by (auto simp: w_def)
  let ?m = "sector_span (unat off) w * 512"
  have m: "?m < 2 ^ 63"
    using sector_span_covers(3) [OF w(1), of "unat off"] w(2) by simp
  then have m64: "?m < 2 ^ 64"
    by simp
  have small: "unat ?phys < 2 ^ 63"
    using wrapped_offset [OF assms(8)] off sz div_times_less_eq_dividend [of "unat off" 512] by simp
  obtain y where y: "decrypt_units P (take ?m (drop (unat ?phys) ?img @ replicate ?m 0)) (vk_vmk (dv_keys dv))
        (vk_tweak_key (dv_keys dv)) 512 (of_nat ?f) = (Ok y :: bytes fv)"
      "slice_get y d (d + w) = Some (window (unat off) n (shifted_plain P image dv))"
    using wrapped_slice [OF assms(1,2) sz assms(5,6,8)] unfolding w_def d_def by metis
  obtain r' where g: "\<And>g :: bytes \<Rightarrow> ('r DecryptedVolume, FileVaultError, bytes) action.
      andThen (on_reader (from_io (seek_start ops ?phys))) (\<lambda>_.
      andThen (on_reader (from_io (read_full_or_eof ops (replicate ?m 0)))) g) dv =
      g (take ?m (drop (unat ?phys) ?img @ replicate ?m 0)) (dv\<lparr>dv_reader := r'\<rparr>)"
    using fetch_region [OF assms(3) small m64] by metis
  have region: "chain (ok_or (checked_mul_usize (sector_span (unat off) w) 512) (OutOfRange ''read region length''))
      zeroed_vec = (Ok (replicate ?m 0) :: bytes fv)"
    using m by (simp add: checked_mul_usize_def zeroed_vec_def)
  have sum: "ar_add release (dv_physical_base dv) (off div 512 * 512) = Ok ?phys"
    by (simp add: release_def)
  show ?thesis
    unfolding counted.read_at_eq [OF release.machine_arithmetic_axioms assms(3,5-7) sum, folded w_def d_def] region andThen_return g ucast_div_512
      y chain.simps ok_or.simps return_def by blast
qed

end

section \<open>Properties\<close>

text \<open>
  C22 The build profiles agree: over any reader that never reports \<open>2^63\<close> bytes or more for a request
  below that, as every implementation of \<open>Read\<close> promises by reporting at most what it was asked for,
  a read whose first sector lies in the 64-bit range from the physical base gives the same volume and
  the same outcome, errors and interruptions included, whether arithmetic is checked or wraps; so does
  a read at the position of the stream. All sums, differences and products of a read, the count of the
  bytes filled among them, stay in their range for every volume and every request, except that one.
\<close>

theorem profiles_agree:
  assumes "counted_reader ops good" and "good (dv_reader dv)"
    and "n < 2 ^ 63" and "unat (dv_physical_base dv) + unat off div 512 * 512 < 2 ^ 64"
  shows "read_at_in release P ops off n dv = DecryptedVolume_read_at P ops off n dv \<and>
    (dv_position dv = off \<longrightarrow> read_in release P ops n dv = DecryptedVolume_read P ops n dv)"
  using counted_reader.read_at_agrees(1) [OF assms] counted_reader.read_agrees [OF assms(1-3)] assms(4)
  by (auto simp: debug_read_at debug_read)

theorem profiles_agree_witness:
  "read_at_in release demo_prims cursor_ops 0 3 sample_volume = DecryptedVolume_read_at demo_prims cursor_ops 0 3 sample_volume \<and>
    read_in release demo_prims cursor_ops 3 sample_volume = DecryptedVolume_read demo_prims cursor_ops 3 sample_volume"
proof -
  have "unat (dv_physical_base sample_volume) + unat (0 :: u64) div 512 * 512 < 2 ^ 64" "dv_position sample_volume = 0"
    by (simp_all add: sample_volume_def DecryptedVolume_new_def)
  then show ?thesis
    using profiles_agree [OF any_cursor.counted_reader_axioms, of 3 sample_volume 0 demo_prims] by simp
qed

text \<open>
  C38 Where the physical offset of the first sector overflows, no build reports an error. A debug build
  panics before it reads anything. A release build returns, over a conforming reader, as many bytes
  as were asked for, but they are the plaintext of an image to which \<open>2^64\<close> minus the physical base
  bytes were put in front: what is read is decrypted from the beginning of the image, where the volume
  is not. The base comes from the image.
\<close>

theorem read_at_base_overflow:
  assumes "image_reader ops ok img pos patience" and "ok (dv_reader dv)"
    and "xts_documented P" and "keys_ok (dv_keys dv)"
    and "unat (dv_size dv) + 1024 \<le> 2 ^ 63" and "off < dv_size dv" and "0 < n" and "n < 2 ^ 63"
    and "2 ^ 64 \<le> unat (dv_physical_base dv) + unat off div 512 * 512"
  shows "DecryptedVolume_read_at P ops off n dv = Some (dv, Panic) \<and>
    (\<exists>dv' bs. read_at_in release P ops off n dv = Some (dv', Ok bs) \<and>
      length bs = min n (unat (dv_size dv) - unat off) \<and>
      bs = window (unat off) n (plaintext P (dv_keys dv) 0 (unat (dv_size dv))
        (replicate (2 ^ 64 - unat (dv_physical_base dv)) 0 @ img (dv_reader dv))))"
proof (rule conjI)
  show "DecryptedVolume_read_at P ops off n dv = Some (dv, Panic)"
    using assms(5,8) by (intro read_at_overflows [OF assms(6,7) _ _ assms(9)]) auto
  show "\<exists>dv' bs. read_at_in release P ops off n dv = Some (dv', Ok bs) \<and>
      length bs = min n (unat (dv_size dv) - unat off) \<and>
      bs = window (unat off) n (plaintext P (dv_keys dv) 0 (unat (dv_size dv))
        (replicate (2 ^ 64 - unat (dv_physical_base dv)) 0 @ img (dv_reader dv)))"
    using image_reader.release_wrapped [OF assms(1,3,4,2,5-9)] assms(5)
      length_plaintext [OF assms(3,4), of "unat (dv_size dv)"]
    by (auto simp: shifted_plain_def)
qed

theorem read_at_base_overflow_witness:
  "\<exists>dv' bs. read_at_in release demo_prims cursor_ops 512 4
      (sample_volume\<lparr>dv_physical_base := 0xFFFFFFFFFFFFFE00, dv_size := 1024\<rparr>) = Some (dv', Ok bs) \<and> length bs = 4"
proof -
  let ?dv = "sample_volume\<lparr>dv_physical_base := 0xFFFFFFFFFFFFFE00, dv_size := 1024\<rparr>"
  have "cursor_ok (dv_reader ?dv)" "keys_ok (dv_keys ?dv)"
    using sample_volume_ok by (simp_all add: volume_ok_def)
  then show ?thesis
    using read_at_base_overflow [OF cur.image_reader_axioms, of ?dv demo_prims 512 4] demo_documented(1)
    by auto
qed

end
