(* ===== verification/Fuzz.thy ===== *)
theory Fuzz
  imports FileVault
begin

text \<open>
  The fuzz target (\<open>core/fuzz/fuzz_targets/fuzz_metadata.rs\<close>): it runs every parser on arbitrary bytes
  and throws the results away; the only thing a run can show is a panic, or that it does not return.
\<close>

text \<open>\<open>let _ = e\<close>: a value or an error is dropped, a panic is not.\<close>

fun discard :: "('e, 'a) comp \<Rightarrow> unit fv" where
  "discard (Ok _) = Ok ()"
| "discard (Err _) = Ok ()"
| "discard Panic = Panic"

definition fuzz_target :: "prims \<Rightarrow> bytes \<Rightarrow> unit fv option" where
  "fuzz_target P data =
    (case parse_info P cursor_ops (cursor_new data) of
      None \<Rightarrow> None
    | Some (_, info) \<Rightarrow> Some (
        chain (discard info) (\<lambda>_.
        chain (case parse data of
            Ok header \<Rightarrow>
              chain (discard (plaintext_metadata_size header data)) (\<lambda>_.
                discard (locate_encrypted_metadata header data))
          | Err _ \<Rightarrow> Ok ()
          | Panic \<Rightarrow> Panic) (\<lambda>_.
        chain (discard (parse_segments data 4096 :: SegmentEntry list fv)) (\<lambda>_.
        chain (discard (parse_segments data 0 :: SegmentEntry list fv)) (\<lambda>_.
        chain (discard (extract_context P data)) (\<lambda>_.
          discard (extract_lv_info data))))))))"

lemma discard_no_panic: "c \<noteq> Panic \<Longrightarrow> discard c = Ok ()"
  by (cases c) simp_all

text \<open>
  C16 What the fuzz target can find: on every input it returns, and it panics exactly when the input
  is an image with a valid header whose encrypted metadata is found and ends in a partial XTS unit
  of one to fifteen bytes. On no other bytes does any of the parsers it runs panic.
\<close>

theorem fuzz_target_outcome:
  assumes "length data < 2 ^ 63" and "xts_documented P"
  shows "fuzz_target P data =
    Some (if \<exists>h ct. chain (image_at data 0 512) parse = Ok h \<and> ciphertext_spec data h = Ok ct \<and> short_unit ct
      then Panic else Ok ())"
proof -
  have "cursor_ok (cursor_new data)" and "cur_data (cursor_new data) = data"
    using assms(1) by (simp_all add: cursor_ok_def cursor_new_def)
  then obtain r c where c: "parse_info P cursor_ops (cursor_new data) = Some (r, c)" "io_eq c (info_spec P data)"
    using cur.reads_as_info [of data P] unfolding reads_as_def by blast
  have pure: "discard (plaintext_metadata_size h data) = Ok ()" "discard (locate_encrypted_metadata h data) = Ok ()"
      "discard (extract_context P data) = Ok ()" "discard (extract_lv_info data) = Ok ()"
      "discard (parse_segments data n :: SegmentEntry list fv) = Ok ()" if "n < 2 ^ 64" for h n
    using that assms(1)
    by (simp_all add: discard_no_panic plaintext_metadata_size_no_panic locate_no_panic extract_context_no_panic
        extract_lv_info_no_panic parse_segments_eq)
  have header: "(case parse data of
      Ok header \<Rightarrow> chain (discard (plaintext_metadata_size header data)) (\<lambda>_.
        discard (locate_encrypted_metadata header data))
    | Err _ \<Rightarrow> Ok () | Panic \<Rightarrow> Panic) = (Ok () :: unit fv)"
    using pure [of 0] parse_no_panic [of data] by (simp split: comp.split)
  have "fuzz_target P data = Some (discard c)"
    using c(1) header pure [of 4096] pure [of 0] by (simp add: fuzz_target_def)
  moreover have "c = Panic \<longleftrightarrow> info_spec P data = Panic"
    using c(2) by (auto dest: io_eq_PanicD)
  ultimately show ?thesis
    unfolding info_spec_Panic [OF assms(2), symmetric] by (cases c) auto
qed

theorem fuzz_target_outcome_witness:
  "fuzz_target demo_prims (replicate 600 0) = Some (Ok ())"
proof -
  have "\<not> (\<exists>h. chain (image_at (replicate 600 0) 0 512) parse = Ok h)"
    by (simp add: image_at_def parse_eq field_zeros const_defs)
  then show ?thesis
    using fuzz_target_outcome [OF _ demo_documented(1), of "replicate 600 0"] by auto
qed

end
