(* ===== verification/Forensic.thy ===== *)
theory Forensic
  imports FileVault "HOL-Library.List_Lexorder" "HOL-Library.Multiset"
begin

text \<open>
  The anomaly auditor (\<open>forensic/src/lib.rs\<close>). The crate \<open>forensicnomicon\<close> supplies the names of
  severities and categories, the type of subjects, locations and findings, and the default method
  \<open>to_finding\<close> of its trait \<open>Observation\<close>; they are parameters (the record \<open>report_vocab\<close> and type
  variables). The structs that the auditor builds field by field are records.
\<close>

section \<open>Vocabulary of the report crate\<close>

record ('sev, 'cat) report_vocab =
  rv_info :: 'sev
  rv_medium :: 'sev
  rv_provenance :: 'cat
  rv_structure :: 'cat
  rv_integrity :: 'cat

record 'loc Evidence =
  evi_field :: bytes
  evi_value :: bytes
  evi_location :: "'loc option"

record Source =
  so_analyzer :: bytes
  so_scope :: bytes
  so_version :: "bytes option"

text \<open>What the trait \<open>Observation\<close> asks of an anomaly: the results of its seven methods.\<close>

record ('sev, 'cat, 'sub, 'loc) Observation =
  obs_severity :: "'sev option"
  obs_code :: bytes
  obs_note :: bytes
  obs_category :: 'cat
  obs_subjects :: "'sub list"
  obs_evidence :: "'loc Evidence list"
  obs_mitre :: "bytes list"

section \<open>Anomalies\<close>

definition ANALYZER :: bytes where
  [const_defs]: "ANALYZER = str ''filevault-forensic''"

definition WEAK_KDF_THRESHOLD :: u32 where
  [const_defs]: "WEAK_KDF_THRESHOLD = 20000"

datatype AnomalyKind =
  ProtectorInventory bytes nat
| EncryptionState bytes
| WeakKdfIterations u32

fun severity :: "('sev, 'cat) report_vocab \<Rightarrow> AnomalyKind \<Rightarrow> 'sev" where
  "severity V (ProtectorInventory _ _) = rv_info V"
| "severity V (EncryptionState _) = rv_info V"
| "severity V (WeakKdfIterations _) = rv_medium V"

fun code :: "AnomalyKind \<Rightarrow> bytes" where
  "code (ProtectorInventory _ _) = str ''FVDE-PROTECTOR-INVENTORY''"
| "code (EncryptionState _) = str ''FVDE-ENCRYPTION-STATE''"
| "code (WeakKdfIterations _) = str ''FVDE-WEAK-KDF-ITERATIONS''"

fun category :: "('sev, 'cat) report_vocab \<Rightarrow> AnomalyKind \<Rightarrow> 'cat" where
  "category V (ProtectorInventory _ _) = rv_provenance V"
| "category V (EncryptionState _) = rv_structure V"
| "category V (WeakKdfIterations _) = rv_integrity V"

fun anomaly_note :: "AnomalyKind \<Rightarrow> bytes" where
  "anomaly_note (ProtectorInventory s n) =
     str (show_nat n) @ str '' protector(s) present in the encryption context: '' @ s"
| "anomaly_note (EncryptionState s) =
     str ''logical volume conversion status is '' @ str [quote] @ s @ str [quote] @
     str '' (Complete = fully encrypted; Converting/Pending = in progress)''"
| "anomaly_note (WeakKdfIterations n) =
     str ''PBKDF2 iteration count is '' @ str (show_nat (unat n)) @ str '', below the '' @
     str (show_nat (unat WEAK_KDF_THRESHOLD)) @
     str '' threshold; consistent with weakened password key-stretching''"

definition mitre :: "AnomalyKind \<Rightarrow> bytes list" where
  "mitre k = []"

definition subjects :: "AnomalyKind \<Rightarrow> 'sub list" where
  "subjects k = []"

definition evidence_item :: "string \<Rightarrow> bytes \<Rightarrow> 'loc Evidence" where
  "evidence_item field v = \<lparr>evi_field = str field, evi_value = v, evi_location = None\<rparr>"

fun evidence :: "AnomalyKind \<Rightarrow> 'loc Evidence list" where
  "evidence (ProtectorInventory s n) =
     [evidence_item ''protectors'' s, evidence_item ''count'' (str (show_nat n))]"
| "evidence (EncryptionState s) = [evidence_item ''conversion_status'' s]"
| "evidence (WeakKdfIterations n) = [evidence_item ''pbkdf2_iterations'' (str (show_nat (unat n)))]"

record 'sev Anomaly =
  an_severity :: 'sev
  an_code :: bytes
  an_kind :: AnomalyKind
  an_note :: bytes

definition Anomaly_new :: "('sev, 'cat) report_vocab \<Rightarrow> AnomalyKind \<Rightarrow> 'sev Anomaly" where
  "Anomaly_new V k = \<lparr>an_severity = severity V k, an_code = code k, an_kind = k, an_note = anomaly_note k\<rparr>"

definition observe :: "('sev, 'cat) report_vocab \<Rightarrow> 'sev Anomaly \<Rightarrow> ('sev, 'cat, 'sub, 'loc) Observation" where
  "observe V a =
    \<lparr>obs_severity = Some (an_severity a), obs_code = an_code a, obs_note = an_note a,
     obs_category = category V (an_kind a), obs_subjects = subjects (an_kind a),
     obs_evidence = evidence (an_kind a), obs_mitre = mitre (an_kind a)\<rparr>"

section \<open>Auditing\<close>

fun join :: "bytes \<Rightarrow> bytes list \<Rightarrow> bytes" where
  "join sep [] = []"
| "join sep [x] = x"
| "join sep (x # y # ys) = x @ sep @ join sep (y # ys)"

definition protector_summary :: "FileVaultInfo \<Rightarrow> bytes" where
  "protector_summary info =
    (if fvi_protectors info = [] then str ''none''
     else
       let labels = map (\<lambda>p. str (label (pr_kind p))) (fvi_protectors info)
       in join (str '', '') (sort labels))"

definition audit_info :: "('sev, 'cat) report_vocab \<Rightarrow> FileVaultInfo \<Rightarrow> 'sev Anomaly list" where
  "audit_info V info =
    (let out = [Anomaly_new V (ProtectorInventory (protector_summary info) (length (fvi_protectors info)))];
         out = (case fvi_conversion_status info of
                  Some s \<Rightarrow> out @ [Anomaly_new V (EncryptionState s)]
                | None \<Rightarrow> out);
         out = (if fvi_pbkdf2_iterations info < WEAK_KDF_THRESHOLD
                then out @ [Anomaly_new V (WeakKdfIterations (fvi_pbkdf2_iterations info))]
                else out)
     in out)"

definition audit ::
  "('sev, 'cat) report_vocab \<Rightarrow> prims \<Rightarrow> 'r read_seek \<Rightarrow> ('r, FileVaultError, 'sev Anomaly list) action" where
  "audit V P ops = andThen (parse_info P ops) (\<lambda>info. return (Ok (audit_info V info)))"

text \<open>\<open>File::open\<close> is a parameter: the reader of the file, or the I/O error.\<close>

definition audit_path ::
  "('sev, 'cat) report_vocab \<Rightarrow> prims \<Rightarrow> 'r read_seek \<Rightarrow> ('path \<Rightarrow> (io_error, 'r) comp) \<Rightarrow> 'path \<Rightarrow>
    'sev Anomaly list fv option" where
  "audit_path V P ops open_file path =
    (case open_file path of
      Ok file \<Rightarrow> map_option snd (audit V P ops file)
    | Err e \<Rightarrow> Some (Err (Io e))
    | Panic \<Rightarrow> Some Panic)"

definition audit_findings ::
  "('sev, 'cat) report_vocab \<Rightarrow> prims \<Rightarrow> (('sev, 'cat, 'sub, 'loc) Observation \<Rightarrow> Source \<Rightarrow> 'f) \<Rightarrow>
    bytes \<Rightarrow> 'r read_seek \<Rightarrow> bytes \<Rightarrow> ('r, FileVaultError, 'f list) action" where
  "audit_findings V P to_finding pkg_version ops scope =
    (let source = \<lparr>so_analyzer = ANALYZER, so_scope = scope, so_version = Some pkg_version\<rparr> in
     andThen (audit V P ops) (\<lambda>anomalies.
       return (Ok (map (\<lambda>a. to_finding (observe V a) source) anomalies))))"

section \<open>The order of the kinds\<close>

text \<open>Kinds of protectors, ordered as their labels.\<close>

lemma label_inject: "label k = label l \<longleftrightarrow> k = l"
  by (cases k; cases l) simp_all

lemma str_label_inject: "str (label k) = str (label l) \<longleftrightarrow> k = l"
  by (cases k; cases l) simp_all

instantiation ProtectorKind :: linorder
begin

definition less_eq_ProtectorKind :: "ProtectorKind \<Rightarrow> ProtectorKind \<Rightarrow> bool" where
  "less_eq_ProtectorKind k l \<longleftrightarrow> str (label k) \<le> str (label l)"

definition less_ProtectorKind :: "ProtectorKind \<Rightarrow> ProtectorKind \<Rightarrow> bool" where
  "less_ProtectorKind k l \<longleftrightarrow> str (label k) < str (label l)"

instance
  by standard
    (use str_label_inject in \<open>auto simp: less_eq_ProtectorKind_def less_ProtectorKind_def less_le\<close>)

end

lemma sort_labels: "sort (map (\<lambda>p. str (label (f p))) xs) = map (\<lambda>k. str (label k)) (sort (map f xs))"
proof (rule properties_for_sort)
  show "mset (map (\<lambda>k. str (label k)) (sort (map f xs))) = mset (map (\<lambda>p. str (label (f p))) xs)"
    by (simp add: multiset.map_comp comp_def)
  show "sorted (map (\<lambda>k. str (label k)) (sort (map f xs)))"
    using sorted_sort [of "map f xs"]
    by (auto simp: sorted_wrt_map less_eq_ProtectorKind_def [abs_def] elim: sorted_wrt_mono_rel [rotated])
qed

context image_reader
begin

lemma reads_as_audit:
  "reads_as ok image bs (audit V P ops) (chain (info_spec P bs) (\<lambda>info. Ok (audit_info V info)))"
  unfolding audit_def by (intro reads_as_andThen [OF reads_as_info]) auto

end

section \<open>Properties\<close>

text \<open>
  C39 The audit reports exactly what the information holds: one inventory, with the number of
  protectors; an encryption state if and only if the conversion status is known, with that status;
  a weak-KDF anomaly if and only if the iteration count is below 20000, with that count. No code
  occurs twice, and every anomaly carries the severity, code and note of its kind.
\<close>

theorem audit_info_exact:
  "(\<exists>!n. ProtectorInventory (protector_summary info) n \<in> an_kind ` set (audit_info V info)) \<and>
   (ProtectorInventory s n \<in> an_kind ` set (audit_info V info) \<longleftrightarrow>
      s = protector_summary info \<and> n = length (fvi_protectors info)) \<and>
   (EncryptionState st \<in> an_kind ` set (audit_info V info) \<longleftrightarrow> fvi_conversion_status info = Some st) \<and>
   (WeakKdfIterations i \<in> an_kind ` set (audit_info V info) \<longleftrightarrow>
      i = fvi_pbkdf2_iterations info \<and> unat i < 20000) \<and>
   distinct (map an_code (audit_info V info)) \<and>
   list_all (\<lambda>a. a = Anomaly_new V (an_kind a)) (audit_info V info)"
  by (auto simp: audit_info_def Let_def Anomaly_new_def WEAK_KDF_THRESHOLD_def word_less_nat_alt
      split: option.splits if_splits)

text \<open>
  C40 The summary lists the label of every protector, once per protector: it is the kinds sorted in
  the alphabetical order of their labels. So it does not depend on the order in which the protectors
  were found, and without protectors it is \<open>none\<close>.
\<close>

theorem protector_summary_sorted:
  "protector_summary info =
    (if fvi_protectors info = [] then str ''none''
     else join (str '', '') (map (\<lambda>k. str (label k)) (sort (map pr_kind (fvi_protectors info))))) \<and>
   (mset (map pr_kind (fvi_protectors info)) = mset (map pr_kind (fvi_protectors info')) \<longrightarrow>
      protector_summary info = protector_summary info')"
proof -
  let ?k = "\<lambda>i. map pr_kind (fvi_protectors i)"
  have eq: "protector_summary i = (if ?k i = [] then str ''none''
      else join (str '', '') (map (\<lambda>k. str (label k)) (sort (?k i))))" for i
    by (simp add: protector_summary_def Let_def sort_labels comp_def del: str_Cons)
  have "sort (?k info) = sort (?k info') \<and> (?k info = [] \<longleftrightarrow> ?k info' = [])"
    if "mset (?k info) = mset (?k info')"
    using that by (metis mset_sort mset_zero_iff properties_for_sort sorted_sort)
  then show ?thesis
    by (simp add: eq del: str_Cons)
qed

definition sample_info :: "u32 list \<Rightarrow> FileVaultInfo" where
  "sample_info codes =
    \<lparr>fvi_physical_volume_identifier = [], fvi_pbkdf2_iterations = 90506, fvi_pbkdf2_salt = [],
     fvi_family_uuid = [], fvi_lv_identifier = None, fvi_lv_name = None, fvi_lv_size = 0,
     fvi_encryption_method = [], fvi_conversion_status = None,
     fvi_protectors = map protector_of codes\<rparr>"

theorem protector_summary_sorted_witness:
  "protector_summary (sample_info [0x10000009, 0x10000001]) =
    protector_summary (sample_info [0x10000001, 0x10000009])"
proof -
  have "mset (map pr_kind (fvi_protectors (sample_info [0x10000009, 0x10000001]))) =
      mset (map pr_kind (fvi_protectors (sample_info [0x10000001, 0x10000009])))"
    by (simp add: sample_info_def add_mset_commute)
  then show ?thesis
    using protector_summary_sorted by blast
qed

definition sample_vocab :: "(nat, nat) report_vocab" where
  "sample_vocab = \<lparr>rv_info = 0, rv_medium = 1, rv_provenance = 2, rv_structure = 3, rv_integrity = 4\<rparr>"

text \<open>
  Auditing an image is a function of its bytes: over every conforming reader the audit returns,
  and returns the anomalies of the information that the image holds, or the error with which reading
  that information fails.
\<close>

theorem audit_of_image:
  assumes "image_reader ops ok img pos patience" and "ok r"
  shows "\<exists>r' c. audit V P ops r = Some (r', c) \<and> img r' = img r \<and>
    io_eq c (chain (info_spec P (img r)) (\<lambda>info. Ok (audit_info V info)))"
  using image_reader.reads_as_audit [OF assms(1), of "img r" V P] assms(2) unfolding reads_as_def by blast

theorem audit_of_image_witness:
  "\<exists>r'. audit sample_vocab demo_prims cursor_ops (cursor_new (replicate 512 0)) = Some (r', Err (NotCoreStorage 0))"
proof -
  have "info_spec demo_prims (replicate 512 0) = Err (NotCoreStorage 0)"
    by (simp add: info_spec_def zero_header_image del: chain_assoc)
  then show ?thesis
    using audit_of_image [OF cur.image_reader_axioms, of "cursor_new (replicate 512 0)" sample_vocab demo_prims]
    by (auto simp: cursor_ok_def cursor_new_def io_eq_def)
qed

end
