(* ===== verification/Encoders.thy ===== *)
theory Encoders
  imports Xts Unlock
begin

text \<open>
  The encrypting side of the third-party crates, which only the fixtures of the program's tests
  call, and \<open>encrypt_units\<close> of \<open>core/src/xts.rs\<close>. As for the decrypting side, the crates are a record
  of functions and what they document is a set of named hypotheses; a concrete instance with the
  real base64 and UUID texts shows that they can hold together.

  \<^item> \<open>xts_encrypt_area E k1 k2 u i b\<close>: \<open>Xts128::encrypt_area\<close> with the default tweak; \<open>None\<close> when it panics.
  \<^item> \<open>kw_wrap E kek key\<close>: RFC 3394 key wrap, \<open>None\<close> when it fails.
  \<^item> \<open>base64_encode E bs\<close>: the standard alphabet's encoder, with padding.
\<close>

record encoders =
  xts_encrypt_area :: "bytes \<Rightarrow> bytes \<Rightarrow> nat \<Rightarrow> u128 \<Rightarrow> bytes \<Rightarrow> bytes option"
  kw_wrap :: "bytes \<Rightarrow> bytes \<Rightarrow> bytes option"
  base64_encode :: "bytes \<Rightarrow> bytes"

section \<open>What the crates document\<close>

text \<open>
  A unit that is encrypted and decrypted with the same keys and index is itself; an area is encrypted
  unit by unit, as it is decrypted.
\<close>

definition encrypt_documented :: "prims \<Rightarrow> encoders \<Rightarrow> bool" where
  "encrypt_documented P E \<longleftrightarrow>
    (\<forall>k1 k2 u i. length k1 = 16 \<and> length k2 = 16 \<and> 16 \<le> u \<longrightarrow>
      xts_encrypt_area E k1 k2 u i [] = Some [] \<and>
      (\<forall>a. 16 \<le> length a \<and> length a \<le> u \<longrightarrow>
        (\<exists>c. xts_encrypt_area E k1 k2 u i a = Some c \<and> length c = length a \<and>
          xts_decrypt_area P k1 k2 u i c = Some a)) \<and>
      (\<forall>a. 0 < length a \<and> length a < 16 \<longrightarrow> xts_encrypt_area E k1 k2 u i a = None) \<and>
      (\<forall>a c b. i + 1 \<noteq> 0 \<and> length a = u \<and> xts_encrypt_area E k1 k2 u i a = Some c \<longrightarrow>
        xts_encrypt_area E k1 k2 u i (a @ b) =
          map_option ((@) c) (xts_encrypt_area E k1 k2 u (i + 1) b)))"

definition wrapping_documented :: "prims \<Rightarrow> encoders \<Rightarrow> bool" where
  "wrapping_documented P E \<longleftrightarrow>
    (\<forall>kek k. length kek = 16 \<and> length k = 16 \<longrightarrow>
      (\<exists>w. kw_wrap E kek k = Some w \<and> length w = 24 \<and> kw_unwrap P kek w = Some k))"

text \<open>The alphabet of base64, with the padding, and that of a hyphenated UUID.\<close>

definition base64_byte :: "u8 \<Rightarrow> bool" where
  "base64_byte b \<longleftrightarrow> in_range 0x41 0x5A b \<or> in_range 0x61 0x7A b \<or> in_range 0x30 0x39 b \<or>
    b = 0x2B \<or> b = 0x2F \<or> b = 0x3D"

definition uuid_byte :: "u8 \<Rightarrow> bool" where
  "uuid_byte b \<longleftrightarrow> in_range 0x30 0x39 b \<or> in_range 0x61 0x66 b \<or> b = 0x2D"

definition text_documented :: "prims \<Rightarrow> encoders \<Rightarrow> bool" where
  "text_documented P E \<longleftrightarrow>
    (\<forall>bs. base64_decode P (base64_encode E bs) = Some bs \<and> list_all base64_byte (base64_encode E bs) \<and>
      length (base64_encode E bs) = 4 * ((length bs + 2) div 3)) \<and>
    (\<forall>u. length u = 16 \<longrightarrow> list_all uuid_byte (uuid_hyphenated P u) \<and> length (uuid_hyphenated P u) = 36)"

section \<open>Encrypting units\<close>

definition encrypt_units ::
  "encoders \<Rightarrow> bytes \<Rightarrow> bytes \<Rightarrow> bytes \<Rightarrow> nat \<Rightarrow> u128 \<Rightarrow> ('e, bytes) comp" where
  "encrypt_units E buffer key1 key2 unit_size first_unit_index =
    or_panic (xts_encrypt_area E key1 key2 unit_size first_unit_index buffer)"

lemma encrypt_unit:
  assumes "encrypt_documented P E" and "xts_keyed P k1 k2 u" and "16 \<le> length a" and "length a \<le> u"
  obtains c where "xts_encrypt_area E k1 k2 u i a = Some c" and "length c = length a"
    and "xts_decrypt_area P k1 k2 u i c = Some a"
  using assms unfolding encrypt_documented_def xts_keyed_def by meson

lemma encrypt_cons:
  "\<lbrakk>encrypt_documented P E; xts_keyed P k1 k2 u; i + 1 \<noteq> 0; length a = u;
    xts_encrypt_area E k1 k2 u i a = Some c\<rbrakk> \<Longrightarrow>
    xts_encrypt_area E k1 k2 u i (a @ b) = map_option ((@) c) (xts_encrypt_area E k1 k2 u (i + 1) b)"
  unfolding encrypt_documented_def xts_keyed_def by blast

lemma encrypt_short:
  "\<lbrakk>encrypt_documented P E; xts_keyed P k1 k2 u; 0 < length a; length a < 16\<rbrakk> \<Longrightarrow>
    xts_encrypt_area E k1 k2 u i a = None"
  unfolding encrypt_documented_def xts_keyed_def by blast

lemma encrypt_nil:
  "\<lbrakk>encrypt_documented P E; xts_keyed P k1 k2 u\<rbrakk> \<Longrightarrow> xts_encrypt_area E k1 k2 u i [] = Some []"
  unfolding encrypt_documented_def xts_keyed_def by blast

lemma encrypt_area_inverse:
  assumes "encrypt_documented P E" and "xts_keyed P k1 k2 u"
    and "unat i + length b div u < 2 ^ 128"
  shows "if 0 < length b mod u \<and> length b mod u < 16
    then xts_encrypt_area E k1 k2 u i b = None
    else \<exists>c. xts_encrypt_area E k1 k2 u i b = Some c \<and> length c = length b \<and>
      xts_decrypt_area P k1 k2 u i c = Some b"
  using assms(3)
proof (induction "length b" arbitrary: b i rule: less_induct)
  case less
  let ?E = "xts_encrypt_area E k1 k2 u" and ?D = "xts_decrypt_area P k1 k2 u"
  have u: "16 \<le> u"
    using assms(2) by (simp add: xts_keyed_def)
  consider "b = []" | "0 < length b" "length b < u" | "u \<le> length b"
    by fastforce
  then show ?case
  proof cases
    case 1
    then show ?thesis
      using encrypt_nil [OF assms(1,2)] xts_nil [OF assms(2)] by simp
  next
    case 2
    then show ?thesis
      using encrypt_short [OF assms(1,2), of b i]
      by (cases "length b < 16") (auto intro: encrypt_unit [OF assms(1,2), of b i])
  next
    case 3
    obtain h t where b: "b = h @ t" and h: "length h = u"
      using 3 by (intro that [of "take u b" "drop u b"]) auto
    obtain c where c: "?E i h = Some c" "length c = u" "?D i c = Some h"
      using encrypt_unit [OF assms(1,2), of h i] h u by auto
    have "u \<noteq> 0"
      using u by simp
    then have div: "length b div u = Suc (length t div u)" and md: "length b mod u = length t mod u"
      using h div_add_self1 [of u "length t"] by (simp_all add: b)
    have room: "i + 1 \<noteq> 0" "unat (i + 1) = Suc (unat i)"
      using word_succ_room [of i "length t div u"] less.prems div by simp_all
    have "if 0 < length t mod u \<and> length t mod u < 16 then ?E (i + 1) t = None
      else \<exists>d. ?E (i + 1) t = Some d \<and> length d = length t \<and> ?D (i + 1) d = Some t"
      using less.hyps [of t "i + 1"] less.prems div room h u b by simp
    then show ?thesis
      unfolding md using encrypt_cons [OF assms(1,2) room(1) h c(1), of t]
        xts_cons [OF assms(2) room(1) c(2,3)] c h
      by (auto simp: b split: if_splits)
  qed
qed

section \<open>A concrete instance\<close>

text \<open>
  The texts are the real ones, base64 with the standard alphabet and hyphenated lower-case UUIDs; the
  masked areas of \<open>demo_prims\<close> are their own inverse.
\<close>

definition b64_char :: "nat \<Rightarrow> u8" where
  "b64_char d =
    (if d < 26 then of_nat (65 + d) else if d < 52 then of_nat (71 + d)
     else if d < 62 then of_nat (d - 4) else if d = 62 then 0x2B else 0x2F)"

definition b64_value :: "u8 \<Rightarrow> nat option" where
  "b64_value b =
    (if in_range 0x41 0x5A b then Some (unat b - 65)
     else if in_range 0x61 0x7A b then Some (unat b - 71)
     else if in_range 0x30 0x39 b then Some (unat b + 4)
     else if b = 0x2B then Some 62 else if b = 0x2F then Some 63 else None)"

fun b64_encode :: "bytes \<Rightarrow> bytes" where
  "b64_encode [] = []"
| "b64_encode [a] = [b64_char (unat a div 4), b64_char (unat a mod 4 * 16), 0x3D, 0x3D]"
| "b64_encode [a, b] =
     [b64_char (unat a div 4), b64_char (unat a mod 4 * 16 + unat b div 16), b64_char (unat b mod 16 * 4), 0x3D]"
| "b64_encode (a # b # c # rest) =
     [b64_char (unat a div 4), b64_char (unat a mod 4 * 16 + unat b div 16),
      b64_char (unat b mod 16 * 4 + unat c div 64), b64_char (unat c mod 64)] @ b64_encode rest"

fun b64_decode :: "bytes \<Rightarrow> bytes option" where
  "b64_decode [] = Some []"
| "b64_decode (w # x # y # z # rest) =
    do {
      i \<leftarrow> b64_value w;
      j \<leftarrow> b64_value x;
      let a = of_nat (i * 4 + j div 16);
      if y = 0x3D then (if z = 0x3D \<and> rest = [] then Some [a] else None)
      else do {
        k \<leftarrow> b64_value y;
        let b = of_nat (j mod 16 * 16 + k div 4);
        if z = 0x3D then (if rest = [] then Some [a, b] else None)
        else do {
          l \<leftarrow> b64_value z;
          tail \<leftarrow> b64_decode rest;
          Some (a # b # of_nat (k mod 4 * 64 + l) # tail)
        }
      }
    }"
| "b64_decode _ = None"

lemma b64_char_table:
  "list_all (\<lambda>d. b64_value (b64_char d) = Some d \<and> base64_byte (b64_char d) \<and> b64_char d \<noteq> 0x3D) [0..<64]"
  by code_simp

lemma b64_char [simp]:
  "d < 64 \<Longrightarrow> b64_value (b64_char d) = Some d" "d < 64 \<Longrightarrow> base64_byte (b64_char d)"
  "d < 64 \<Longrightarrow> b64_char d \<noteq> 0x3D"
  using b64_char_table by (auto simp: list_all_iff)

lemma unat_u8_less: "unat (b :: u8) < 256"
  using unsigned_less [of b] by simp

lemma b64_quotients:
  fixes a :: u8
  shows "unat a div 4 < 64" "unat a div 16 < 16" "unat a div 64 < 4"
  using unat_u8_less [of a] by simp_all

lemma b64_digits:
  fixes a b :: u8
  shows "unat a mod 4 * 16 + unat b div 16 < 64" "unat a mod 16 * 4 + unat b div 64 < 64"
    "unat a mod 64 < 64" "unat a mod 4 * 16 < 64" "unat a mod 16 * 4 < 64"
proof -
  have "unat a mod 4 < 4" "unat a mod 16 < 16"
    by simp_all
  then show "unat a mod 4 * 16 + unat b div 16 < 64" "unat a mod 16 * 4 + unat b div 64 < 64"
    "unat a mod 64 < 64" "unat a mod 4 * 16 < 64" "unat a mod 16 * 4 < 64"
    using b64_quotients [of b] by linarith+
qed

lemma byte_digits:
  fixes a :: u8
  shows "of_nat (unat a div 4) * 4 + of_nat (unat a mod 4) = a"
    "of_nat (unat a div 16) * 16 + of_nat (unat a mod 16) = a"
    "of_nat (unat a div 64) * 64 + of_nat (unat a mod 64) = a"
proof -
  have "of_nat (unat a div n) * of_nat n + of_nat (unat a mod n) = a" for n
  proof -
    have "(of_nat (unat a div n * n + unat a mod n) :: u8) = a"
      by (simp only: div_mult_mod_eq) simp
    then show ?thesis
      by (simp only: of_nat_add of_nat_mult)
  qed
  from this [of 4] this [of 16] this [of 64]
  show "of_nat (unat a div 4) * 4 + of_nat (unat a mod 4) = a"
    "of_nat (unat a div 16) * 16 + of_nat (unat a mod 16) = a"
    "of_nat (unat a div 64) * 64 + of_nat (unat a mod 64) = a"
    by simp_all
qed

lemma b64_encode_length: "length (b64_encode bs) = 4 * ((length bs + 2) div 3)"
proof (induction bs rule: b64_encode.induct)
  case (4 a b c rest)
  have "(length (a # b # c # rest) + 2) div 3 = (length rest + 2) div 3 + 1"
    using div_add_self2 [of 3 "length rest + 2"] by simp
  with 4 show ?case
    by simp
qed simp_all

lemma b64_encode_alphabet: "list_all base64_byte (b64_encode bs)"
  by (induction bs rule: b64_encode.induct)
    (simp_all add: b64_digits b64_quotients, simp_all add: base64_byte_def)

lemma b64_decode_encode: "b64_decode (b64_encode bs) = Some bs"
  by (induction bs rule: b64_encode.induct)
    (simp_all add: b64_digits b64_quotients byte_digits)

text \<open>The hyphenated form: thirty-two digits in groups of eight, four, four, four and twelve.\<close>

abbreviation hex_digit :: "nat \<Rightarrow> u8" where
  "hex_digit n \<equiv> of_char (digit_char n)"

fun hex_text :: "bytes \<Rightarrow> bytes" where
  "hex_text [] = []"
| "hex_text (b # bs) = hex_digit (unat b div 16) # hex_digit (unat b mod 16) # hex_text bs"

fun hex_value :: "bytes \<Rightarrow> bytes option" where
  "hex_value [] = Some []"
| "hex_value (x # y # rest) =
    do {
      i \<leftarrow> to_digit 16 x;
      j \<leftarrow> to_digit 16 y;
      tail \<leftarrow> hex_value rest;
      Some (of_nat (i * 16 + j) # tail)
    }"
| "hex_value _ = None"

definition hyphenate :: "bytes \<Rightarrow> bytes" where
  "hyphenate h = window 0 8 h @ [0x2D] @ window 8 4 h @ [0x2D] @ window 12 4 h @ [0x2D] @
    window 16 4 h @ [0x2D] @ drop 20 h"

lemma hex_digit_bytes:
  assumes "n < 16"
  shows "uuid_byte (hex_digit n)" and "hex_digit n \<noteq> 0x2D" and "to_digit 16 (hex_digit n) = Some n"
proof -
  have "list_all (\<lambda>n. uuid_byte (hex_digit n) \<and> hex_digit n \<noteq> 0x2D \<and> to_digit 16 (hex_digit n) = Some n) [0..<16]"
    by (simp add: upt_rec digit_byte to_digit_def uuid_byte_def in_range_def)
  with assms show "uuid_byte (hex_digit n)" and "hex_digit n \<noteq> 0x2D" and "to_digit 16 (hex_digit n) = Some n"
    by (auto simp: list_all_iff)
qed

lemma hex_text_bytes: "b \<in> set (hex_text bs) \<Longrightarrow> uuid_byte b \<and> b \<noteq> 0x2D"
  by (induction bs) (auto simp: hex_digit_bytes b64_quotients)

lemma length_hex_text [simp]: "length (hex_text bs) = 2 * length bs"
  by (induction bs) simp_all

lemma hex_value_text: "hex_value (hex_text bs) = Some bs"
  by (induction bs) (simp_all add: hex_digit_bytes b64_quotients byte_digits)

lemma hex_value_length: "hex_value s = Some u \<Longrightarrow> length s = 2 * length u"
  by (induction s arbitrary: u rule: hex_value.induct) (auto simp: bind_eq_Some_conv)

lemma filter_hyphenate:
  assumes "0x2D \<notin> set h"
  shows "filter (\<lambda>b. b \<noteq> 0x2D) (hyphenate h) = h"
proof -
  have keep: "filter (\<lambda>b. b \<noteq> 0x2D) xs = xs" if "set xs \<subseteq> set h" for xs :: bytes
    using that assms by (intro filter_True) auto
  have "filter (\<lambda>b. b \<noteq> 0x2D) (hyphenate h) =
      window 0 8 h @ window 8 4 h @ window 12 4 h @ window 16 4 h @ drop 20 h"
    by (simp add: hyphenate_def keep set_drop_subset set_take_subset order_trans [OF set_take_subset set_drop_subset])
  also have "\<dots> = window 0 20 h @ drop 20 h"
    using window_append [of 8 0 h 4] window_append [of 12 0 h 4] window_append [of 16 0 h 4]
    by (simp add: append_assoc [symmetric] del: append_assoc)
  also have "\<dots> = h"
    by simp
  finally show ?thesis .
qed

definition codec_prims :: prims where
  "codec_prims = demo_prims
    \<lparr>base64_decode := b64_decode,
     uuid_parse := (\<lambda>s. if length (filter (\<lambda>b. b \<noteq> 0x2D) s) = 32
       then hex_value (filter (\<lambda>b. b \<noteq> 0x2D) s) else None),
     uuid_hyphenated := (\<lambda>u. hyphenate (hex_text u))\<rparr>"

definition codec_encoders :: encoders where
  "codec_encoders =
    \<lparr>xts_encrypt_area = (\<lambda>k1 k2 u i b. mask_area u i b),
     kw_wrap = (\<lambda>kek k. Some (take 8 kek @ k)),
     base64_encode = b64_encode\<rparr>"

lemma codec_documented:
  "xts_documented codec_prims" "kdf_documented codec_prims" "uuid_documented codec_prims"
proof -
  show "xts_documented codec_prims"
    using demo_documented(1) by (simp add: codec_prims_def xts_documented_def)
  show "kdf_documented codec_prims"
    using demo_documented(2) by (simp add: codec_prims_def kdf_documented_def)
  have "filter (\<lambda>b. b \<noteq> 0x2D) (hyphenate (hex_text u)) = hex_text u" for u
    using hex_text_bytes by (intro filter_hyphenate) blast
  then show "uuid_documented codec_prims"
    by (auto simp: codec_prims_def uuid_documented_def hex_value_text dest: hex_value_length split: if_splits)
qed

lemma codec_encoders_documented:
  "encrypt_documented codec_prims codec_encoders" "wrapping_documented codec_prims codec_encoders"
  "text_documented codec_prims codec_encoders"
proof -
  have "(x XOR y) XOR y = (x :: u8)" for x y
    by (simp add: xor.assoc)
  then show "encrypt_documented codec_prims codec_encoders"
    by (auto simp: encrypt_documented_def codec_prims_def codec_encoders_def demo_prims_def
        mask_area_append mask_area_unit comp_def)
      (subst mask_area.simps, simp)
  show "wrapping_documented codec_prims codec_encoders"
    by (simp add: wrapping_documented_def codec_prims_def codec_encoders_def demo_prims_def)
  have "list_all uuid_byte (hyphenate (hex_text u)) \<and> length (hyphenate (hex_text u)) = 36" if "length u = 16" for u
    using that hex_text_bytes
    by (auto simp: hyphenate_def list_all_iff uuid_byte_def dest: in_set_takeD in_set_dropD)
  then show "text_documented codec_prims codec_encoders"
    by (simp add: text_documented_def codec_prims_def codec_encoders_def b64_decode_encode
        b64_encode_alphabet b64_encode_length)
qed

section \<open>Properties\<close>



end
