(* ===== verification/Plist.thy ===== *)
theory Plist
  imports Encoders
begin

text \<open>
  Plist text as the scanner of \<open>core/src/context.rs\<close> meets it: a sequence of segments, each an opening
  bracket and the bytes up to the next one. A key of the scanner is two neighbouring segments, so a
  text whose segments do not hold the key does not hide it anywhere, whatever the other bytes are.
  With that, values are found in texts that hold arbitrary base64 data.
\<close>

section \<open>Bytes of a literal\<close>

lemma unat_of_char_u8: "unat (of_char c :: u8) = of_char c"
proof -
  have "unat (of_nat (of_char c) :: u8) = of_char c"
    by (intro unat_of_nat_fit) simp
  then show ?thesis
    by (simp only: of_nat_of_char)
qed

lemma of_char_u8_eq [simp]: "(of_char c :: u8) = of_char d \<longleftrightarrow> c = d"
  by (metis of_char_eq_iff unat_of_char_u8)

lemma str_eq_iff [simp]: "str s = str t \<longleftrightarrow> s = t"
  by (simp add: str_def inj_map_eq_map inj_def)

lemma in_str_iff: "of_char c \<in> set (str s) \<longleftrightarrow> c \<in> set s"
  by (auto simp: str_def)

abbreviation lt :: u8 where
  "lt \<equiv> 0x3C"

lemma lt_char: "lt = of_char (CHR ''<'')"
  by simp

lemma lt_in_str [simp]: "lt \<in> set (str s) \<longleftrightarrow> CHR ''<'' \<in> set s"
  unfolding lt_char by (rule in_str_iff)

lemma gt_in_str [simp]: "0x3E \<in> set (str s) \<longleftrightarrow> CHR ''>'' \<in> set s"
proof -
  have "(0x3E :: u8) = of_char (CHR ''>'')"
    by simp
  then show ?thesis
    by (simp only: in_str_iff)
qed

section \<open>Segments\<close>

definition segs :: "bytes list \<Rightarrow> bytes" where
  "segs ss = concat (map ((#) lt) ss)"

lemma segs_simps [simp]: "segs [] = []" "segs (s # ss) = lt # s @ segs ss"
  by (simp_all add: segs_def)

lemma segs_append [simp]: "segs (ss @ ts) = segs ss @ segs ts"
  by (simp add: segs_def)

text \<open>A needle that starts with a bracket and has a second one can only stand where a segment is.\<close>

lemma segment_unique:
  assumes "take (Suc (length (m @ lt # rest))) (lt # s @ ys) = lt # m @ lt # rest"
    and "lt \<notin> set m" and "lt \<notin> set s" and "ys = [] \<or> hd ys = lt"
  shows "s = m"
proof -
  have tk: "take (length (m @ lt # rest)) (s @ ys) = m @ lt # rest"
    using assms(1) by simp
  then have eq: "s @ ys = m @ lt # rest @ drop (length (m @ lt # rest)) (s @ ys)"
    by (metis append_assoc append_Cons append_take_drop_id)
  then have "takeWhile (\<lambda>b. b \<noteq> lt) (s @ ys) = m"
    using assms(2) by (auto simp: takeWhile_append2 takeWhile_tail)
  moreover have "takeWhile (\<lambda>b. b \<noteq> lt) (s @ ys) = s"
    using assms(3,4) by (cases ys) (auto simp: takeWhile_append2 takeWhile_tail takeWhile_eq_all_conv)
  ultimately show ?thesis
    by simp
qed

lemma occurs_at_nth: "occurs_at xs (b # n) j \<Longrightarrow> xs ! j = b"
  by (cases "drop j xs") (auto simp: occurs_at_def dest: nth_via_drop)

lemma occurs_at_skip:
  assumes "length pre \<le> j"
  shows "occurs_at (pre @ xs) needle j \<longleftrightarrow> occurs_at xs needle (j - length pre)"
proof -
  have "drop j (pre @ xs) = drop (j - length pre) xs"
    using assms by simp
  then show ?thesis
    unfolding occurs_at_def using assms by auto
qed

lemma no_occurrence:
  assumes "needle = lt # m @ lt # rest" and "lt \<notin> set m"
    and "lt \<notin> set a" and "\<And>s. s \<in> set ss \<Longrightarrow> lt \<notin> set s \<and> s \<noteq> m"
    and "post = [] \<or> hd post = lt" and "j < length (a @ segs ss)"
  shows "\<not> occurs_at (a @ segs ss @ post) needle j"
  using assms(3,4,6)
proof (induction ss arbitrary: a j)
  case Nil
  then show ?case
    using assms(1) occurs_at_nth [of "a @ post" lt _ j] by (auto simp: nth_append) (metis nth_mem)
next
  case (Cons s ss)
  show ?case
  proof (cases "j \<le> length a")
    case False
    then have "occurs_at (a @ segs (s # ss) @ post) needle j \<longleftrightarrow>
        occurs_at (s @ segs ss @ post) needle (j - length a - 1)"
      using occurs_at_skip [of "a @ [lt]" j "s @ segs ss @ post" needle] by simp
    then show ?thesis
      using Cons.IH [of s "j - length a - 1"] Cons.prems False by auto
  next
    case True
    show ?thesis
    proof (cases "j = length a")
      case True
      then show ?thesis
        using segment_unique [of m rest s "segs ss @ post"] assms(1,2,5) Cons.prems(2) [of s]
        by (cases ss) (auto simp: occurs_at_def)
    next
      case False
      then show ?thesis
        using assms(1) True Cons.prems(1) occurs_at_nth [of "a @ segs (s # ss) @ post" lt _ j]
        by (auto simp: nth_append) (metis nth_mem le_neq_implies_less)
    qed
  qed
qed

text \<open>The segments among which a key does not occur.\<close>

definition free_of :: "bytes \<Rightarrow> bytes list \<Rightarrow> bool" where
  "free_of k ss \<longleftrightarrow> list_all (\<lambda>s. lt \<notin> set s \<and> s \<noteq> str ''key>'' @ k) ss"

lemma free_of_simps [simp]:
  "free_of k []" "free_of k (s # ss) \<longleftrightarrow> lt \<notin> set s \<and> s \<noteq> str ''key>'' @ k \<and> free_of k ss"
  "free_of k (ss @ ts) \<longleftrightarrow> free_of k ss \<and> free_of k ts"
  by (simp_all add: free_of_def del: str_Cons)

lemma key_tag_segs: "key_tag k = lt # (str ''key>'' @ k) @ lt # str ''/key>''"
  by (simp add: key_tag_def)

lemma clear_of_key:
  assumes "lt \<notin> set k" and "lt \<notin> set a" and "free_of k ss"
  shows "clear_of (key_tag k) (a @ segs ss)"
proof -
  have "\<not> occurs_at (a @ segs ss @ key_tag k) (key_tag k) j" if "j < length (a @ segs ss)" for j
    using assms that
    by (intro no_occurrence [OF key_tag_segs]) (auto simp: free_of_def list_all_iff key_tag_segs simp del: str_Cons)
  then show ?thesis
    by (simp add: clear_of_def find_sub_eq_Some occurs_at_def)
qed

lemma no_key:
  assumes "lt \<notin> set k" and "lt \<notin> set a" and "free_of k ss"
  shows "find_sub (a @ segs ss) (key_tag k) = None"
proof -
  have "\<not> occurs_at (a @ segs ss @ []) (key_tag k) j" if "j < length (a @ segs ss)" for j
    using assms that
    by (intro no_occurrence [OF key_tag_segs]) (auto simp: free_of_def list_all_iff simp del: str_Cons)
  moreover have "\<not> occurs_at (a @ segs ss) (key_tag k) j" if "length (a @ segs ss) \<le> j" for j
    using that by (auto simp: occurs_at_def dest!: sym [of "[]"])
  ultimately show ?thesis
    unfolding find_sub_eq_None by (metis append_Nil2 not_le)
qed

lemma extract_none:
  "find_sub (drop c md) (key_tag k) = None \<Longrightarrow> extract_tagged_from md k open_tag close_tag c = None"
  by (simp add: extract_tagged_from_def key_tag_def Let_def slice_from_def bind_eq_None_conv del: str_Cons)

section \<open>Pairs as segments\<close>

text \<open>An element with its key: four segments.\<close>

definition pair_segs :: "string \<Rightarrow> string \<Rightarrow> string \<Rightarrow> bytes \<Rightarrow> string \<Rightarrow> bytes list" where
  "pair_segs k tag attrs v close_tag =
    [str (''key>'' @ k), str ''/key>'', str (tag @ attrs @ ''>'') @ v, str close_tag]"

lemma length_pair_segs [simp]: "length (pair_segs k tag attrs v close_tag) = 4"
  by (simp add: pair_segs_def)

lemma segs_pair: "segs (pair_segs k tag attrs v close_tag) =
    tagged_value (str k) [] (str (CHR ''<'' # tag)) (str attrs) v (str (CHR ''<'' # close_tag))"
  by (simp add: pair_segs_def tagged_value_def key_tag_def)

lemma segs_take_split: "segs (take (n + w) L) = segs (take n L) @ segs (window n w L)"
  by (simp add: take_add)

lemma scan_segs:
  assumes "md = front @ a @ segs L @ rest" and "length md < 2 ^ 63" and "lt \<notin> set a"
    and "window n 4 L = pair_segs k tag attrs v close_tag" and "free_of (str k) (take n L)"
    and "CHR ''<'' \<notin> set k" and "CHR ''>'' \<notin> set (tag @ attrs)" and "lt \<notin> set v"
  shows "extract_tagged_from md (str k) (str (CHR ''<'' # tag)) (str (CHR ''<'' # close_tag)) (length front) =
    Some (v, length (front @ a @ segs (take (n + 4) L)))"
proof -
  have take: "segs (take (n + 4) L) = segs (take n L) @ tagged_value (str k) [] (str (CHR ''<'' # tag))
      (str attrs) v (str (CHR ''<'' # close_tag))"
    by (simp only: segs_take_split assms(4) segs_pair)
  have "md = front @ (a @ segs (take n L)) @ tagged_value (str k) [] (str (CHR ''<'' # tag)) (str attrs) v
      (str (CHR ''<'' # close_tag)) @ segs (drop (n + 4) L) @ rest"
    using assms(1) take segs_append [of "take (n + 4) L" "drop (n + 4) L"] by simp
  from scan_pair [OF this assms(2)] show ?thesis
    unfolding take using assms(3-8) clear_of_key [of "str k" a "take n L"]
    by (simp del: str_Cons) simp
qed

lemma extract_string_segs:
  assumes "md = a @ segs L @ rest" and "length md < 2 ^ 63" and "lt \<notin> set a"
    and "window n 4 L = pair_segs k ''string ID='' attrs v ''/string>''" and "free_of (str k) (take n L)"
    and "CHR ''<'' \<notin> set k" and "CHR ''>'' \<notin> set attrs" and "lt \<notin> set v"
  shows "extract_string md (str k) = (if utf8_valid v then Some v else None)"
  using scan_segs [of md "[]" a L rest n k "''string ID=''" attrs v "''/string>''"] assms
  by (simp add: extract_string_def extract_tagged_def del: str_Cons)

lemma extract_data_segs:
  assumes "md = a @ segs L @ rest" and "length md < 2 ^ 63" and "lt \<notin> set a"
    and "window n 4 L = pair_segs k ''data ID='' attrs v ''/data>''" and "free_of (str k) (take n L)"
    and "CHR ''<'' \<notin> set k" and "CHR ''>'' \<notin> set attrs" and "lt \<notin> set v"
    and "list_all (\<lambda>b. \<not> is_ascii_whitespace b) v" and "length v \<le> 4096"
  shows "extract_data P md (str k) = base64_decode P v"
proof -
  have "filter (\<lambda>b. \<not> is_ascii_whitespace b) v = v"
    using assms(9) by (simp add: list_all_iff)
  then show ?thesis
    using scan_segs [of md "[]" a L rest n k "''data ID=''" attrs v "''/data>''"] assms
    by (simp add: extract_data_def extract_tagged_def MAX_BASE64_BLOB_def del: str_Cons)
qed

lemma extract_integer_segs:
  assumes "md = front @ a @ segs L @ rest" and "length md < 2 ^ 63" and "lt \<notin> set a"
    and "window n 4 L = pair_segs k ''integer'' attrs v ''/integer>''" and "free_of (str k) (take n L)"
    and "CHR ''<'' \<notin> set k" and "CHR ''>'' \<notin> set attrs" and "lt \<notin> set v"
    and "parse_integer_text v = Some w"
  shows "extract_integer_from md (str k) (length front) = Some (w, length (front @ a @ segs (take (n + 4) L)))"
  using scan_segs [OF assms(1-4)] assms(5-9)
  by (simp add: extract_integer_from_def del: str_Cons)

lemma extract_u64_segs:
  assumes "md = a @ segs L @ rest" and "length md < 2 ^ 63" and "lt \<notin> set a"
    and "window n 4 L = pair_segs k ''integer'' attrs v ''/integer>''" and "free_of (str k) (take n L)"
    and "CHR ''<'' \<notin> set k" and "CHR ''>'' \<notin> set attrs" and "lt \<notin> set v"
    and "parse_integer_text v = Some w"
  shows "extract_u64_integer md (str k) = Some (w, length (a @ segs (take (n + 4) L)))"
  using scan_segs [of md "[]" a L rest n k "''integer''" attrs v "''/integer>''"] assms
  by (simp add: extract_u64_integer_def del: str_Cons)

section \<open>Scanning on from a place among the segments\<close>

lemma scan_segs_at:
  assumes "md = a @ segs L @ rest" and "length md < 2 ^ 63"
    and "window (i + j) 4 L = pair_segs k tag attrs v close_tag" and "free_of (str k) (window i j L)"
    and "CHR ''<'' \<notin> set k" and "CHR ''>'' \<notin> set (tag @ attrs)" and "lt \<notin> set v"
  shows "extract_tagged_from md (str k) (str (CHR ''<'' # tag)) (str (CHR ''<'' # close_tag))
      (length (a @ segs (take i L))) = Some (v, length (a @ segs (take (i + j + 4) L)))"
proof -
  have "md = (a @ segs (take i L)) @ [] @ segs (drop i L) @ rest"
    using assms(1) segs_append [of "take i L" "drop i L"] by simp
  moreover have "window j 4 (drop i L) = pair_segs k tag attrs v close_tag"
    using assms(3) by (simp add: add.commute)
  moreover have "take (i + j + 4) L = take i L @ take (j + 4) (drop i L)"
    by (simp add: take_add add.assoc)
  ultimately show ?thesis
    using scan_segs [of md "a @ segs (take i L)" "[]" "drop i L" rest j k tag attrs v close_tag] assms(2,4-7)
    by (simp add: add.assoc del: str_Cons)
qed

lemma no_key_at:
  assumes "md = a @ segs L" and "free_of (str k) (drop i L)" and "CHR ''<'' \<notin> set k"
  shows "extract_tagged_from md (str k) open_tag close_tag (length (a @ segs (take i L))) = None"
proof (rule extract_none)
  have "drop (length (a @ segs (take i L))) md = [] @ segs (drop i L)"
    using assms(1) segs_append [of "take i L" "drop i L"] by simp
  then show "find_sub (drop (length (a @ segs (take i L))) md) (key_tag (str k)) = None"
    using no_key [of "str k" "[]" "drop i L"] assms(2,3) by simp
qed

section \<open>Base64 and UUID texts\<close>

lemma base64_clear:
  assumes "list_all base64_byte v"
  shows "lt \<notin> set v" and "list_all (\<lambda>b. \<not> is_ascii_whitespace b) v"
proof -
  have "\<not> base64_byte lt" and "base64_byte b \<Longrightarrow> \<not> is_ascii_whitespace b" for b
    by (auto simp: base64_byte_def in_range_def is_ascii_whitespace_def)
  then show "lt \<notin> set v" and "list_all (\<lambda>b. \<not> is_ascii_whitespace b) v"
    using assms by (auto simp: list_all_iff)
qed

lemma uuid_clear:
  assumes "list_all uuid_byte v"
  shows "lt \<notin> set v" and "utf8_valid v"
proof -
  have "\<not> uuid_byte lt" and ascii: "uuid_byte b \<Longrightarrow> b < 0x80" for b
    by (auto simp: uuid_byte_def in_range_def word_le_nat_alt word_less_nat_alt)
  then show "lt \<notin> set v" and "utf8_valid v"
    using assms by (auto simp: list_all_iff intro!: utf8_valid_ascii)
qed

lemma utf8_valid_str: "(\<And>c. c \<in> set s \<Longrightarrow> of_char c < (0x80 :: nat)) \<Longrightarrow> utf8_valid (str s)"
  by (rule utf8_valid_ascii) (auto simp: str_def word_less_nat_alt unat_of_char_u8)

end
