(* ===== verification/Auditor_Image.thy ===== *)
theory Auditor_Image
  imports Forensic Plist
begin

text \<open>
  The image that the auditor's integration tests build (\<open>forensic/tests/entry_points.rs\<close>), for any
  iteration count and any conversion status. What the builder puts in is what an auditor reports who
  reads the image without a password.
\<close>

section \<open>The builder\<close>

definition BLOCK_SIZE :: nat where
  "BLOCK_SIZE = 512"

definition KEY_DATA :: bytes where
  "KEY_DATA = replicate 16 0x11"

definition IMAGE_PV_ID :: bytes where
  "IMAGE_PV_ID = replicate 16 0x22"

definition ENC_PRIMARY_BLOCK :: u64 where
  "ENC_PRIMARY_BLOCK = 8"

definition ENC_UNIT :: nat where
  "ENC_UNIT = 8192"

definition passphrase_struct_of :: "u32 \<Rightarrow> bytes fv" where
  "passphrase_struct_of iterations =
    chain (write_at 8 (replicate 16 0xAB) (replicate 284 0)) (\<lambda>s.
    chain (write_at 32 (replicate 24 0xCD) s) (\<lambda>s.
      write_at 168 (to_le_bytes 4 iterations) s))"

definition volume_key_struct :: "bytes fv" where
  "volume_key_struct = write_at 8 (replicate 24 0xEF) (replicate 256 0)"

definition plist_text :: "bytes \<Rightarrow> bytes \<Rightarrow> bytes \<Rightarrow> bytes \<Rightarrow> bytes" where
  "plist_text pw none_kek xts_kek status =
    str (''<dict ID=\"0\"><key>CryptoUsers</key><array ID=\"2\"><dict ID=\"3\">'' @
         ''<key>PassphraseWrappedKEKStruct</key><data ID=\"4\">'') @ pw @
    str (''</data>'' @
         ''<key>UserType</key><integer size=\"32\" ID=\"6\">0x10000001</integer>'' @
         ''<key>BlockAlgorithm</key><string ID=\"7\">None</string>'' @
         ''<key>KEKWrappedVolumeKeyStruct</key><data ID=\"8\">'') @ none_kek @
    str (''</data>'' @
         ''<key>BlockAlgorithm</key><string ID=\"9\">AES-XTS</string>'' @
         ''<key>KEKWrappedVolumeKeyStruct</key><data ID=\"10\">'') @ xts_kek @
    str (''</data>'' @
         ''</dict></array>'' @
         ''<key>ConversionStatus</key><string ID=\"20\">'') @ status @
    str (''</string></dict>'' @
         ''<dict ID=\"30\">'' @
         ''<key>com.apple.corestorage.lv.familyUUID</key><string ID=\"31\">1F01CA34-5F6C-4123-AC0C-B0A256889DB2</string>'' @
         ''<key>com.apple.corestorage.lv.name</key><string ID=\"32\">SynthLV</string>'' @
         ''<key>com.apple.corestorage.lv.size</key><integer size=\"64\" ID=\"33\">0xa000000</integer>'' @
         ''<key>com.apple.corestorage.lv.uuid</key><string ID=\"34\">420AF122-CF73-4A30-8B0A-A593A65FBEF5</string>'' @
         ''</dict>'')"

definition plist :: "encoders \<Rightarrow> u32 \<Rightarrow> bytes \<Rightarrow> bytes fv" where
  "plist E iterations status =
    chain (passphrase_struct_of iterations) (\<lambda>pw.
    chain volume_key_struct (\<lambda>none_kek.
    chain volume_key_struct (\<lambda>xts_kek.
      Ok (plist_text (base64_encode E pw) (base64_encode E none_kek) (base64_encode E xts_kek) status))))"

definition xts_encrypt :: "encoders \<Rightarrow> bytes \<Rightarrow> bytes fv" where
  "xts_encrypt E buffer = or_panic (xts_encrypt_area E KEY_DATA IMAGE_PV_ID ENC_UNIT 0 buffer)"

definition auditor_image :: "encoders \<Rightarrow> u32 \<Rightarrow> bytes \<Rightarrow> bytes fv" where
  "auditor_image E iterations status =
    (let img = replicate (unat ENC_PRIMARY_BLOCK * BLOCK_SIZE + ENC_UNIT) 0 in
     chain (write_at 88 (str ''C'') img) (\<lambda>img.
     chain (write_at 89 (str ''S'') img) (\<lambda>img.
     chain (write_at 48 (to_le_bytes 4 (of_nat BLOCK_SIZE :: u32)) img) (\<lambda>img.
     chain (write_at 96 (to_le_bytes 4 (of_nat BLOCK_SIZE :: u32)) img) (\<lambda>img.
     chain (write_at 172 (to_le_bytes 4 (2 :: u32)) img) (\<lambda>img.
     chain (write_at 104 (to_le_bytes 8 (1 :: u64)) img) (\<lambda>img.
     chain (write_at 176 KEY_DATA img) (\<lambda>img.
     chain (write_at 304 IMAGE_PV_ID img) (\<lambda>img.
     let region = BLOCK_SIZE; region_len = BLOCK_SIZE * 4 in
     chain (write_at (region + 10) (to_le_bytes 2 (0x0011 :: u16)) img) (\<lambda>img.
     let payload = region + BLOCK_HEADER_SIZE in
     chain (write_at payload (to_le_bytes 4 (of_nat region_len :: u32)) img) (\<lambda>img.
     let desc_rel = 2 * BLOCK_SIZE in
     chain (write_at (payload + 156) (to_le_bytes 4 (of_nat desc_rel :: u32)) img) (\<lambda>img.
     let desc = region + desc_rel; enc_blocks = of_nat (ENC_UNIT div BLOCK_SIZE) :: u64 in
     chain (write_at (desc + 8) (to_le_bytes 8 enc_blocks) img) (\<lambda>img.
     let primary_field = ENC_PRIMARY_BLOCK OR push_bit 48 0x1234 in
     chain (write_at (desc + 32) (to_le_bytes 8 primary_field) img) (\<lambda>img.
     let enc = unat ENC_PRIMARY_BLOCK * BLOCK_SIZE; unit = replicate ENC_UNIT 0 in
     chain (plist E iterations status) (\<lambda>p.
     chain (write_at 0 p unit) (\<lambda>unit.
     chain (xts_encrypt E unit) (\<lambda>unit.
       write_at enc unit img)))))))))))))))))"

lemmas builder_defs = BLOCK_SIZE_def KEY_DATA_def IMAGE_PV_ID_def ENC_PRIMARY_BLOCK_def ENC_UNIT_def

section \<open>The image, part by part\<close>

definition image_header :: VolumeHeader where
  "image_header =
    \<lparr>vh_block_size = 512, vh_bytes_per_sector = 512, vh_physical_volume_size = 0,
     vh_metadata_block_numbers = [1, 0, 0, 0], vh_key_data = KEY_DATA, vh_physical_volume_identifier = IMAGE_PV_ID\<rparr>"

definition image_block0 :: bytes where
  "image_block0 =
    copy_at 304 IMAGE_PV_ID
    (copy_at 176 KEY_DATA
    (copy_at 104 (to_le_bytes 8 (1 :: u64))
    (copy_at 172 (to_le_bytes 4 (2 :: u32))
    (copy_at 96 (to_le_bytes 4 (512 :: u32))
    (copy_at 48 (to_le_bytes 4 (512 :: u32))
    (copy_at 88 (to_le_bytes 2 CS_SIGNATURE_LE) (replicate 512 0)))))))"

definition image_region :: bytes where
  "image_region =
    copy_at 1056 (to_le_bytes 8 (0x1234000000000008 :: u64))
    (copy_at 1032 (to_le_bytes 8 (16 :: u64))
    (copy_at 220 (to_le_bytes 4 (1024 :: u32))
    (copy_at 64 (to_le_bytes 4 (2048 :: u32))
    (copy_at 10 (to_le_bytes 2 (0x0011 :: u16)) (replicate 2048 0)))))"

lemma image_part_lengths [simp]: "length image_block0 = 512" "length image_region = 2048"
  by (simp_all add: image_block0_def image_region_def builder_defs)

definition image_of :: "bytes \<Rightarrow> bytes" where
  "image_of em = image_block0 @ image_region @ replicate 1536 0 @ em"

lemma auditor_image_eq:
  assumes "plist E iterations status = Ok p" and "length p \<le> 8192"
    and "xts_encrypt E (p @ replicate (8192 - length p) 0) = Ok em" and "length em = 8192"
  shows "auditor_image E iterations status = Ok (image_of em)"
proof -
  have zeros: "replicate 12288 (0 :: u8) = replicate 512 0 @ replicate 2048 0 @ replicate 1536 0 @ replicate 8192 0"
    by (simp add: replicate_add [symmetric])
  have unit: "copy_at 0 p (replicate 8192 0) = p @ replicate (8192 - length p) 0"
    by (simp add: copy_at_def)
  have last: "copy_at 0 em (replicate 8192 0) = em"
    using assms(4) by (simp add: copy_at_def)
  show ?thesis
    using assms
    by (simp add: auditor_image_def builder_defs const_defs zeros copy_at_left copy_at_right unit last image_of_def
        image_block0_def image_region_def signature_bytes del: str_Cons)
qed

lemma image_header_read: "chain (image_at (image_of em) 0 512) parse = Ok image_header"
proof -
  have "signature_of image_block0 = CS_SIGNATURE_LE" "method_of image_block0 = ENCRYPTION_METHOD_AES_XTS_128"
    by (simp_all add: image_block0_def builder_defs field_copied from_le_to_le const_defs)
  moreover have "header_fields image_block0 = image_header"
    by (simp add: header_fields_def image_header_def image_block0_def builder_defs field_copied from_le_to_le
        upt_rec field_zeros)
  ultimately show ?thesis
    by (simp add: parse_eq image_at_def image_of_def)
qed

lemma image_region_fields:
  "type_field image_region = 0x0011" "size_field image_region = 2048"
  "(field_at 4 from_le_bytes 0 image_region 220 :: u32) = 1024"
  "field_at 8 from_le_bytes 0 image_region 1032 = (16 :: u64)"
  "field_at 8 from_le_bytes 0 image_region 1056 = (0x1234000000000008 :: u64)"
  by (simp_all add: image_region_def field_copied from_le_to_le)

lemma image_metadata_spec:
  assumes "length em = 8192" and "xts_decrypt_area P KEY_DATA IMAGE_PV_ID 8192 0 em = Some md"
  shows "metadata_spec P (image_of em) image_header = Ok md"
proof -
  have at: "image_at (image_of em) 512 512 = Ok (take 512 image_region)"
      "image_at (image_of em) 512 2048 = Ok image_region" "image_at (image_of em) 4096 8192 = Ok em"
    using assms(1) by (simp_all add: image_at_def image_of_def)
  have region: "fst (plaintext_metadata_region image_header) = 512"
    by (simp add: plaintext_metadata_region_def image_header_def saturating_mul_def Let_def)
  have size: "plaintext_metadata_size image_header (take 512 image_region) = Ok 2048"
    by (simp add: plaintext_metadata_size_eq field_take image_region_fields image_header_def)
  have loc: "locate_encrypted_metadata image_header image_region =
      Ok \<lparr>em_primary_offset = 4096, em_block_count = 16, em_length = 8192\<rparr>"
    by (simp add: locate_encrypted_metadata_eq image_region_fields image_header_def BLOCK_NUMBER_MASK_def)
  have "decrypt_metadata P image_header em = Ok md"
    using assms(2) by (simp add: decrypt_metadata_def decrypt_units_def image_header_def METADATA_UNIT_SIZE_def)
  moreover have "vh_block_size image_header = 512"
    by (simp add: image_header_def)
  ultimately show ?thesis
    using at by (simp add: metadata_spec_def region size loc)
qed

section \<open>What the scanner finds\<close>

definition plist_segs :: "bytes \<Rightarrow> bytes \<Rightarrow> bytes \<Rightarrow> bytes \<Rightarrow> bytes \<Rightarrow> bytes list" where
  "plist_segs pw none_kek xts_kek status pad =
    [str ''dict ID=\"0\">'', str ''key>CryptoUsers'', str ''/key>'', str ''array ID=\"2\">'', str ''dict ID=\"3\">''] @
    pair_segs ''PassphraseWrappedKEKStruct'' ''data ID='' ''\"4\"'' pw ''/data>'' @
    pair_segs ''UserType'' ''integer'' '' size=\"32\" ID=\"6\"'' (str ''0x10000001'') ''/integer>'' @
    pair_segs ''BlockAlgorithm'' ''string ID='' ''\"7\"'' (str ''None'') ''/string>'' @
    pair_segs ''KEKWrappedVolumeKeyStruct'' ''data ID='' ''\"8\"'' none_kek ''/data>'' @
    pair_segs ''BlockAlgorithm'' ''string ID='' ''\"9\"'' (str ''AES-XTS'') ''/string>'' @
    pair_segs ''KEKWrappedVolumeKeyStruct'' ''data ID='' ''\"10\"'' xts_kek ''/data>'' @
    [str ''/dict>'', str ''/array>''] @
    pair_segs ''ConversionStatus'' ''string ID='' ''\"20\"'' status ''/string>'' @
    [str ''/dict>'', str ''dict ID=\"30\">''] @
    pair_segs ''com.apple.corestorage.lv.familyUUID'' ''string ID='' ''\"31\"''
      (str ''1F01CA34-5F6C-4123-AC0C-B0A256889DB2'') ''/string>'' @
    pair_segs ''com.apple.corestorage.lv.name'' ''string ID='' ''\"32\"'' (str ''SynthLV'') ''/string>'' @
    pair_segs ''com.apple.corestorage.lv.size'' ''integer'' '' size=\"64\" ID=\"33\"'' (str ''0xa000000'') ''/integer>'' @
    pair_segs ''com.apple.corestorage.lv.uuid'' ''string ID='' ''\"34\"''
      (str ''420AF122-CF73-4A30-8B0A-A593A65FBEF5'') ''/string>'' @
    [str ''/dict>'' @ pad]"

definition plist_md :: "bytes \<Rightarrow> bytes \<Rightarrow> bytes \<Rightarrow> bytes \<Rightarrow> nat \<Rightarrow> bytes" where
  "plist_md pw n x status z = plist_text pw n x status @ replicate z 0"

lemma plist_md_segs: "plist_md pw n x status z = [] @ segs (plist_segs pw n x status (replicate z 0))"
  by (simp add: plist_md_def plist_text_def plist_segs_def pair_segs_def)

lemma length_plist_text:
  "length (plist_text pw n x status) = length pw + length n + length x + length status + 867"
  by (simp add: plist_text_def)

text \<open>Texts that can stand in the metadata: base64 blobs, and a status that is UTF-8 without a bracket.\<close>

definition plist_ok :: "bytes \<Rightarrow> bytes \<Rightarrow> bytes \<Rightarrow> bytes \<Rightarrow> nat \<Rightarrow> bool" where
  "plist_ok pw n x status z \<longleftrightarrow> list_all (\<lambda>b. list_all base64_byte b \<and> length b \<le> 1000) [pw, n, x] \<and>
    lt \<notin> set status \<and> utf8_valid status \<and> length (plist_md pw n x status z) \<le> 8192"

lemma plist_clear:
  assumes "plist_ok pw n x status z"
  shows "lt \<notin> set pw" "lt \<notin> set n" "lt \<notin> set x" "lt \<notin> set status" "length (plist_md pw n x status z) < 2 ^ 63"
    "list_all (\<lambda>b. \<not> is_ascii_whitespace b) pw" "list_all (\<lambda>b. \<not> is_ascii_whitespace b) x"
    "length pw \<le> 4096" "length x \<le> 4096" "utf8_valid status"
  using assms base64_clear by (auto simp: plist_ok_def)

lemma plist_integers:
  "parse_integer_text (str ''0x10000001'') = Some (0x10000001 :: u32)"
  "parse_integer_text (str ''0xa000000'') = Some (0xa000000 :: u64)"
proof -
  have "integer_text True (0x10000001 :: u32) = str ''0x10000001''"
    "integer_text True (0xa000000 :: u64) = str ''0xa000000''"
    by (simp_all add: integer_text_def show_radix.simps digit_byte)
  then show "parse_integer_text (str ''0x10000001'') = Some (0x10000001 :: u32)"
    "parse_integer_text (str ''0xa000000'') = Some (0xa000000 :: u64)"
    by (metis parse_integer_text_printed)+
qed

lemma plist_string:
  assumes "plist_ok pw n x status z"
    and "window i 4 (plist_segs pw n x status (replicate z 0)) = pair_segs k ''string ID='' attrs v ''/string>''"
    and "free_of (str k) (take i (plist_segs pw n x status (replicate z 0)))"
    and "CHR ''<'' \<notin> set k" and "CHR ''>'' \<notin> set attrs" and "lt \<notin> set v" and "utf8_valid v"
  shows "extract_string (plist_md pw n x status z) (str k) = Some v"
  using extract_string_segs [of "plist_md pw n x status z" "[]" "plist_segs pw n x status (replicate z 0)" "[]"]
    assms plist_clear(5) [OF assms(1)]
  by (simp add: plist_md_segs)

lemma plist_strings:
  assumes "plist_ok pw n x status z"
  defines "md \<equiv> plist_md pw n x status z"
  shows "extract_string md (str ''ConversionStatus'') = Some status"
    and "extract_string md (str ''com.apple.corestorage.lv.familyUUID'') = Some (str ''1F01CA34-5F6C-4123-AC0C-B0A256889DB2'')"
    and "extract_string md (str ''com.apple.corestorage.lv.name'') = Some (str ''SynthLV'')"
    and "extract_string md (str ''com.apple.corestorage.lv.uuid'') = Some (str ''420AF122-CF73-4A30-8B0A-A593A65FBEF5'')"
proof -
  note clear = plist_clear [OF assms(1)]
  have utf8: "utf8_valid (str ''1F01CA34-5F6C-4123-AC0C-B0A256889DB2'')" "utf8_valid (str ''SynthLV'')"
      "utf8_valid (str ''420AF122-CF73-4A30-8B0A-A593A65FBEF5'')"
    by (rule utf8_valid_str; auto)+
  note rule = plist_string [OF assms(1), folded md_def]
  show "extract_string md (str ''ConversionStatus'') = Some status"
    by (rule rule [where i = 31 and attrs = "''\"20\"''"])
      (simp_all add: plist_segs_def clear, simp_all add: pair_segs_def clear)
  show "extract_string md (str ''com.apple.corestorage.lv.familyUUID'') = Some (str ''1F01CA34-5F6C-4123-AC0C-B0A256889DB2'')"
    by (rule rule [where i = 37 and attrs = "''\"31\"''"])
      (simp_all add: plist_segs_def clear utf8 del: str_Cons, simp_all add: pair_segs_def clear)
  show "extract_string md (str ''com.apple.corestorage.lv.name'') = Some (str ''SynthLV'')"
    by (rule rule [where i = 41 and attrs = "''\"32\"''"])
      (simp_all add: plist_segs_def clear utf8 del: str_Cons, simp_all add: pair_segs_def clear)
  show "extract_string md (str ''com.apple.corestorage.lv.uuid'') = Some (str ''420AF122-CF73-4A30-8B0A-A593A65FBEF5'')"
    by (rule rule [where i = 49 and attrs = "''\"34\"''"])
      (simp_all add: plist_segs_def clear utf8 del: str_Cons, simp_all add: pair_segs_def clear)
qed

lemma plist_scans:
  assumes "plist_ok pw n x status z"
  defines "md \<equiv> plist_md pw n x status z" and "L \<equiv> plist_segs pw n x status (replicate z 0)"
  shows "algorithms md 0 = Some (str ''None'', length (segs (take 17 L)))"
    and "algorithms md (length (segs (take 17 L))) = Some (str ''AES-XTS'', length (segs (take 25 L)))"
    and "user_types md 0 = Some (0x10000001, length (segs (take 13 L)))"
    and "user_types md (length (segs (take 13 L))) = None"
proof -
  note clear = plist_clear [OF assms(1)]
  have md: "md = [] @ segs L @ []" and md': "md = [] @ segs L"
    by (simp_all add: md_def L_def plist_md_segs)
  have len: "length md < 2 ^ 63"
    using clear(5) by (simp add: md_def)
  have "algorithms md (length ([] @ segs (take 0 L))) = Some (str ''None'', length ([] @ segs (take (0 + 13 + 4) L)))"
    by (rule scan_segs_at [OF md len, where attrs = "''\"7\"''"])
      (simp_all add: L_def plist_segs_def clear, simp_all add: pair_segs_def clear)
  then show "algorithms md 0 = Some (str ''None'', length (segs (take 17 L)))"
    by (simp del: str_Cons)
  have "algorithms md (length ([] @ segs (take 17 L))) = Some (str ''AES-XTS'', length ([] @ segs (take (17 + 4 + 4) L)))"
    by (rule scan_segs_at [OF md len, where attrs = "''\"9\"''"])
      (simp_all add: L_def plist_segs_def clear, simp_all add: pair_segs_def clear)
  then show "algorithms md (length (segs (take 17 L))) = Some (str ''AES-XTS'', length (segs (take 25 L)))"
    by (simp del: str_Cons)
  have "extract_tagged_from md (str ''UserType'') (str ''<integer'') (str ''</integer>'') (length ([] @ segs (take 0 L))) =
      Some (str ''0x10000001'', length ([] @ segs (take (0 + 9 + 4) L)))"
    by (rule scan_segs_at [OF md len, where attrs = "'' size=\"32\" ID=\"6\"''"])
      (simp_all add: L_def plist_segs_def clear, simp_all add: pair_segs_def clear)
  then show "user_types md 0 = Some (0x10000001, length (segs (take 13 L)))"
    by (simp add: extract_integer_from_def plist_integers del: str_Cons)
  have "free_of (str ''UserType'') (drop 13 L)"
    by (simp add: L_def plist_segs_def clear, simp add: pair_segs_def clear)
  from no_key_at [OF md' this] show "user_types md (length (segs (take 13 L))) = None"
    by (simp add: extract_integer_from_def del: str_Cons)
qed

lemma plist_blobs:
  assumes "plist_ok pw n x status z"
  defines "md \<equiv> plist_md pw n x status z" and "L \<equiv> plist_segs pw n x status (replicate z 0)"
  shows "extract_data P md (str ''PassphraseWrappedKEKStruct'') = base64_decode P pw"
    and "extract_data P (drop (length (segs (take 25 L))) md) (str ''KEKWrappedVolumeKeyStruct'') = base64_decode P x"
    and "\<exists>e. extract_u64_integer md (str ''com.apple.corestorage.lv.size'') = Some (0xa000000, e)"
proof -
  note clear = plist_clear [OF assms(1)]
  have md: "md = [] @ segs L @ []"
    by (simp add: md_def L_def plist_md_segs)
  have len: "length md < 2 ^ 63"
    using clear(5) by (simp add: md_def)
  show "extract_data P md (str ''PassphraseWrappedKEKStruct'') = base64_decode P pw"
    by (rule extract_data_segs [OF md len, where n = 5 and attrs = "''\"4\"''"])
      (simp_all add: L_def plist_segs_def clear)
  have tail: "drop (length (segs (take 25 L))) md = [] @ segs (drop 25 L) @ []"
    using segs_append [of "take 25 L" "drop 25 L"] by (simp add: md)
  show "extract_data P (drop (length (segs (take 25 L))) md) (str ''KEKWrappedVolumeKeyStruct'') = base64_decode P x"
    by (rule extract_data_segs [OF tail, where n = 0 and attrs = "''\"10\"''"])
      (use len in \<open>simp_all add: L_def plist_segs_def clear\<close>)
  show "\<exists>e. extract_u64_integer md (str ''com.apple.corestorage.lv.size'') = Some (0xa000000, e)"
    by (intro exI, rule extract_u64_segs [OF md len _ _ _ _ _ _ plist_integers(2), where n = 45
          and attrs = "'' size=\"64\" ID=\"33\"''"])
      (simp_all add: L_def plist_segs_def clear, simp_all add: pair_segs_def clear)
qed

lemma plist_volume_key:
  assumes "plist_ok pw n x status z" and "base64_decode P x = Some blob"
  shows "extract_kek_wrapped_aes_xts P (plist_md pw n x status z) = Some blob"
  unfolding extract_kek_wrapped_aes_xts_def kek_loop_run
proof (intro exI [of _ "[str ''None'']"] exI [of _ "length (segs (take 25 (plist_segs pw n x status (replicate z 0))))"] conjI)
  show "scan_run (algorithms (plist_md pw n x status z)) 0 ([str ''None''] @ [str ''AES-XTS''])
      (length (segs (take 25 (plist_segs pw n x status (replicate z 0)))))"
    using plist_scans(1,2) [OF assms(1)] by (simp add: scan_run_Cons del: str_Cons)
qed (use plist_blobs(2) [OF assms(1), of P] assms(2) in \<open>simp_all del: str_Cons\<close>)

lemma plist_protectors:
  assumes "plist_ok pw n x status z"
  shows "extract_protectors (plist_md pw n x status z) = [\<lparr>pr_user_type = 0x10000001, pr_kind = Password\<rparr>]"
  using plist_scans(3,4) [OF assms]
  by (simp add: extract_protectors_def protectors_loop.simps [of _ 0] protectors_loop.simps [of _ "length (segs xs)" for xs]
      protector_of_def from_user_type_def del: str_Cons)

section \<open>The information\<close>

definition phrase_bytes :: "u32 \<Rightarrow> bytes" where
  "phrase_bytes iterations =
    replicate 8 0 @ replicate 16 0xAB @ replicate 8 0 @ replicate 24 0xCD @ replicate 112 0 @
    to_le_bytes 4 iterations @ replicate 112 0"

definition key_bytes :: bytes where
  "key_bytes = replicate 8 0 @ replicate 24 0xEF @ replicate 224 0"

definition image_text :: "encoders \<Rightarrow> u32 \<Rightarrow> bytes \<Rightarrow> bytes" where
  "image_text E iterations status =
    plist_text (base64_encode E (phrase_bytes iterations)) (base64_encode E key_bytes) (base64_encode E key_bytes) status"

lemma plist_eq: "plist E iterations status = Ok (image_text E iterations status)"
  by (simp add: plist_def image_text_def passphrase_struct_of_def volume_key_struct_def copy_at_def phrase_bytes_def
      key_bytes_def)

lemma image_context:
  assumes "text_documented P E" and "lt \<notin> set status" and "utf8_valid status"
    and "length (image_text E iterations status) \<le> 8192"
  defines "md \<equiv> image_text E iterations status @ replicate (8192 - length (image_text E iterations status)) 0"
  shows "extract_context P md =
      Ok \<lparr>ec_salt = replicate 16 0xAB, ec_iterations = iterations, ec_wrapped_kek = replicate 24 0xCD,
          ec_wrapped_vmk = replicate 24 0xEF,
          ec_protectors = [\<lparr>pr_user_type = 0x10000001, pr_kind = Password\<rparr>], ec_conversion_status = Some status\<rparr>"
    and "\<exists>lv. extract_lv_info md = Ok lv"
proof -
  let ?b = "base64_encode E" and ?z = "8192 - length (image_text E iterations status)"
  have decoded: "base64_decode P (?b bs) = Some bs" for bs
    using assms(1) by (simp add: text_documented_def)
  have md: "md = plist_md (?b (phrase_bytes iterations)) (?b key_bytes) (?b key_bytes) status ?z"
    by (simp add: md_def image_text_def plist_md_def)
  have lens: "length (phrase_bytes iterations) = 284" "length key_bytes = 256"
    by (simp_all add: phrase_bytes_def key_bytes_def)
  have "length md = 8192"
    using assms(4) by (simp add: md_def)
  then have ok: "plist_ok (?b (phrase_bytes iterations)) (?b key_bytes) (?b key_bytes) status ?z"
    using assms(1-3) lens by (simp add: plist_ok_def md [symmetric] text_documented_def)
  have "slice16 (phrase_bytes iterations) PW_SALT_OFFSET = Some (replicate 16 0xAB)"
      "slice24 (phrase_bytes iterations) PW_WRAPPED_KEK_OFFSET = Some (replicate 24 0xCD)"
      "read_u32_le (phrase_bytes iterations) PW_ITERATIONS_OFFSET = Some iterations"
      "slice24 key_bytes KEK_WRAPPED_VMK_OFFSET = Some (replicate 24 0xEF)"
    by (simp_all add: slice16_eq slice24_eq read_u32_le_eq const_defs phrase_bytes_def key_bytes_def from_le_to_le)
  then show "extract_context P md =
      Ok \<lparr>ec_salt = replicate 16 0xAB, ec_iterations = iterations, ec_wrapped_kek = replicate 24 0xCD,
          ec_wrapped_vmk = replicate 24 0xEF,
          ec_protectors = [\<lparr>pr_user_type = 0x10000001, pr_kind = Password\<rparr>], ec_conversion_status = Some status\<rparr>"
    unfolding md using plist_blobs(1) [OF ok, of P] plist_volume_key [OF ok decoded] plist_strings(1) [OF ok]
      plist_protectors [OF ok]
    by (simp add: extract_context_def decoded del: str_Cons)
  show "\<exists>lv. extract_lv_info md = Ok lv"
    unfolding md using plist_strings [OF ok] plist_blobs(3) [OF ok]
    by (auto simp: extract_lv_info_def extract_lv_size_def simp del: str_Cons)
qed

lemma auditor_image_built:
  assumes "xts_documented P" and "encrypt_documented P E" and "text_documented P E" and "length status \<le> 6257"
  obtains em where "auditor_image E iterations status = Ok (image_of em)" and "length em = 8192"
    and "length (image_text E iterations status) \<le> 8192"
    and "metadata_spec P (image_of em) image_header =
      Ok (image_text E iterations status @ replicate (8192 - length (image_text E iterations status)) 0)"
proof -
  let ?p = "image_text E iterations status"
  let ?unit = "?p @ replicate (8192 - length ?p) 0"
  have len: "length ?p \<le> 8192"
    using assms(3,4)
    by (simp add: image_text_def length_plist_text text_documented_def phrase_bytes_def key_bytes_def)
  then have unit: "length ?unit = 8192"
    by simp
  have "xts_keyed P KEY_DATA IMAGE_PV_ID 8192"
    using assms(1) by (simp add: xts_keyed_def builder_defs)
  from encrypt_area_inverse [OF assms(2) this, of 0 ?unit] unit obtain em where
      em: "xts_encrypt_area E KEY_DATA IMAGE_PV_ID 8192 0 ?unit = Some em" "length em = 8192"
        "xts_decrypt_area P KEY_DATA IMAGE_PV_ID 8192 0 em = Some ?unit"
    by auto
  then have "xts_encrypt E ?unit = Ok em"
    by (simp add: xts_encrypt_def ENC_UNIT_def)
  then show thesis
    using that auditor_image_eq [OF plist_eq len _ em(2)] em(2) len image_metadata_spec [OF em(2,3)] by blast
qed

text \<open>What an auditor has to report of the image.\<close>

definition image_kinds :: "u32 \<Rightarrow> bytes \<Rightarrow> AnomalyKind list" where
  "image_kinds iterations status =
    [ProtectorInventory (str ''password'') 1, EncryptionState status] @
    (if iterations < 20000 then [WeakKdfIterations iterations] else [])"

lemma auditor_image_info:
  assumes "xts_documented P" and "encrypt_documented P E" and "text_documented P E"
    and "lt \<notin> set status" and "utf8_valid status" and "length status \<le> 6257"
  obtains bs info where "auditor_image E iterations status = Ok bs" and "length bs = 12288" and "info_spec P bs = Ok info"
    and "audit_info V info = map (Anomaly_new V) (image_kinds iterations status)"
proof -
  obtain em where em: "auditor_image E iterations status = Ok (image_of em)" "length em = 8192"
      "length (image_text E iterations status) \<le> 8192"
      "metadata_spec P (image_of em) image_header =
        Ok (image_text E iterations status @ replicate (8192 - length (image_text E iterations status)) 0)"
    using auditor_image_built [OF assms(1-3,6)] .
  note ctx = image_context [OF assms(3-5) em(3)]
  obtain lv where lv: "extract_lv_info (image_text E iterations status @
      replicate (8192 - length (image_text E iterations status)) 0) = Ok lv"
    using ctx(2) by blast
  define info where "info = info_spec P (image_of em)"
  have "\<exists>i. info = Ok i \<and> fvi_pbkdf2_iterations i = iterations \<and> fvi_conversion_status i = Some status \<and>
      fvi_protectors i = [\<lparr>pr_user_type = 0x10000001, pr_kind = Password\<rparr>]"
    unfolding info_def using em(3)
    by (simp add: info_spec_def image_header_read em(4) ctx(1) lv resolve_lv_extent_eq build_info_def split_def
        del: chain_assoc)
  then show thesis
    using that [OF em(1), of _] em(2)
    by (auto simp: info_def image_of_def audit_info_def image_kinds_def protector_summary_def WEAK_KDF_THRESHOLD_def
        simp del: str_Cons)
qed

lemma auditor_image_audited:
  assumes "xts_documented P" and "encrypt_documented P E" and "text_documented P E"
    and "lt \<notin> set status" and "utf8_valid status" and "length status \<le> 6257"
    and "image_reader ops ok img pos patience"
  obtains bs where "auditor_image E iterations status = Ok bs" and "length bs = 12288"
    and "\<forall>r. ok r \<and> img r = bs \<longrightarrow>
      (\<exists>r'. audit V P ops r = Some (r', Ok (map (Anomaly_new V) (image_kinds iterations status))))"
proof -
  obtain bs info where bs: "auditor_image E iterations status = Ok bs" "length bs = 12288" "info_spec P bs = Ok info"
      "audit_info V info = map (Anomaly_new V) (image_kinds iterations status)"
    using auditor_image_info [OF assms(1-6)] by metis
  have "\<exists>r'. audit V P ops r = Some (r', Ok (map (Anomaly_new V) (image_kinds iterations status)))"
    if "ok r" "img r = bs" for r
    using image_reader.reads_as_audit [OF assms(7), of bs V P] that unfolding reads_as_def bs(3) by (auto simp: bs(4))
  with bs(1,2) show thesis
    by (intro that) auto
qed

section \<open>Property\<close>

text \<open>
  C15 The auditor reports what is in the image: for every iteration count and every conversion status
  (UTF-8 text without an opening bracket that fits in the metadata) the image is built, and an audit
  of it without a password, over every conforming reader, reports the one password protector, the
  status as it stands, and the iteration count exactly if it is below 20000, in this order and
  nothing else. The findings are those of the same anomalies, with the analyzer's name, the scope
  and the version of the package.
\<close>

theorem audit_auditor_image:
  assumes "xts_documented P" and "encrypt_documented P E" and "text_documented P E"
    and "lt \<notin> set status" and "utf8_valid status" and "length status \<le> 6257"
    and "image_reader ops ok img pos patience"
  shows "\<exists>bs. auditor_image E iterations status = Ok bs \<and>
    (\<forall>r. ok r \<and> img r = bs \<longrightarrow>
      (\<exists>r'. audit V P ops r = Some (r', Ok (map (Anomaly_new V) (image_kinds iterations status)))) \<and>
      (\<exists>r'. audit_findings V P to_finding pkg_version ops scope r =
        Some (r', Ok (map (\<lambda>k. to_finding (observe V (Anomaly_new V k))
            \<lparr>so_analyzer = ANALYZER, so_scope = scope, so_version = Some pkg_version\<rparr>)
          (image_kinds iterations status)))))"
proof -
  obtain bs where "auditor_image E iterations status = Ok bs" "length bs = 12288"
      "\<forall>r. ok r \<and> img r = bs \<longrightarrow>
        (\<exists>r'. audit V P ops r = Some (r', Ok (map (Anomaly_new V) (image_kinds iterations status))))"
    using auditor_image_audited [OF assms] .
  then show ?thesis
    by (intro exI [of _ bs]) (fastforce simp: audit_findings_def andThen_def return_def Let_def comp_def)
qed

theorem audit_auditor_image_witness:
  "\<exists>bs r. auditor_image codec_encoders 1000 (str ''Converting'') = Ok bs \<and>
    audit sample_vocab codec_prims cursor_ops (cursor_new bs) = Some (r, Ok (map (Anomaly_new sample_vocab)
      [ProtectorInventory (str ''password'') 1, EncryptionState (str ''Converting''), WeakKdfIterations 1000]))"
proof -
  have "utf8_valid (str ''Converting'')"
    by (rule utf8_valid_str) auto
  moreover obtain bs where bs: "auditor_image codec_encoders 1000 (str ''Converting'') = Ok bs" "length bs = 12288"
    using auditor_image_info [OF codec_documented(1) codec_encoders_documented(1,3), of "str ''Converting''" 1000] calculation
    by (auto simp del: str_Cons)
  ultimately have "\<forall>r. cursor_ok r \<and> cur_data r = bs \<longrightarrow>
      (\<exists>r'. audit sample_vocab codec_prims cursor_ops r =
        Some (r', Ok (map (Anomaly_new sample_vocab) (image_kinds 1000 (str ''Converting'')))))"
    using audit_auditor_image [OF codec_documented(1) codec_encoders_documented(1,3) _ _ _ cur.image_reader_axioms,
        of "str ''Converting''" 1000 sample_vocab "\<lambda>(_ :: (_, _, unit, unit) Observation) _. ()" "[]" "[]"]
    by (auto simp del: str_Cons)
  then show ?thesis
    using bs by (auto simp: image_kinds_def cursor_ok_def cursor_new_def simp del: str_Cons)
qed

end
