(* ===== verification/Context_Roundtrip.thy ===== *)
theory Context_Roundtrip
  imports Encoders
begin

text \<open>
  The encryption context (\<open>EncryptionContext::extract\<close> of \<open>core/src/context.rs\<close>) against a layout of its
  own: the two binary structs byte by byte, their base64 text as a plist holds it, broken into lines,
  and the algorithm entries one after the other. Extraction inverts that layout.
\<close>

section \<open>The structs and their text\<close>

text \<open>
  What the structs hold that is of interest, and what stands around it: eight bytes before the salt,
  eight between it and the wrapped KEK, 112 between that and the iteration count, eight bytes before
  the wrapped volume key, and anything after.
\<close>

record context_secrets =
  cs_salt :: bytes
  cs_wrapped_kek :: bytes
  cs_iterations :: u32
  cs_wrapped_vmk :: bytes

definition passphrase_layout :: "bytes \<Rightarrow> bytes \<Rightarrow> bytes \<Rightarrow> bytes \<Rightarrow> context_secrets \<Rightarrow> bytes" where
  "passphrase_layout a b c d x =
    a @ cs_salt x @ b @ cs_wrapped_kek x @ c @ to_le_bytes 4 (cs_iterations x) @ d"

definition volume_key_layout :: "bytes \<Rightarrow> bytes \<Rightarrow> context_secrets \<Rightarrow> bytes" where
  "volume_key_layout e f x = e @ cs_wrapped_vmk x @ f"

definition secrets_ok :: "context_secrets \<Rightarrow> bool" where
  "secrets_ok x \<longleftrightarrow> length (cs_salt x) = 16 \<and> length (cs_wrapped_kek x) = 24 \<and> length (cs_wrapped_vmk x) = 24"

lemma passphrase_fields:
  assumes "secrets_ok x" and "map length [a, b, c] = [8, 8, 112]"
  shows "slice16 (passphrase_layout a b c d x) PW_SALT_OFFSET = Some (cs_salt x)"
    and "slice24 (passphrase_layout a b c d x) PW_WRAPPED_KEK_OFFSET = Some (cs_wrapped_kek x)"
    and "read_u32_le (passphrase_layout a b c d x) PW_ITERATIONS_OFFSET = Some (cs_iterations x)"
  using assms
  by (simp_all add: secrets_ok_def passphrase_layout_def slice16_eq slice24_eq read_u32_le_eq const_defs from_le_to_le)

lemma volume_key_field:
  "\<lbrakk>secrets_ok x; length e = 8\<rbrakk> \<Longrightarrow> slice24 (volume_key_layout e f x) KEK_WRAPPED_VMK_OFFSET = Some (cs_wrapped_vmk x)"
  by (simp add: secrets_ok_def volume_key_layout_def slice24_eq const_defs)

text \<open>A text that is the base64 of a blob once the white space is left out of it.\<close>

definition base64_text :: "encoders \<Rightarrow> bytes \<Rightarrow> bytes \<Rightarrow> bool" where
  "base64_text E blob v \<longleftrightarrow> filter (\<lambda>b. \<not> is_ascii_whitespace b) v = base64_encode E blob"

abbreviation carries_data :: "bytes \<Rightarrow> string \<Rightarrow> bytes \<Rightarrow> bool" where
  "carries_data md key_name v \<equiv> carries data_pair (str ''<data ID='') md (str key_name) v"

lemma base64_text_no_bracket:
  assumes "text_documented P E" and "base64_text E blob v"
  shows "0x3C \<notin> set v"
proof
  assume "0x3C \<in> set v"
  then have "0x3C \<in> set (base64_encode E blob)"
    using assms(2) [unfolded base64_text_def, symmetric] by (simp add: is_ascii_whitespace_def)
  then have "base64_byte 0x3C"
    using assms(1) unfolding text_documented_def list_all_iff by blast
  then show False
    by (simp add: base64_byte_def in_range_def)
qed

lemma extract_data_carried:
  assumes "text_documented P E" and "carries_data md key_name v" and "base64_text E blob v"
    and "length md < 2 ^ 63" and "length blob \<le> 3072"
  shows "extract_data P md (str key_name) = Some blob"
proof -
  obtain pre gap attrs post where "md = pre @ data_pair (str key_name) gap attrs v @ post"
      "clear_of (key_tag (str key_name)) pre" "clear_of (str ''<data ID='') gap" "0x3E \<notin> set attrs"
    using assms(2) unfolding carries_def by blast
  then show ?thesis
    using extract_data_printed [of md pre "str key_name" gap attrs v post P] assms(1,3-5)
      base64_text_no_bracket [OF assms(1,3)]
    by (simp add: base64_text_def text_documented_def Let_def MAX_BASE64_BLOB_def del: str_Cons)
qed

section \<open>Algorithm entries\<close>

record algorithm_entry =
  ae_before :: bytes
  ae_gap :: bytes
  ae_attrs :: bytes
  ae_value :: bytes

definition print_algorithm :: "algorithm_entry \<Rightarrow> bytes" where
  "print_algorithm x = ae_before x @ string_pair (str ''BlockAlgorithm'') (ae_gap x) (ae_attrs x) (ae_value x)"

definition algorithm_ok :: "algorithm_entry \<Rightarrow> bool" where
  "algorithm_ok x \<longleftrightarrow> clear_of (key_tag (str ''BlockAlgorithm'')) (ae_before x) \<and>
    clear_of (str ''<string ID='') (ae_gap x) \<and> 0x3E \<notin> set (ae_attrs x) \<and> 0x3C \<notin> set (ae_value x)"

lemma algorithms_printed:
  assumes "md = front @ concat (map print_algorithm as) @ rest" and "length md < 2 ^ 63" and "list_all algorithm_ok as"
  shows "scan_run (algorithms md) (length front) (map ae_value as) (length (front @ concat (map print_algorithm as)))"
  using assms
proof (induction as arbitrary: front)
  case (Cons x as)
  have "algorithms md (length front) = Some (ae_value x, length (front @ ae_before x @
      tagged_value (str ''BlockAlgorithm'') (ae_gap x) (str ''<string ID='') (ae_attrs x) (ae_value x) (str ''</string>'')))"
  proof (rule scan_pair)
    show "md = front @ ae_before x @ tagged_value (str ''BlockAlgorithm'') (ae_gap x) (str ''<string ID='') (ae_attrs x)
        (ae_value x) (str ''</string>'') @ concat (map print_algorithm as) @ rest"
      using Cons.prems(1) by (simp add: print_algorithm_def [of x] string_pair_def del: str_Cons)
    show "str ''</string>'' = 0x3C # str ''/string>''"
      by simp
  qed (use Cons.prems in \<open>simp_all add: algorithm_ok_def del: str_Cons\<close>, simp_all)
  then have "algorithms md (length front) = Some (ae_value x, length (front @ print_algorithm x))"
    by (simp only: print_algorithm_def string_pair_def)
  moreover have "scan_run (algorithms md) (length (front @ print_algorithm x)) (map ae_value as)
      (length ((front @ print_algorithm x) @ concat (map print_algorithm as)))"
    using Cons.prems by (intro Cons.IH) simp_all
  ultimately show ?case
    by (simp add: scan_run_Cons del: str_Cons)
qed simp

lemma kek_printed:
  assumes "md = concat (map print_algorithm (as @ [x])) @ rest" and "length md < 2 ^ 63"
    and "list_all algorithm_ok (as @ [x])" and "ae_value x = str ''AES-XTS''" and "str ''AES-XTS'' \<notin> ae_value ` set as"
    and "extract_data P rest (str ''KEKWrappedVolumeKeyStruct'') = Some blob"
  shows "extract_kek_wrapped_aes_xts P md = Some blob"
  unfolding extract_kek_wrapped_aes_xts_def kek_loop_run
proof (intro exI conjI)
  show "scan_run (algorithms md) 0 (map ae_value as @ [str ''AES-XTS'']) (length (concat (map print_algorithm (as @ [x]))))"
    using algorithms_printed [of md "[]" "as @ [x]" rest] assms(1-4) by (simp del: str_Cons)
  show "extract_data P (drop (length (concat (map print_algorithm (as @ [x])))) md) (str ''KEKWrappedVolumeKeyStruct'') = Some blob"
    using assms(1,6) by (simp del: str_Cons)
qed (use assms(5) in \<open>simp del: str_Cons\<close>)

section \<open>Property\<close>

text \<open>
  C31 Extraction inverts the layout of the encryption context, for every base64 codec that behaves as
  documented. The metadata holds, in any order and among other content, the passphrase struct in
  base64, with white space anywhere in it, the crypto users, the conversion status, and the algorithm
  entries, the first of which with the value \<open>AES-XTS\<close> is followed by the struct of the volume key. Then
  the context has the salt from offset 8 and the wrapped KEK from offset 32 of the passphrase struct,
  the iteration count from offset 168, little-endian, the wrapped volume key from offset 8 of the struct
  that follows \<open>AES-XTS\<close> and of no other, the first 64 users in order and classified, and the status.
  The offsets are those the module states; \<open>docs/RESEARCH.md\<close> puts the iteration count at 172.
\<close>

theorem context_roundtrip:
  assumes "text_documented P E" and "length md < 2 ^ 63" and "secrets_ok x"
    and "map length [a, b, c] = [8, 8, 112]" and "length e = 8"
    and "carries_data md ''PassphraseWrappedKEKStruct'' v" and "base64_text E (passphrase_layout a b c d x) v"
    and "length (passphrase_layout a b c d x) \<le> 3072"
    and "md = concat (map print_algorithm (as @ [xts])) @ rest" and "list_all algorithm_ok (as @ [xts])"
    and "ae_value xts = str ''AES-XTS''" and "str ''AES-XTS'' \<notin> ae_value ` set as"
    and "carries_data rest ''KEKWrappedVolumeKeyStruct'' w" and "base64_text E (volume_key_layout e f x) w"
    and "length (volume_key_layout e f x) \<le> 3072"
    and "md = concat (map print_user us) @ others" and "list_all user_ok us"
    and "find_sub others (key_tag (str ''UserType'')) = None"
    and "carries_string md ''ConversionStatus'' status" and "0x3C \<notin> set status" and "utf8_valid status"
  shows "extract_context P md =
    Ok \<lparr>ec_salt = cs_salt x, ec_iterations = cs_iterations x, ec_wrapped_kek = cs_wrapped_kek x,
        ec_wrapped_vmk = cs_wrapped_vmk x, ec_protectors = map protector_of (take 64 (map ue_code us)),
        ec_conversion_status = Some status\<rparr>"
proof -
  have "length rest < 2 ^ 63"
    using assms(2,9) by simp
  then have "extract_kek_wrapped_aes_xts P md = Some (volume_key_layout e f x)"
    by (intro kek_printed [OF assms(9,2,10-12)] extract_data_carried [OF assms(1,13,14) _ assms(15)])
  moreover have "extract_data P md (str ''PassphraseWrappedKEKStruct'') = Some (passphrase_layout a b c d x)"
    by (rule extract_data_carried [OF assms(1,6,7,2,8)])
  moreover have "extract_protectors md = map protector_of (take 64 (map ue_code us))"
    using protectors_loop_printed [of md "[]" us others "[]"] assms(2,16-18) by (simp add: extract_protectors_def del: str_Cons)
  moreover have "extract_string md (str ''ConversionStatus'') = Some status"
    by (rule extract_string_carried [OF assms(19,2,20,21)])
  ultimately show ?thesis
    using passphrase_fields [OF assms(3,4), of d] volume_key_field [OF assms(3,5), of f]
    by (simp add: extract_context_def del: str_Cons)
qed
text \<open>
  A small instance: one user, the status, an algorithm that is another one, then \<open>AES-XTS\<close> with its
  struct, and at last the passphrase struct with a line break before its text. All bytes of the structs
  are below four, so that their base64 has few letters.
\<close>

lemma b64_few_letters:
  assumes "list_all (\<lambda>b. unat b < 4) bs"
  shows "0x50 \<notin> set (b64_encode bs)" and "0x55 \<notin> set (b64_encode bs)"
proof -
  have char: "b64_char d \<noteq> 0x50 \<and> b64_char d \<noteq> 0x55" if "d \<in> {0, 1, 2, 3, 4, 8, 12, 16, 32, 48}" for d
    using that by (auto simp: b64_char_def)
  have four: "n < 4 \<Longrightarrow> n \<in> {0, 1, 2, 3}" for n :: nat
    by auto
  have "list_all (\<lambda>c. c \<noteq> 0x50 \<and> c \<noteq> 0x55) (b64_encode bs)"
    using assms
  proof (induction bs rule: b64_encode.induct)
    case (2 a)
    then show ?case
      using four [of "unat a"] by (auto simp: char)
  next
    case (3 a b)
    then show ?case
      using four [of "unat a"] four [of "unat b"] by (auto simp: char)
  next
    case (4 a b c rest)
    then show ?case
      using four [of "unat a"] four [of "unat b"] four [of "unat c"] by (auto simp: char)
  qed simp
  then show "0x50 \<notin> set (b64_encode bs)" and "0x55 \<notin> set (b64_encode bs)"
    by (auto simp: list_all_iff)
qed

lemma b64_no_whitespace: "filter (\<lambda>b. \<not> is_ascii_whitespace b) (b64_encode bs) = b64_encode bs"
proof (rule filter_True, rule ballI, rule notI)
  fix b
  assume "b \<in> set (b64_encode bs)" and ws: "is_ascii_whitespace b"
  then have "base64_byte b"
    using b64_encode_alphabet [of bs] by (simp add: list_all_iff)
  with ws show False
    by (auto simp: base64_byte_def in_range_def is_ascii_whitespace_def)
qed

definition sample_secrets :: context_secrets where
  "sample_secrets = \<lparr>cs_salt = replicate 16 1, cs_wrapped_kek = replicate 24 2, cs_iterations = 0x30201,
    cs_wrapped_vmk = replicate 24 3\<rparr>"

definition sample_passphrase :: bytes where
  "sample_passphrase = passphrase_layout (replicate 8 0) (replicate 8 0) (replicate 112 0) [] sample_secrets"

definition sample_volume_key :: bytes where
  "sample_volume_key = volume_key_layout (replicate 8 0) [] sample_secrets"

lemma sample_texts:
  "0x55 \<notin> set (b64_encode sample_passphrase)" "0x55 \<notin> set (b64_encode sample_volume_key)"
  "0x50 \<notin> set (b64_encode sample_volume_key)"
  "length (b64_encode sample_passphrase) = 232" "length (b64_encode sample_volume_key) = 44"
proof -
  have small: "list_all (\<lambda>b. unat b < 4) sample_passphrase" "list_all (\<lambda>b. unat b < 4) sample_volume_key"
    by (auto simp: sample_passphrase_def sample_volume_key_def passphrase_layout_def volume_key_layout_def sample_secrets_def
        to_le_bytes_def upt_rec list_all_iff)
  then show "0x55 \<notin> set (b64_encode sample_passphrase)" "0x55 \<notin> set (b64_encode sample_volume_key)"
      "0x50 \<notin> set (b64_encode sample_volume_key)"
    using b64_few_letters by blast+
  show "length (b64_encode sample_passphrase) = 232" "length (b64_encode sample_volume_key) = 44"
    by (simp_all add: b64_encode_length sample_passphrase_def sample_volume_key_def passphrase_layout_def volume_key_layout_def
        sample_secrets_def)
qed

definition sample_user :: user_entry where
  "sample_user = \<lparr>ue_before = [], ue_gap = [], ue_attrs = [], ue_hex = True, ue_code = 9\<rparr>"

definition sample_status :: bytes where
  "sample_status = string_pair (str ''ConversionStatus'') [] [] (str ''Complete'')"

definition sample_none :: algorithm_entry where
  "sample_none = \<lparr>ae_before = print_user sample_user @ sample_status, ae_gap = [], ae_attrs = [], ae_value = str ''None''\<rparr>"

definition sample_xts :: algorithm_entry where
  "sample_xts = \<lparr>ae_before = [], ae_gap = [], ae_attrs = [], ae_value = str ''AES-XTS''\<rparr>"

definition sample_blobs :: bytes where
  "sample_blobs = data_pair (str ''KEKWrappedVolumeKeyStruct'') [] [] (b64_encode sample_volume_key) @
    data_pair (str ''PassphraseWrappedKEKStruct'') [] [] (0x0A # b64_encode sample_passphrase)"

definition sample_metadata :: bytes where
  "sample_metadata = print_algorithm sample_none @ print_algorithm sample_xts @ sample_blobs"

definition sample_others :: bytes where
  "sample_others = sample_status @ string_pair (str ''BlockAlgorithm'') [] [] (str ''None'') @
    print_algorithm sample_xts @ sample_blobs"

lemma sample_user_text: "print_user sample_user =
    str ''<key>UserType</key><integer>0x9</integer>''"
  by (simp add: print_user_def sample_user_def integer_pair_def tagged_value_def key_tag_def integer_text_def
      show_radix_small digit_byte)

lemmas sample_pairs = string_pair_def data_pair_def tagged_value_def key_tag_def

lemma sample_metadata_ok:
  "sample_metadata = print_user sample_user @ sample_others"
  "length sample_metadata < 2 ^ 63"
  "find_sub sample_others (key_tag (str ''UserType'')) = None"
  "algorithm_ok sample_none" "algorithm_ok sample_xts" "user_ok sample_user"
proof -
  show "sample_metadata = print_user sample_user @ sample_others"
    by (simp add: sample_metadata_def sample_others_def print_algorithm_def sample_none_def del: str_Cons)
  show "length sample_metadata < 2 ^ 63"
    by (simp add: sample_metadata_def print_algorithm_def sample_none_def sample_xts_def sample_status_def sample_blobs_def
        sample_user_text sample_pairs sample_texts)
  have U: "0x55 \<notin> set sample_others"
    using sample_texts(1,2)
    by (simp add: sample_others_def print_algorithm_def sample_xts_def sample_status_def sample_blobs_def sample_pairs)
  show "find_sub sample_others (key_tag (str ''UserType'')) = None"
    unfolding find_sub_eq_None
  proof (intro disjI2 allI notI)
    fix i
    assume "occurs_at sample_others (key_tag (str ''UserType'')) i"
    then have "window i (length (key_tag (str ''UserType''))) sample_others = key_tag (str ''UserType'')"
      by (simp only: occurs_at_def)
    moreover have "0x55 \<in> set (key_tag (str ''UserType''))"
      by (simp add: key_tag_def)
    ultimately have "0x55 \<in> set (window i (length (key_tag (str ''UserType''))) sample_others)"
      by simp
    then show False
      using U by (auto dest!: in_set_takeD in_set_dropD)
  qed
  have "clear_of (key_tag (str ''BlockAlgorithm'')) (print_user sample_user @ sample_status)"
    by (rule clear_of_byte [where b = "0x42" and k = 5]) (simp_all add: sample_user_text sample_status_def sample_pairs)
  then show "algorithm_ok sample_none"
    by (simp add: algorithm_ok_def sample_none_def)
  show "algorithm_ok sample_xts" "user_ok sample_user"
    by (simp_all add: algorithm_ok_def sample_xts_def user_ok_def sample_user_def)
qed

theorem context_roundtrip_witness:
  "extract_context codec_prims sample_metadata =
    Ok \<lparr>ec_salt = replicate 16 1, ec_iterations = 0x30201, ec_wrapped_kek = replicate 24 2,
        ec_wrapped_vmk = replicate 24 3, ec_protectors = [\<lparr>pr_user_type = 9, pr_kind = Unknown\<rparr>],
        ec_conversion_status = Some (str ''Complete'')\<rparr>"
proof -
  let ?front = "print_algorithm sample_none @ print_algorithm sample_xts @
    data_pair (str ''KEKWrappedVolumeKeyStruct'') [] [] (b64_encode sample_volume_key)"
  have "0x50 \<notin> set ?front"
    using sample_texts(3)
    by (simp add: print_algorithm_def sample_none_def sample_xts_def sample_user_text sample_status_def sample_pairs)
  then have passphrase: "carries_data sample_metadata ''PassphraseWrappedKEKStruct'' (0x0A # b64_encode sample_passphrase)"
    by (intro carriesI [of _ ?front _ _ _ "[]" _ "0x50" 5])
      (simp_all add: sample_metadata_def sample_blobs_def key_tag_def del: str_Cons, simp_all)
  have volume_key: "carries_data sample_blobs ''KEKWrappedVolumeKeyStruct'' (b64_encode sample_volume_key)"
    by (rule carriesI [of _ "[]" _ _ _
        "data_pair (str ''PassphraseWrappedKEKStruct'') [] [] (0x0A # b64_encode sample_passphrase)" _ "0x3C" 0])
      (simp_all add: sample_blobs_def key_tag_def)
  have status: "carries_string sample_metadata ''ConversionStatus'' (str ''Complete'')"
    by (rule carriesI [of _ "print_user sample_user" _ _ _ "string_pair (str ''BlockAlgorithm'') [] [] (str ''None'') @
        print_algorithm sample_xts @ sample_blobs" _ "0x43" 5])
      (simp_all add: sample_metadata_ok(1) sample_others_def sample_status_def del: str_Cons,
       simp_all add: sample_user_text key_tag_def)
  have texts: "base64_text codec_encoders sample_passphrase (0x0A # b64_encode sample_passphrase)"
      "base64_text codec_encoders sample_volume_key (b64_encode sample_volume_key)"
    by (simp_all add: base64_text_def codec_encoders_def b64_no_whitespace) (simp add: is_ascii_whitespace_def)
  have "extract_context codec_prims sample_metadata =
    Ok \<lparr>ec_salt = cs_salt sample_secrets, ec_iterations = cs_iterations sample_secrets,
        ec_wrapped_kek = cs_wrapped_kek sample_secrets, ec_wrapped_vmk = cs_wrapped_vmk sample_secrets,
        ec_protectors = map protector_of (take 64 (map ue_code [sample_user])), ec_conversion_status = Some (str ''Complete'')\<rparr>"
  proof (rule context_roundtrip [OF codec_encoders_documented(3) sample_metadata_ok(2) _ _ _ passphrase [unfolded sample_passphrase_def]
        texts(1) [unfolded sample_passphrase_def] _ _ _ _ _ volume_key [unfolded sample_volume_key_def] texts(2) [unfolded sample_volume_key_def]
        _ _ _ sample_metadata_ok(3) status])
    show "sample_metadata = concat (map print_algorithm ([sample_none] @ [sample_xts])) @ sample_blobs"
      by (simp add: sample_metadata_def)
    show "list_all algorithm_ok ([sample_none] @ [sample_xts])" "list_all user_ok [sample_user]"
      by (simp_all add: sample_metadata_ok)
    show "sample_metadata = concat (map print_user [sample_user]) @ sample_others"
      by (simp add: sample_metadata_ok(1))
    show "utf8_valid (str ''Complete'')"
      by (simp add: utf8_valid_ascii)
  qed (simp_all add: secrets_ok_def sample_secrets_def passphrase_layout_def volume_key_layout_def sample_none_def sample_xts_def)
  then show ?thesis
    by (simp add: sample_secrets_def sample_user_def protector_of_def from_user_type_def)
qed

end
