(* ===== verification/Fixtures.thy ===== *)
theory Fixtures
  imports Volume Metadata Plist
begin

text \<open>
  The fixtures of the unit tests in \<open>core/src/volume_header.rs\<close>, \<open>metadata.rs\<close>, \<open>context.rs\<close>, \<open>unlock.rs\<close>
  and \<open>volume.rs\<close>: hexadecimal literals, headers, plaintext metadata regions, encryption contexts,
  encrypted backing images, and readers that are interrupted or fail. The properties say for all
  parameters of a fixture what the tests check for one.
\<close>

section \<open>Hexadecimal literals\<close>

text \<open>\<open>hex\<close> of \<open>context.rs\<close>, \<open>hexn\<close> of \<open>unlock.rs\<close>, which \<open>volume_header.rs\<close> has for sixteen bytes.\<close>

definition hex :: "bytes \<Rightarrow> bytes fv" where
  "hex s = traverse (\<lambda>i. chain (or_panic (slice_get s (i * 2) (i * 2 + 2))) (\<lambda>d. or_panic (from_str_radix d 16)))
    [0..<length s div 2]"

definition hexn :: "nat \<Rightarrow> bytes \<Rightarrow> bytes fv" where
  "hexn n s = traverse (\<lambda>i. chain (or_panic (slice_get s (i * 2) (i * 2 + 2))) (\<lambda>d. or_panic (from_str_radix d 16)))
    [0..<n]"

definition header_hex :: "bytes \<Rightarrow> bytes fv" where
  "header_hex s = hexn 16 s"

lemma traverse_upt_Suc:
  "traverse f [0..<Suc n] = chain (f 0) (\<lambda>y. chain (traverse (\<lambda>i. f (Suc i)) [0..<n]) (\<lambda>ys. Ok (y # ys)))"
proof -
  have "traverse f (map Suc xs) = traverse (\<lambda>i. f (Suc i)) xs" for xs
    by (induction xs) simp_all
  then show ?thesis
    by (simp add: upt_conv_Cons map_Suc_upt [symmetric] del: upt_Suc map_Suc_upt)
qed

lemma from_str_radix_byte: "from_str_radix [hex_digit (unat b div 16), hex_digit (unat b mod 16)] 16 = Some (b :: u8)"
proof -
  have d: "unat b div 16 < 16" "unat b mod 16 < 16"
    by (simp_all add: b64_quotients)
  then have "hex_digit (unat b div 16) \<noteq> 0x2B" "hex_digit (unat b div 16) \<noteq> 0x2D"
    using hex_digit_bytes [of "unat b div 16"] by (auto simp: to_digit_def in_range_def)
  then show ?thesis
    using d unat_u8_less [of b]
    by (simp add: from_str_radix_def hex_digit_bytes)
qed

lemma slice_pair:
  "slice_get (x # y # xs) (Suc i * 2) (Suc i * 2 + 2) = slice_get xs (i * 2) (i * 2 + 2)"
  "slice_get (x # y # xs) (0 * 2) (0 * 2 + 2) = Some [x, y]"
  by (simp_all add: slice_get_def)

lemma hexn_printed: "length bs = n \<Longrightarrow> hexn n (hex_text bs @ rest) = Ok bs"
proof (induction bs arbitrary: n)
  case Nil
  then show ?case
    by (simp add: hexn_def)
next
  case (Cons b bs)
  then have "hexn n (hex_text (b # bs) @ rest) = hexn (Suc (length bs)) (hex_text (b # bs) @ rest)"
    by simp
  also have "\<dots> = chain (hexn (length bs) (hex_text bs @ rest)) (\<lambda>ys. Ok (b # ys))"
    by (simp only: hexn_def traverse_upt_Suc hex_text.simps append_Cons slice_pair or_panic.simps chain.simps
        from_str_radix_byte)
  finally show ?case
    using Cons.IH [of "length bs"] by simp
qed

lemma hexn_literal: "\<lbrakk>hex_text bs = s; length bs = n\<rbrakk> \<Longrightarrow> hexn n s = Ok bs"
  using hexn_printed [of bs n "[]"] by simp

lemma hex_printed: "hex (hex_text bs) = Ok bs"
  using hexn_printed [of bs "length bs" "[]"] by (simp add: hex_def hexn_def)

section \<open>Headers\<close>

fun write_slots :: "nat \<Rightarrow> u64 list \<Rightarrow> bytes \<Rightarrow> bytes fv" where
  "write_slots i [] h = Ok h"
| "write_slots i (block # blocks) h =
    chain (write_at (104 + i * 8) (to_le_bytes 8 block) h) (write_slots (Suc i) blocks)"

definition ground_truth_header :: "bytes fv" where
  "ground_truth_header =
    chain (write_at 88 (str ''C'') (replicate 512 0)) (\<lambda>h.
    chain (write_at 89 (str ''S'') h) (\<lambda>h.
    chain (write_at 48 (to_le_bytes 4 (512 :: u32)) h) (\<lambda>h.
    chain (write_at 96 (to_le_bytes 4 (4096 :: u32)) h) (\<lambda>h.
    chain (write_at 64 (to_le_bytes 8 (536829952 :: u64)) h) (\<lambda>h.
    chain (write_at 172 (to_le_bytes 4 (2 :: u32)) h) (\<lambda>h.
    chain (write_slots 0 [1, 1025, 129013, 130037] h) (\<lambda>h.
    chain (header_hex (str ''18eaeb7da9ab0852ead69e9dabc86f59'')) (\<lambda>key.
    chain (write_at 176 key h) (\<lambda>h.
    chain (header_hex (str ''3273a0553b8b47e8b970df35eecda81b'')) (\<lambda>ident.
      write_at 304 ident h))))))))))"

definition fixture_header :: "u32 \<Rightarrow> u64 \<Rightarrow> VolumeHeader" where
  "fixture_header block_size mbn0 =
    \<lparr>vh_block_size = block_size, vh_bytes_per_sector = 512, vh_physical_volume_size = 0,
     vh_metadata_block_numbers = [mbn0, 0, 0, 0], vh_key_data = replicate 16 0,
     vh_physical_volume_identifier = replicate 16 0\<rparr>"

lemma ground_truth_keys:
  "header_hex (str ''18eaeb7da9ab0852ead69e9dabc86f59'') =
    Ok [0x18, 0xea, 0xeb, 0x7d, 0xa9, 0xab, 0x08, 0x52, 0xea, 0xd6, 0x9e, 0x9d, 0xab, 0xc8, 0x6f, 0x59]"
  "header_hex (str ''3273a0553b8b47e8b970df35eecda81b'') =
    Ok [0x32, 0x73, 0xa0, 0x55, 0x3b, 0x8b, 0x47, 0xe8, 0xb9, 0x70, 0xdf, 0x35, 0xee, 0xcd, 0xa8, 0x1b]"
  unfolding header_hex_def by (rule hexn_literal; simp add: digit_byte)+

lemma parse_ground_truth_header:
  "\<exists>h. ground_truth_header = Ok h \<and> length h = 512 \<and>
    parse h = Ok \<lparr>vh_block_size = 4096, vh_bytes_per_sector = 512, vh_physical_volume_size = 536829952,
      vh_metadata_block_numbers = [1, 1025, 129013, 130037],
      vh_key_data = [0x18, 0xea, 0xeb, 0x7d, 0xa9, 0xab, 0x08, 0x52, 0xea, 0xd6, 0x9e, 0x9d, 0xab, 0xc8, 0x6f, 0x59],
      vh_physical_volume_identifier =
        [0x32, 0x73, 0xa0, 0x55, 0x3b, 0x8b, 0x47, 0xe8, 0xb9, 0x70, 0xdf, 0x35, 0xee, 0xcd, 0xa8, 0x1b]\<rparr>"
proof -
  obtain key ident where lit: "header_hex (str ''18eaeb7da9ab0852ead69e9dabc86f59'') = Ok key"
      "header_hex (str ''3273a0553b8b47e8b970df35eecda81b'') = Ok ident"
    and key: "key = [0x18, 0xea, 0xeb, 0x7d, 0xa9, 0xab, 0x08, 0x52, 0xea, 0xd6, 0x9e, 0x9d, 0xab, 0xc8, 0x6f, 0x59]"
    and ident: "ident = [0x32, 0x73, 0xa0, 0x55, 0x3b, 0x8b, 0x47, 0xe8, 0xb9, 0x70, 0xdf, 0x35, 0xee, 0xcd, 0xa8, 0x1b]"
    using ground_truth_keys by blast
  have len: "length key = 16" "length ident = 16"
    by (simp_all add: key ident)
  define h where "h =
    copy_at 304 ident
    (copy_at 176 key
    (copy_at 128 (to_le_bytes 8 (130037 :: u64))
    (copy_at 120 (to_le_bytes 8 (129013 :: u64))
    (copy_at 112 (to_le_bytes 8 (1025 :: u64))
    (copy_at 104 (to_le_bytes 8 (1 :: u64))
    (copy_at 172 (to_le_bytes 4 (2 :: u32))
    (copy_at 64 (to_le_bytes 8 (536829952 :: u64))
    (copy_at 96 (to_le_bytes 4 (4096 :: u32))
    (copy_at 48 (to_le_bytes 4 (512 :: u32))
    (copy_at 88 (to_le_bytes 2 CS_SIGNATURE_LE) (replicate 512 0)))))))))))"
  have "ground_truth_header = Ok h" and l: "length h = 512"
    unfolding ground_truth_header_def h_def
    by (simp_all add: lit len signature_bytes del: str_Cons)
  moreover have "signature_of h = CS_SIGNATURE_LE" "method_of h = ENCRYPTION_METHOD_AES_XTS_128"
    by (simp_all add: h_def len field_copied from_le_to_le const_defs)
  moreover have "header_fields h = \<lparr>vh_block_size = 4096, vh_bytes_per_sector = 512,
      vh_physical_volume_size = 536829952, vh_metadata_block_numbers = [1, 1025, 129013, 130037],
      vh_key_data = key, vh_physical_volume_identifier = ident\<rparr>"
    by (simp add: header_fields_def h_def len field_copied from_le_to_le upt_rec)
  ultimately show ?thesis
    unfolding key ident by (intro exI [of _ h]) (simp add: parse_eq)
qed

section \<open>Plaintext metadata regions\<close>

definition build_region :: "nat \<Rightarrow> u64 \<Rightarrow> u64 \<Rightarrow> bytes fv" where
  "build_region block_size cnt primary =
    (let payload = BLOCK_HEADER_SIZE; desc = 2 * block_size;
         primary_field = primary OR push_bit 48 0x1234
     in
     chain (usize_mul block_size 4) (\<lambda>n.
     chain (zeroed_vec n) (\<lambda>region.
     chain (write_at 10 (to_le_bytes 2 BLOCK_TYPE_ENCRYPTED_METADATA_POINTER) region) (\<lambda>region.
     chain (word_mul (of_nat block_size) 4) (\<lambda>sz :: u32.
     chain (write_at payload (to_le_bytes 4 sz) region) (\<lambda>region.
     chain (write_at (payload + PAYLOAD_VG_DESCRIPTOR_OFFSET) (to_le_bytes 4 (of_nat desc :: u32)) region) (\<lambda>region.
     chain (write_at (desc + VG_COUNT_OFFSET) (to_le_bytes 8 cnt) region) (\<lambda>region.
       write_at (desc + VG_PRIMARY_BLOCK_OFFSET) (to_le_bytes 8 primary_field) region))))))))"

text \<open>The region that is built, and its fields.\<close>

definition region_of :: "nat \<Rightarrow> u64 \<Rightarrow> u64 \<Rightarrow> bytes" where
  "region_of block_size cnt primary =
    copy_at (2 * block_size + 32) (to_le_bytes 8 (primary OR push_bit 48 0x1234))
    (copy_at (2 * block_size + 8) (to_le_bytes 8 cnt)
    (copy_at 220 (to_le_bytes 4 (of_nat (2 * block_size) :: u32))
    (copy_at 64 (to_le_bytes 4 (of_nat (4 * block_size) :: u32))
    (copy_at 10 (to_le_bytes 2 (0x0011 :: u16)) (replicate (4 * block_size) 0)))))"

lemma build_region_eq:
  assumes "112 \<le> block_size" and "4 * block_size < 2 ^ 32"
  shows "build_region block_size cnt primary = Ok (region_of block_size cnt primary)"
    and "length (region_of block_size cnt primary) = 4 * block_size"
proof -
  have u: "unat (of_nat block_size :: u32) = block_size"
    using assms(2) by (intro unat_of_nat_fit) simp
  have "word_mul (of_nat block_size) 4 = (Ok (of_nat (4 * block_size)) :: u32 fv)"
    using assms(2) by (simp add: word_mul_def u mult.commute)
  then show "build_region block_size cnt primary = Ok (region_of block_size cnt primary)"
    using assms by (simp add: build_region_def region_of_def zeroed_vec_def const_defs mult.commute Let_def)
  show "length (region_of block_size cnt primary) = 4 * block_size"
    using assms(1) by (simp add: region_of_def)
qed

lemma region_of_fields:
  assumes "112 \<le> block_size" and "4 * block_size < 2 ^ 32"
  shows "type_field (region_of block_size cnt primary) = 0x0011"
    and "size_field (region_of block_size cnt primary) = of_nat (4 * block_size)"
    and "descriptor_field (region_of block_size cnt primary) = 2 * block_size"
    and "count_field (region_of block_size cnt primary) = cnt"
    and "unat primary < 2 ^ 48 \<Longrightarrow> primary_field (region_of block_size cnt primary) = primary"
proof -
  let ?r = "region_of block_size cnt primary"
  have u: "unat (of_nat (2 * block_size) :: u32) = 2 * block_size"
    using assms(2) by (intro unat_of_nat_fit) simp
  show "type_field ?r = 0x0011" "size_field ?r = of_nat (4 * block_size)"
    using assms(1) by (simp_all add: region_of_def field_copied from_le_to_le)
  have "(field_at 4 from_le_bytes 0 ?r 220 :: u32) = of_nat (2 * block_size)"
    using assms(1) by (simp add: region_of_def field_copied from_le_to_le)
  then show d: "descriptor_field ?r = 2 * block_size"
    by (simp only: u)
  show "count_field ?r = cnt"
    unfolding d using assms(1) by (simp add: region_of_def field_copied from_le_to_le)
  show "primary_field ?r = primary" if "unat primary < 2 ^ 48"
    unfolding d using assms(1) masked_physical [OF that, where pv = "0x1234"]
    by (simp add: region_of_def field_copied from_le_to_le)
qed

lemma region_of_read:
  assumes "512 \<le> block_size" and "4 * block_size < 2 ^ 32"
    and "0 < unat cnt" and "unat cnt \<le> 2 ^ 20"
    and "unat primary < 2 ^ 48" and "unat primary * block_size < 2 ^ 64"
  shows "plaintext_metadata_size (fixture_header (of_nat block_size) mbn)
      (take block_size (region_of block_size cnt primary)) = Ok (of_nat (4 * block_size))"
    and "locate_encrypted_metadata (fixture_header (of_nat block_size) mbn) (region_of block_size cnt primary) =
      Ok \<lparr>em_primary_offset = primary * of_nat block_size, em_block_count = cnt,
          em_length = cnt * of_nat block_size\<rparr>"
proof -
  let ?r = "region_of block_size cnt primary" and ?h = "fixture_header (of_nat block_size) mbn"
  have bs: "112 \<le> block_size"
    using assms(1) by simp
  note fields = region_of_fields [OF bs assms(2), where cnt = cnt and primary = primary]
  have u: "unat (of_nat block_size :: u32) = block_size" and u4: "unat (of_nat (4 * block_size) :: u32) = 4 * block_size"
    using assms(2) by (intro unat_of_nat_fit, simp)+
  then have c: "(ucast (of_nat block_size :: u32) :: u64) = of_nat block_size"
      "(ucast (of_nat (4 * block_size) :: u32) :: u64) = of_nat (4 * block_size)"
    by (metis of_nat_unat)+
  have "(of_nat (4 * block_size) :: u32) \<noteq> 0" "(of_nat block_size :: u32) \<noteq> 0" "cnt \<noteq> 0"
    using u u4 assms(1,3) by auto
  moreover have "4 * block_size div block_size \<le> 2 ^ 20"
    using assms(1) by simp
  moreover have "type_field (take block_size ?r) = 0x0011" "size_field (take block_size ?r) = of_nat (4 * block_size)"
    using fields(1,2) assms(1) by (simp_all add: field_take)
  ultimately show "plaintext_metadata_size ?h (take block_size ?r) = Ok (of_nat (4 * block_size))"
    unfolding plaintext_metadata_size_eq using c(2) u u4
    by (simp add: fixture_header_def del: of_nat_mult)
  show "locate_encrypted_metadata ?h ?r =
      Ok \<lparr>em_primary_offset = primary * of_nat block_size, em_block_count = cnt, em_length = cnt * of_nat block_size\<rparr>"
    unfolding locate_encrypted_metadata_eq fields(4) fields(5) [OF assms(5)]
    unfolding fields(1,3)
    using build_region_eq(2) [OF bs assms(2)] assms(1,4,6) \<open>cnt \<noteq> 0\<close> u c(1)
    by (simp add: fixture_header_def not_le)
qed

section \<open>Encrypted backing images\<close>

text \<open>The volume key pair of the tests of \<open>volume.rs\<close>.\<close>

definition fixture_keys :: VolumeKeys where
  "fixture_keys = \<lparr>vk_vmk = replicate 16 0x55, vk_tweak_key = replicate 16 0x66\<rparr>"

definition build_backing :: "encoders \<Rightarrow> u64 \<Rightarrow> bytes \<Rightarrow> VolumeKeys \<Rightarrow> bytes fv" where
  "build_backing E base plain keys =
    chain (encrypt_units E plain (vk_vmk keys) (vk_tweak_key keys) SECTOR_SIZE 0) (\<lambda>cipher.
    chain (zeroed_vec (unat base)) (\<lambda>img.
      Ok (img @ cipher)))"

lemma build_backing_plaintext:
  assumes "xts_documented P" and "encrypt_documented P E" and "keys_ok keys"
    and "unat base < 2 ^ 63" and "length plain mod 512 = 0" and "length plain < 2 ^ 63"
  obtains img where "build_backing E base plain keys = Ok img" and "length img = unat base + length plain"
    and "plaintext P keys (unat base) (length plain) img = plain"
proof -
  have keyed: "xts_keyed P (vk_vmk keys) (vk_tweak_key keys) 512"
    using assms(1,3) by (simp add: xts_keyed_def keys_ok_def)
  have "unat (0 :: u128) + length plain div 512 < 2 ^ 128"
    using assms(6) by simp
  from encrypt_area_inverse [OF assms(2) keyed this] assms(5)
  obtain c where c: "xts_encrypt_area E (vk_vmk keys) (vk_tweak_key keys) 512 0 plain = Some c"
      "length c = length plain" "xts_decrypt_area P (vk_vmk keys) (vk_tweak_key keys) 512 0 c = Some plain"
    by auto
  obtain k where k: "length plain = k * 512"
    using assms(5) by (metis dvdE dvd_eq_mod_eq_0 mult.commute)
  have "(k * 512 + 511) div 512 = k"
    by simp
  then have "cipher_sectors (unat base) (length plain) (replicate (unat base) 0 @ c) = c"
    using c(2) k by (simp add: cipher_sectors_def Let_def)
  then have "plaintext P keys (unat base) (length plain) (replicate (unat base) 0 @ c) = plain"
    using c(3) by (simp add: plaintext_def)
  then show thesis
    using that [of "replicate (unat base) 0 @ c"] c assms(4)
    by (simp add: build_backing_def encrypt_units_def SECTOR_SIZE_def zeroed_vec_def)
qed

section \<open>Readers that are interrupted or fail\<close>

record FlakyReader =
  fr_data :: bytes
  fr_pos :: nat
  fr_interrupted_once :: bool

definition flaky_read :: "FlakyReader \<Rightarrow> nat \<Rightarrow> FlakyReader \<times> bytes io_result" where
  "flaky_read r buf_len =
    (if \<not> fr_interrupted_once r then (r\<lparr>fr_interrupted_once := True\<rparr>, Err Interrupted)
     else if fr_pos r \<ge> length (fr_data r) then (r, Err (Message ''backing read failed''))
     else
       let n = min (min buf_len (length (fr_data r) - fr_pos r)) 4 in
       (r\<lparr>fr_pos := fr_pos r + n\<rparr>, Ok (window (fr_pos r) n (fr_data r))))"

text \<open>Neither reader implements \<open>Seek\<close>: the other method of the record is left open.\<close>

definition flaky_ops :: "(FlakyReader \<Rightarrow> seek_from \<Rightarrow> FlakyReader \<times> u64 io_result) \<Rightarrow> FlakyReader read_seek" where
  "flaky_ops sk = \<lparr>rd_read = flaky_read, rd_seek = sk\<rparr>"

definition eof_ops :: "(unit \<Rightarrow> seek_from \<Rightarrow> unit \<times> u64 io_result) \<Rightarrow> unit read_seek" where
  "eof_ops sk = \<lparr>rd_read = (\<lambda>r buf_len. (r, Ok [])), rd_seek = sk\<rparr>"

lemma flaky_step:
  assumes "fr_interrupted_once r" and "fr_pos r < length (fr_data r)" and "0 < n"
  obtains k where "flaky_read r n = (r\<lparr>fr_pos := fr_pos r + k\<rparr>, Ok (window (fr_pos r) k (fr_data r)))"
    and "0 < k" and "k \<le> n" and "fr_pos r + k \<le> length (fr_data r)"
proof (rule that)
  let ?k = "min (min n (length (fr_data r) - fr_pos r)) 4"
  have "\<not> length (fr_data r) \<le> fr_pos r"
    using assms(2) by simp
  then show "flaky_read r n = (r\<lparr>fr_pos := fr_pos r + ?k\<rparr>, Ok (window (fr_pos r) ?k (fr_data r)))"
    unfolding flaky_read_def Let_def using assms(1) by (simp only: not_True_eq_False if_False)
  show "0 < ?k" and "?k \<le> n" and "fr_pos r + ?k \<le> length (fr_data r)"
    using assms by linarith+
qed

lemma flaky_loop:
  assumes "fr_interrupted_once r" and "fr_pos r \<le> length (fr_data r)" and "filled \<le> length buf"
    and "length buf < 2 ^ 64"
  shows "\<exists>r'. read_full_loop (flaky_ops sk) buf filled r =
    Some (r', copy_at filled (window (fr_pos r) (length buf - filled) (fr_data r)) buf,
      if length buf - filled \<le> length (fr_data r) - fr_pos r
      then Ok () else Err (Message ''backing read failed''))"
  using assms
proof (induction "length buf - filled" arbitrary: filled buf r rule: less_induct)
  case less
  let ?d = "fr_data r" and ?p = "fr_pos r" and ?n = "length buf - filled"
  consider "?n = 0" | "0 < ?n" "length ?d \<le> ?p" | "0 < ?n" "?p < length ?d"
    by linarith
  then show ?case
  proof cases
    case 1
    then show ?thesis
      by (subst read_full_loop_simps) simp
  next
    case 2
    then show ?thesis
      using less.prems by (subst read_full_loop_simps) (auto simp: flaky_ops_def flaky_read_def)
  next
    case 3
    then obtain k where "flaky_read r ?n = (r\<lparr>fr_pos := ?p + k\<rparr>, Ok (window ?p k ?d))"
      and k: "0 < k" "filled + k \<le> length buf" "?p + k \<le> length ?d"
      using flaky_step [OF less.prems(1), of ?n] by (metis le_diff_conv2 add.commute less.prems(3))
    then have rd: "rd_read (flaky_ops sk) r ?n = (r\<lparr>fr_pos := ?p + k\<rparr>, Ok (window ?p k ?d))"
      by (simp add: flaky_ops_def)
    note step = read_full_step [OF rd k less.prems(4)]
    have "?n - k \<le> length ?d - (?p + k) \<longleftrightarrow> ?n \<le> length ?d - ?p"
      using k by linarith
    with less.hyps [of "copy_at filled (window ?p k ?d) buf" "filled + k" "r\<lparr>fr_pos := ?p + k\<rparr>"] k less.prems
    show ?thesis
      unfolding step(1) by (simp add: step(2,3) diff_diff_left)
  qed
qed

section \<open>Properties of the fixtures\<close>

text \<open>
  Locating the metadata inverts the layout of the plaintext region: for every block size, block
  count and block number in range, whatever physical-volume index stands in the top bits, the first
  block gives the size of the region and the region gives the offset, count and length of the
  encrypted metadata.
\<close>

theorem locate_build_region:
  assumes "512 \<le> block_size" and "4 * block_size < 2 ^ 32"
    and "0 < unat cnt" and "unat cnt \<le> 2 ^ 20"
    and "unat primary < 2 ^ 48" and "unat primary * block_size < 2 ^ 64"
  shows "\<exists>region. build_region block_size cnt primary = Ok region \<and>
    plaintext_metadata_size (fixture_header (of_nat block_size) mbn) (take block_size region) =
      Ok (of_nat (4 * block_size)) \<and>
    locate_encrypted_metadata (fixture_header (of_nat block_size) mbn) region =
      Ok \<lparr>em_primary_offset = primary * of_nat block_size, em_block_count = cnt,
          em_length = cnt * of_nat block_size\<rparr>"
  using region_of_read [OF assms, of mbn] build_region_eq(1) [of block_size cnt primary] assms(1,2) by auto

theorem locate_build_region_witness:
  "\<exists>region. build_region 4096 6144 2049 = Ok region \<and>
    locate_encrypted_metadata (fixture_header 4096 1) region =
      Ok \<lparr>em_primary_offset = 2049 * 4096, em_block_count = 6144, em_length = 6144 * 4096\<rparr>"
  using locate_build_region [of 4096 6144 2049 1] by auto

text \<open>
  Reading inverts the encryption of a volume: over any conforming reader of a backing image that
  was built from a plaintext of whole sectors at any base, \<open>read_at\<close> returns the requested window of
  that plaintext, aligned or not, cut at its end, and nothing past it.
\<close>

theorem read_at_build_backing:
  assumes "xts_documented P" and "encrypt_documented P E" and "keys_ok keys"
    and "length plain mod 512 = 0" and "unat base + length plain + 1024 \<le> 2 ^ 63"
    and "image_reader ops ok img pos patience" and "ok r"
    and "build_backing E base plain keys = Ok (img r)" and "n < 2 ^ 64"
  shows "\<exists>dv'. DecryptedVolume_read_at P ops off n
      (DecryptedVolume_new r keys base (of_nat (length plain))) = Some (dv', Ok (window (unat off) n plain))"
proof -
  let ?dv = "DecryptedVolume_new r keys base (of_nat (length plain))"
  have len: "unat (of_nat (length plain) :: u64) = length plain"
    using assms(5) by (intro unat_of_nat_fit) simp
  have "plaintext P keys (unat base) (length plain) (img r) = plain"
    using build_backing_plaintext [OF assms(1-3) _ assms(4), of base] assms(5,8) by force
  moreover have "volume_ok P ok ?dv"
    using assms(1,3,5,7) len by (simp add: volume_ok_def extent_ok_def DecryptedVolume_new_def)
  ultimately show ?thesis
    using image_reader.read_at_plaintext [OF assms(6) _ assms(9), of P ?dv off] len
    by (auto simp: volume_bytes_def DecryptedVolume_new_def)
qed

theorem read_at_build_backing_witness:
  "\<exists>img dv'. build_backing codec_encoders 4096 (replicate 512 5 @ replicate 512 6) fixture_keys = Ok img \<and>
    DecryptedVolume_read_at codec_prims cursor_ops 510 4
      (DecryptedVolume_new (cursor_new img) fixture_keys 4096 1024) = Some (dv', Ok [5, 5, 6, 6])"
proof -
  let ?p = "replicate 512 5 @ replicate 512 6 :: bytes"
  have k: "keys_ok fixture_keys"
    by (simp add: keys_ok_def fixture_keys_def)
  obtain img where img: "build_backing codec_encoders 4096 ?p fixture_keys = Ok img" "length img = 5120"
    using build_backing_plaintext [OF codec_documented(1) codec_encoders_documented(1) k, of 4096 ?p] by auto
  have "cursor_ok (cursor_new img)" and "cur_data (cursor_new img) = img"
    using img(2) by (simp_all add: cursor_ok_def cursor_new_def)
  moreover have "window 510 4 ?p = [5, 5, 6, 6]"
    by (simp add: numeral_2_eq_2)
  ultimately show ?thesis
    using read_at_build_backing [OF codec_documented(1) codec_encoders_documented(1) k _ _ cur.image_reader_axioms,
        of ?p 4096 "cursor_new img" 4 510] img(1) by auto
qed

text \<open>
  Filling a buffer is loud and complete: over the reader that is interrupted once, hands out at
  most four bytes at a time and fails at its end, the loop retries the interruption and copies as
  many of the reader's bytes as fit to the front of the buffer; it succeeds if that fills the buffer,
  and otherwise reports the reader's own error and leaves the bytes read so far in the buffer. Over a
  reader at its end it stops without an error and leaves the buffer as it was.
\<close>

theorem read_full_retries_and_propagates:
  assumes "length buf < 2 ^ 64"
  shows "(\<exists>r'. read_full_loop (flaky_ops sk) buf 0 \<lparr>fr_data = bs, fr_pos = 0, fr_interrupted_once = False\<rparr> =
      Some (r', take (length buf) bs @ drop (length bs) buf,
        if length buf \<le> length bs then Ok () else Err (Message ''backing read failed''))) \<and>
   read_full_loop (eof_ops sk') buf 0 () = Some ((), buf, Ok ())"
proof (rule conjI)
  let ?r = "\<lparr>fr_data = bs, fr_pos = 0, fr_interrupted_once = True\<rparr>"
  have "read_full_loop (flaky_ops sk) buf 0 \<lparr>fr_data = bs, fr_pos = 0, fr_interrupted_once = False\<rparr> =
      read_full_loop (flaky_ops sk) buf 0 ?r" if "buf \<noteq> []"
    using that by (subst read_full_loop_simps) (simp add: flaky_ops_def flaky_read_def)
  moreover have "\<exists>r'. read_full_loop (flaky_ops sk) buf 0 ?r =
      Some (r', take (length buf) bs @ drop (length bs) buf,
        if length buf \<le> length bs then Ok () else Err (Message ''backing read failed''))"
    using flaky_loop [of ?r 0 buf sk] assms by (auto simp: copy_at_def min_def)
  ultimately show "\<exists>r'. read_full_loop (flaky_ops sk) buf 0 \<lparr>fr_data = bs, fr_pos = 0, fr_interrupted_once = False\<rparr> =
      Some (r', take (length buf) bs @ drop (length bs) buf,
        if length buf \<le> length bs then Ok () else Err (Message ''backing read failed''))"
    by (cases "buf = []") (simp_all add: read_full_loop_simps)
  show "read_full_loop (eof_ops sk') buf 0 () = Some ((), buf, Ok ())"
    by (subst read_full_loop_simps) (simp add: eof_ops_def)
qed

end
