(* ===== verification/Unit_Tests.thy ===== *)
theory Unit_Tests
  imports Fixtures
begin

text \<open>
  The unit tests of the parsers (\<open>core/src/read.rs\<close>, \<open>volume_header.rs\<close>, \<open>metadata.rs\<close>), as
  computations that panic when an assertion fails. That they do not is shown in the kernel, for all
  cryptographic functions that behave as documented: the model passes the program's own tests.
\<close>

section \<open>Assertions\<close>

definition assert_that :: "bool \<Rightarrow> unit fv" where
  "assert_that b = (if b then Ok () else Panic)"

text \<open>\<open>assert!(matches!(e, pattern))\<close>, where evaluating \<open>e\<close> may itself panic.\<close>

definition assert_matches :: "('e, 'a) comp \<Rightarrow> (('e, 'a) comp \<Rightarrow> bool) \<Rightarrow> unit fv" where
  "assert_matches c pat = (if c = Panic then Panic else assert_that (pat c))"

fun unwrap :: "('e, 'a) comp \<Rightarrow> 'a fv" where
  "unwrap (Ok x) = Ok x"
| "unwrap _ = Panic"

fun unwrap_err :: "('e, 'a) comp \<Rightarrow> 'e fv" where
  "unwrap_err (Err e) = Ok e"
| "unwrap_err _ = Panic"

fun in_order :: "unit fv list \<Rightarrow> unit fv" where
  "in_order [] = Ok ()"
| "in_order (t # ts) = chain t (\<lambda>_. in_order ts)"

definition assert_reads :: "'a fv \<Rightarrow> 'a \<Rightarrow> unit fv" where
  "assert_reads c v = chain c (\<lambda>x. assert_that (x = v))"

lemma assert_True [simp]: "assert_that True = Ok ()"
  by (simp add: assert_that_def)

lemma assert_matches_simps [simp]:
  "assert_matches (Ok x) pat = assert_that (pat (Ok x))" "assert_matches (Err e) pat = assert_that (pat (Err e))"
  by (simp_all add: assert_matches_def)

lemma assert_reads_Ok [simp]: "assert_reads (Ok v) v = Ok ()"
  by (simp add: assert_reads_def)

fun missing :: "(FileVaultError, 'a) comp \<Rightarrow> bool" where
  "missing (Err (MetadataStructureMissing _)) = True"
| "missing _ = False"

fun out_of_range :: "(FileVaultError, 'a) comp \<Rightarrow> bool" where
  "out_of_range (Err (OutOfRange _)) = True"
| "out_of_range _ = False"

fun not_corestorage :: "(FileVaultError, 'a) comp \<Rightarrow> bool" where
  "not_corestorage (Err (NotCoreStorage _)) = True"
| "not_corestorage _ = False"

section \<open>Readers\<close>

definition test_le_readers_decode_in_range :: "unit fv" where
  "test_le_readers_decode_in_range =
    (let d = [0x01, 0x02, 0x03, 0x04, 0x05, 0x06, 0x07, 0x08] in
     in_order [
       assert_reads (le_u16 d 0) 0x0201,
       assert_reads (le_u32 d 0) 0x04030201,
       assert_reads (le_u64 d 0) 0x0807060504030201,
       assert_reads (le_u48 d 0) 0x060504030201])"

definition test_le_readers_return_zero_out_of_range :: "unit fv" where
  "test_le_readers_return_zero_out_of_range =
    (let d = replicate 3 0xff in
     in_order [
       assert_reads (le_u16 d 2) 0,
       assert_reads (le_u32 d 0) 0,
       assert_reads (le_u64 d 0) 0,
       assert_reads (le_u48 d 0) 0,
       assert_reads (le_u16 [] 0) 0])"

definition test_bytes16_copies_or_zero_fills :: "unit fv" where
  "test_bytes16_copies_or_zero_fills =
    (let d = map of_nat [0..<20] in
     in_order [
       chain (bytes16 d 0) (\<lambda>b. assert_that (b ! 15 = 15)),
       chain (bytes16 d 4) (\<lambda>b. assert_that (b ! 0 = 4)),
       assert_reads (bytes16 d 10) (replicate 16 0),
       assert_reads (bytes16 [] 0) (replicate 16 0)])"

section \<open>Headers\<close>

definition test_parses_ground_truth_fields :: "unit fv" where
  "test_parses_ground_truth_fields =
    chain ground_truth_header (\<lambda>h.
    chain (unwrap (parse h)) (\<lambda>header.
    in_order [
      assert_that (vh_block_size header = 4096),
      assert_that (vh_bytes_per_sector header = 512),
      assert_that (vh_physical_volume_size header = 536829952),
      assert_that (vh_metadata_block_numbers header = [1, 1025, 129013, 130037]),
      assert_reads (header_hex (str ''18eaeb7da9ab0852ead69e9dabc86f59'')) (vh_key_data header),
      assert_reads (header_hex (str ''3273a0553b8b47e8b970df35eecda81b'')) (vh_physical_volume_identifier header)]))"

definition test_rejects_non_corestorage :: "unit fv" where
  "test_rejects_non_corestorage =
    chain ground_truth_header (\<lambda>h.
    chain (write_at 88 (str ''X'') h) (\<lambda>h.
    chain (unwrap_err (parse h)) (\<lambda>err.
      assert_that (case err of NotCoreStorage found \<Rightarrow> found AND 0x00ff = of_char (CHR ''X'') | _ \<Rightarrow> False))))"

definition test_rejects_unsupported_encryption_method :: "unit fv" where
  "test_rejects_unsupported_encryption_method =
    chain ground_truth_header (\<lambda>h.
    chain (write_at 172 (to_le_bytes 4 (7 :: u32)) h) (\<lambda>h.
    chain (unwrap_err (parse h)) (\<lambda>err.
      assert_that (err = UnsupportedEncryptionMethod 7))))"

definition test_short_input_is_not_corestorage :: "unit fv" where
  "test_short_input_is_not_corestorage = assert_matches (parse (replicate 10 0)) not_corestorage"

lemma reader_tests_pass:
  "test_le_readers_decode_in_range = Ok ()"
  "test_le_readers_return_zero_out_of_range = Ok ()"
  "test_bytes16_copies_or_zero_fills = Ok ()"
  by (simp_all add: test_le_readers_decode_in_range_def test_le_readers_return_zero_out_of_range_def
      test_bytes16_copies_or_zero_fills_def le_u16_def le_u32_def le_u64_def le_u48_def bytes16_def
      usize_add_def slice_get_def drop_map take_map)

text \<open>Changing fields of the ground-truth header.\<close>

lemma low_byte: "from_le_bytes (b # bs) AND 0x00ff = (ucast b :: u16)"
proof -
  have ff: "(0x00ff :: u16) = mask 8"
    by (simp add: mask_eq_exp_minus_1)
  show ?thesis
    unfolding ff by (rule bit_eqI) (auto simp: bit_and_iff bit_or_iff bit_push_bit_iff bit_mask_iff bit_ucast_iff dest: bit_imp_le_length)
qed

lemma header_tests_pass:
  "test_parses_ground_truth_fields = Ok ()"
  "test_rejects_non_corestorage = Ok ()"
  "test_rejects_unsupported_encryption_method = Ok ()"
  "test_short_input_is_not_corestorage = Ok ()"
proof -
  obtain h where h: "ground_truth_header = Ok h" "length h = 512"
    and p: "parse h = Ok \<lparr>vh_block_size = 4096, vh_bytes_per_sector = 512, vh_physical_volume_size = 536829952,
      vh_metadata_block_numbers = [1, 1025, 129013, 130037],
      vh_key_data = [0x18, 0xea, 0xeb, 0x7d, 0xa9, 0xab, 0x08, 0x52, 0xea, 0xd6, 0x9e, 0x9d, 0xab, 0xc8, 0x6f, 0x59],
      vh_physical_volume_identifier =
        [0x32, 0x73, 0xa0, 0x55, 0x3b, 0x8b, 0x47, 0xe8, 0xb9, 0x70, 0xdf, 0x35, 0xee, 0xcd, 0xa8, 0x1b]\<rparr>"
    using parse_ground_truth_header by blast
  show "test_parses_ground_truth_fields = Ok ()"
    by (simp add: test_parses_ground_truth_fields_def h p ground_truth_keys del: str_Cons)
  have "signature_of h = CS_SIGNATURE_LE"
    using p by (auto simp: parse_eq split: if_splits)
  then show "test_rejects_unsupported_encryption_method = Ok ()"
    by (simp add: test_rejects_unsupported_encryption_method_def h parse_eq field_copied from_le_to_le const_defs)
  show "test_short_input_is_not_corestorage = Ok ()"
    by (simp add: test_short_input_is_not_corestorage_def parse_eq field_at_def const_defs)
  let ?h = "copy_at 88 (str ''X'') h"
  have "window 88 2 ?h = 0x58 # window 89 1 h"
    using h(2) by (simp add: copy_at_def str_def)
  then have sig: "signature_of ?h AND 0x00ff = 0x58"
    using h(2) by (simp add: field_at_def low_byte del: from_le_bytes.simps)
  then have "signature_of ?h \<noteq> CS_SIGNATURE_LE"
    by (auto simp: CS_SIGNATURE_LE_def)
  then show "test_rejects_non_corestorage = Ok ()"
    using sig by (simp add: test_rejects_non_corestorage_def h parse_eq del: str_Cons)
qed

section \<open>Metadata\<close>

definition test_locates_encrypted_metadata_masking_volume_index :: "unit fv" where
  "test_locates_encrypted_metadata_masking_volume_index =
    (let h = fixture_header 4096 1 in
     chain (build_region 4096 6144 2049) (\<lambda>region.
     chain (unwrap (locate_encrypted_metadata h region)) (\<lambda>loc.
     in_order [
       assert_that (em_block_count loc = 6144),
       assert_that (em_primary_offset loc = 2049 * 4096),
       assert_that (em_length loc = 6144 * 4096)])))"

definition test_rejects_wrong_first_block_type :: "unit fv" where
  "test_rejects_wrong_first_block_type =
    (let h = fixture_header 4096 1 in
     chain (build_region 4096 6144 2049) (\<lambda>region.
     chain (write_at 10 (to_le_bytes 2 (0x0010 :: u16)) region) (\<lambda>region.
       assert_matches (locate_encrypted_metadata h region) missing)))"

definition test_rejects_absurd_block_count :: "unit fv" where
  "test_rejects_absurd_block_count =
    (let h = fixture_header 4096 1 in
     chain (build_region 4096 (ucast (- 1 :: u32)) 2049) (\<lambda>region.
       assert_matches (locate_encrypted_metadata h region) out_of_range))"

definition test_descriptor_offset_out_of_region_is_missing :: "unit fv" where
  "test_descriptor_offset_out_of_region_is_missing =
    (let h = fixture_header 4096 1 in
     chain (build_region 4096 6144 2049) (\<lambda>region.
     let payload = BLOCK_HEADER_SIZE in
     chain (word_add (of_nat (length region)) (100 :: u32)) (\<lambda>beyond.
     chain (write_at (payload + PAYLOAD_VG_DESCRIPTOR_OFFSET) (to_le_bytes 4 beyond) region) (\<lambda>region.
       assert_matches (locate_encrypted_metadata h region) missing))))"

definition test_plaintext_size_reads_from_pointer_block :: "unit fv" where
  "test_plaintext_size_reads_from_pointer_block =
    (let h = fixture_header 4096 1 in
     chain (build_region 4096 6144 2049) (\<lambda>region.
     chain (or_panic (slice_get region 0 4096)) (\<lambda>first_block.
     chain (unwrap (plaintext_metadata_size h first_block)) (\<lambda>size.
       assert_that (size = 4096 * 4)))))"

definition test_plaintext_size_rejects_non_pointer_block :: "unit fv" where
  "test_plaintext_size_rejects_non_pointer_block =
    (let h = fixture_header 4096 1; block = replicate 4096 0 in
     assert_matches (plaintext_metadata_size h block) missing)"

definition test_plaintext_region_offset_is_block_scaled :: "unit fv" where
  "test_plaintext_region_offset_is_block_scaled =
    (let h = fixture_header 4096 3 in
     assert_that (plaintext_metadata_region h = (3 * 4096, 0)))"

definition test_parses_single_segment :: "unit fv" where
  "test_parses_single_segment =
    (let block_size = 4096; payload = BLOCK_HEADER_SIZE; entry = payload + SEG_FIRST_ENTRY_PAYLOAD_OFFSET;
         phys = 16384 OR push_bit 48 0x1234 :: u64 in
     chain (write_at 10 (to_le_bytes 2 BLOCK_TYPE_SEGMENT_DESCRIPTOR) (replicate block_size 0)) (\<lambda>meta.
     chain (write_at payload (to_le_bytes 4 (1 :: u32)) meta) (\<lambda>meta.
     chain (write_at (entry + SEG_LOGICAL_BLOCK_OFFSET) (to_le_bytes 8 (0 :: u64)) meta) (\<lambda>meta.
     chain (write_at (entry + SEG_NUM_BLOCKS_OFFSET) (to_le_bytes 4 (40960 :: u32)) meta) (\<lambda>meta.
     chain (write_at (entry + SEG_PHYSICAL_BLOCK_OFFSET) (to_le_bytes 8 phys) meta) (\<lambda>meta.
     chain (parse_segments meta block_size) (\<lambda>segs.
     in_order [
       assert_that (length segs = 1),
       chain (or_panic (if 0 < length segs then Some (segs ! 0) else None)) (\<lambda>seg.
       in_order [
         assert_that (seg_physical_block seg = 16384),
         assert_that (seg_number_of_blocks seg = 40960),
         assert_that (seg_logical_block seg = 0)])])))))))"

definition test_no_segment_block_yields_empty :: "unit fv" where
  "test_no_segment_block_yields_empty =
    (let meta = replicate 4096 0 in chain (parse_segments meta 4096) (\<lambda>segs. assert_that (segs = [])))"

definition test_decrypt_metadata_roundtrips :: "prims \<Rightarrow> encoders \<Rightarrow> unit fv" where
  "test_decrypt_metadata_roundtrips P E =
    (let h = (fixture_header 4096 1)\<lparr>vh_key_data := replicate 16 0x11,
               vh_physical_volume_identifier := replicate 16 0x22\<rparr>;
         plain = map (\<lambda>i. ucast (i AND 0xff)) (map of_nat [0..<8192] :: u32 list) in
     chain (encrypt_units E plain (vh_key_data h) (vh_physical_volume_identifier h) 8192 0) (\<lambda>buf.
     chain (decrypt_metadata P h buf) (\<lambda>buf.
       assert_that (buf = plain))))"

definition test_plaintext_size_rejects_zero_block_size :: "unit fv" where
  "test_plaintext_size_rejects_zero_block_size =
    (let h = fixture_header 0 1 in
     chain (build_region 4096 6144 2049) (\<lambda>region.
     chain (or_panic (slice_get region 0 4096)) (\<lambda>first_block.
       assert_matches (plaintext_metadata_size h first_block)
         (\<lambda>c. c = Err (OutOfRange ''block size is zero'')))))"

definition test_plaintext_size_rejects_absurd_size :: "unit fv" where
  "test_plaintext_size_rejects_absurd_size =
    (let h = fixture_header 512 1 in
     chain (write_at 10 (to_le_bytes 2 BLOCK_TYPE_ENCRYPTED_METADATA_POINTER) (replicate 4096 0)) (\<lambda>block.
     chain (write_at BLOCK_HEADER_SIZE (to_le_bytes 4 (- 1 :: u32)) block) (\<lambda>block.
       assert_matches (plaintext_metadata_size h block)
         (\<lambda>c. c = Err (OutOfRange ''plaintext metadata region size'')))))"

definition test_parse_segments_zero_block_size_is_empty :: "unit fv" where
  "test_parse_segments_zero_block_size_is_empty =
    chain (parse_segments (replicate 4096 0) 0) (\<lambda>segs. assert_that (segs = []))"

definition test_parse_segments_stops_on_lying_count :: "unit fv" where
  "test_parse_segments_stops_on_lying_count =
    (let block_size = 4096; payload = BLOCK_HEADER_SIZE in
     chain (write_at 10 (to_le_bytes 2 BLOCK_TYPE_SEGMENT_DESCRIPTOR) (replicate block_size 0)) (\<lambda>meta.
     chain (write_at payload (to_le_bytes 4 (1000 :: u32)) meta) (\<lambda>meta.
     chain (parse_segments meta block_size) (\<lambda>segs.
       assert_that (length segs < 1000)))))"

text \<open>The metadata region of most tests, and metadata of a single block.\<close>

lemma test_region:
  "build_region 4096 cnt 2049 = Ok (region_of 4096 cnt 2049)" "length (region_of 4096 cnt 2049) = 16384"
  using build_region_eq [of 4096 cnt 2049] by simp_all

lemmas test_region_fields = region_of_fields [of 4096 _ 2049, simplified]

lemma test_count: "field_at 8 from_le_bytes 0 (region_of 4096 cnt 2049) 8200 = (cnt :: u64)"
  using region_of_fields(3,4) [of 4096 cnt 2049] by simp

lemma segments_of_block:
  assumes "length meta = n" and "0 < n"
  shows "segments_of meta n =
    (if type_at meta 0 = BLOCK_TYPE_SEGMENT_DESCRIPTOR
     then map (segment_at meta 0) [0..<min (segment_count meta 0) (segment_capacity n)] else [])"
  using assms by (simp add: segments_of_def first_typed_def block_offsets_def)

lemma u32_max: "unat (- 1 :: u32) = 4294967295" "unat (ucast (- 1 :: u32) :: u64) = 4294967295"
  by (simp_all add: unsigned_minus_1_eq_mask mask_eq_exp_minus_1 unsigned_ucast_eq)

lemma region_tests_pass:
  "test_locates_encrypted_metadata_masking_volume_index = Ok ()"
  "test_rejects_wrong_first_block_type = Ok ()"
  "test_rejects_absurd_block_count = Ok ()"
  "test_descriptor_offset_out_of_region_is_missing = Ok ()"
  subgoal
    using region_of_read(2) [of 4096 6144 2049 1]
    by (simp add: test_locates_encrypted_metadata_masking_volume_index_def test_region)
  subgoal
    by (simp add: test_rejects_wrong_first_block_type_def test_region locate_encrypted_metadata_eq field_copied
        from_le_to_le)
  subgoal
    by (simp add: test_rejects_absurd_block_count_def test_region locate_encrypted_metadata_eq test_region_fields
        test_count u32_max)
  subgoal
    by (simp add: test_descriptor_offset_out_of_region_is_missing_def test_region locate_encrypted_metadata_eq
        test_region_fields word_add_def const_defs field_copied from_le_to_le)
  done

lemma size_tests_pass:
  "test_plaintext_size_reads_from_pointer_block = Ok ()"
  "test_plaintext_size_rejects_non_pointer_block = Ok ()"
  "test_plaintext_region_offset_is_block_scaled = Ok ()"
  "test_plaintext_size_rejects_zero_block_size = Ok ()"
  "test_plaintext_size_rejects_absurd_size = Ok ()"
  subgoal
    by (simp add: test_plaintext_size_reads_from_pointer_block_def test_region slice_get_def field_take
        plaintext_metadata_size_eq test_region_fields fixture_header_def)
  subgoal
    by (simp add: test_plaintext_size_rejects_non_pointer_block_def plaintext_metadata_size_eq field_zeros)
  subgoal
    by (simp add: test_plaintext_region_offset_is_block_scaled_def plaintext_metadata_region_def
        fixture_header_def saturating_mul_def)
  subgoal
    by (simp add: test_plaintext_size_rejects_zero_block_size_def test_region slice_get_def field_take
        plaintext_metadata_size_eq test_region_fields fixture_header_def)
  subgoal
    by (simp add: test_plaintext_size_rejects_absurd_size_def plaintext_metadata_size_eq field_copied from_le_to_le
        const_defs fixture_header_def u32_max)
  done

lemma segment_tests_pass:
  "test_parses_single_segment = Ok ()"
  "test_no_segment_block_yields_empty = Ok ()"
  "test_parse_segments_zero_block_size_is_empty = Ok ()"
  "test_parse_segments_stops_on_lying_count = Ok ()"
  subgoal
    by (simp add: test_parses_single_segment_def parse_segments_eq segments_of_block type_at_def const_defs
        field_copied from_le_to_le segment_count_def segment_capacity_def segment_at_def)
  subgoal
    by (simp add: test_no_segment_block_yields_empty_def parse_segments_eq segments_of_block type_at_def field_zeros
        const_defs)
  subgoal
    by (simp add: test_parse_segments_zero_block_size_is_empty_def parse_segments_eq segments_of_def first_typed_def
        block_offsets_def)
  subgoal
    by (simp add: test_parse_segments_stops_on_lying_count_def parse_segments_eq segments_of_block
        segment_capacity_def const_defs assert_that_def min_less_iff_disj)
  done

lemma metadata_crypto_test_passes:
  assumes "xts_documented P" and "encrypt_documented P E"
  shows "test_decrypt_metadata_roundtrips P E = Ok ()"
proof -
  define plain where "plain = map (\<lambda>i. ucast (i AND 0xff) :: u8) (map of_nat [0..<8192] :: u32 list)"
  have "length plain = 8192"
    by (simp add: plain_def)
  moreover have "xts_keyed P (replicate 16 0x11) (replicate 16 0x22) 8192"
    using assms(1) by (simp add: xts_keyed_def)
  ultimately obtain c where "xts_encrypt_area E (replicate 16 0x11) (replicate 16 0x22) 8192 0 plain = Some c"
      "xts_decrypt_area P (replicate 16 0x11) (replicate 16 0x22) 8192 0 c = Some plain"
    using encrypt_area_inverse [OF assms(2), of "replicate 16 0x11" "replicate 16 0x22" 8192 0 plain] by auto
  then show ?thesis
    unfolding test_decrypt_metadata_roundtrips_def Let_def plain_def [symmetric]
    by (simp add: encrypt_units_def decrypt_metadata_def decrypt_units_def const_defs)
qed

end
