(* ===== verification/Fixtures_Context.thy ===== *)
theory Fixtures_Context
  imports Fixtures
begin

text \<open>
  The encryption context that the tests of \<open>core/src/context.rs\<close> build: a property list with two
  crypto users, two wrapped volume keys under different algorithms, and a conversion status.
\<close>

section \<open>Definitions\<close>

definition passphrase_struct :: "bytes fv" where
  "passphrase_struct =
    chain (hex (str ''9bfcf480e4d9ad0eddd9ac6f47b85955'')) (\<lambda>salt.
    chain (write_at PW_SALT_OFFSET salt (replicate 284 0)) (\<lambda>s.
    chain (hex (str ''ebbc1f64b9684eb4b26bfba3f85578677bab8cfafaf7b2c1'')) (\<lambda>kek.
    chain (write_at PW_WRAPPED_KEK_OFFSET kek s) (\<lambda>s.
      write_at PW_ITERATIONS_OFFSET (to_le_bytes 4 (90506 :: u32)) s))))"

text \<open>A slice of another length than 24 bytes makes \<open>copy_from_slice\<close> panic.\<close>

definition kek_wrapped_struct :: "bytes \<Rightarrow> bytes fv" where
  "kek_wrapped_struct wrapped_vmk_hex =
    chain (hex wrapped_vmk_hex) (\<lambda>w.
      if length w = 24 then write_at KEK_WRAPPED_VMK_OFFSET w (replicate 256 0) else Panic)"

definition b64 :: "encoders \<Rightarrow> bytes \<Rightarrow> bytes" where
  "b64 E bs = base64_encode E bs"

definition context_text :: "bytes \<Rightarrow> bytes \<Rightarrow> bytes \<Rightarrow> bytes" where
  "context_text pw none_kek xts_kek =
    str (''<dict ID=\"0\"><key>CryptoUsers</key><array ID=\"2\">'' @
         ''<dict ID=\"3\">'' @
         ''<key>PassphraseWrappedKEKStruct</key><data ID=\"4\">'') @ pw @
    str (''</data>'' @
         ''<key>UserType</key><integer size=\"32\" ID=\"6\">0x10000001</integer>'' @
         ''<key>BlockAlgorithm</key><string ID=\"7\">None</string>'' @
         ''<key>KEKWrappedVolumeKeyStruct</key><data ID=\"8\">'') @ none_kek @
    str (''</data>'' @
         ''<key>BlockAlgorithm</key><string ID=\"9\">AES-XTS</string>'' @
         ''<key>KEKWrappedVolumeKeyStruct</key><data ID=\"10\">'') @ xts_kek @
    str (''</data>'' @
         ''</dict>'' @
         ''<dict ID=\"11\">'' @
         ''<key>UserType</key><integer size=\"32\" ID=\"12\">0x10000009</integer>'' @
         ''</dict>'' @
         ''</array>'' @
         ''<key>ConversionStatus</key><string ID=\"20\">Complete</string></dict>'')"

definition build_context_plist :: "encoders \<Rightarrow> bytes fv" where
  "build_context_plist E =
    chain passphrase_struct (\<lambda>pw.
    chain (kek_wrapped_struct (str ''000000000000000000000000000000000000000000000000'')) (\<lambda>none_kek.
    chain (kek_wrapped_struct (str ''9a5b30e99f902ed8e2f03989e5f9c1543ed60512aa1dc9d1'')) (\<lambda>xts_kek.
      Ok (context_text (b64 E pw) (b64 E none_kek) (b64 E xts_kek)))))"

section \<open>The structs\<close>

definition truth_salt :: bytes where
  "truth_salt = [0x9b, 0xfc, 0xf4, 0x80, 0xe4, 0xd9, 0xad, 0x0e, 0xdd, 0xd9, 0xac, 0x6f, 0x47, 0xb8, 0x59, 0x55]"

definition truth_wrapped_kek :: bytes where
  "truth_wrapped_kek =
    [0xeb, 0xbc, 0x1f, 0x64, 0xb9, 0x68, 0x4e, 0xb4, 0xb2, 0x6b, 0xfb, 0xa3,
     0xf8, 0x55, 0x78, 0x67, 0x7b, 0xab, 0x8c, 0xfa, 0xfa, 0xf7, 0xb2, 0xc1]"

definition truth_wrapped_vmk :: bytes where
  "truth_wrapped_vmk =
    [0x9a, 0x5b, 0x30, 0xe9, 0x9f, 0x90, 0x2e, 0xd8, 0xe2, 0xf0, 0x39, 0x89,
     0xe5, 0xf9, 0xc1, 0x54, 0x3e, 0xd6, 0x05, 0x12, 0xaa, 0x1d, 0xc9, 0xd1]"

lemma truth_lengths [simp]:
  "length truth_salt = 16" "length truth_wrapped_kek = 24" "length truth_wrapped_vmk = 24"
  by (simp_all add: truth_salt_def truth_wrapped_kek_def truth_wrapped_vmk_def)

lemma hex_literal: "hex_text bs = s \<Longrightarrow> hex s = Ok bs"
  using hex_printed [of bs] by simp

lemma hex_text_zeros: "hex_text (replicate n 0) = replicate (2 * n) 0x30"
  by (induction n) (simp_all add: digit_byte)

lemma truth_hex:
  "hex (str ''9bfcf480e4d9ad0eddd9ac6f47b85955'') = Ok truth_salt"
  "hex (str ''ebbc1f64b9684eb4b26bfba3f85578677bab8cfafaf7b2c1'') = Ok truth_wrapped_kek"
  "hex (str ''9a5b30e99f902ed8e2f03989e5f9c1543ed60512aa1dc9d1'') = Ok truth_wrapped_vmk"
  "hex (str ''000000000000000000000000000000000000000000000000'') = Ok (replicate 24 0)"
proof -
  show "hex (str ''9bfcf480e4d9ad0eddd9ac6f47b85955'') = Ok truth_salt"
    "hex (str ''ebbc1f64b9684eb4b26bfba3f85578677bab8cfafaf7b2c1'') = Ok truth_wrapped_kek"
    "hex (str ''9a5b30e99f902ed8e2f03989e5f9c1543ed60512aa1dc9d1'') = Ok truth_wrapped_vmk"
    by (rule hex_literal;
        simp add: truth_salt_def truth_wrapped_kek_def truth_wrapped_vmk_def digit_byte)+
  show "hex (str ''000000000000000000000000000000000000000000000000'') = Ok (replicate 24 0)"
    by (rule hex_literal, unfold hex_text_zeros) (simp add: numeral_eq_Suc)
qed

definition passphrase_bytes :: bytes where
  "passphrase_bytes =
    replicate 8 0 @ truth_salt @ replicate 8 0 @ truth_wrapped_kek @ replicate 112 0 @
    to_le_bytes 4 (90506 :: u32) @ replicate 112 0"

lemma passphrase_struct_eq: "passphrase_struct = Ok passphrase_bytes"
  by (simp add: passphrase_struct_def truth_hex passphrase_bytes_def copy_at_def const_defs del: str_Cons)

lemma kek_wrapped_struct_eq:
  assumes "hex s = Ok w" and "length w = 24"
  shows "kek_wrapped_struct s = Ok (replicate 8 0 @ w @ replicate 224 0)"
  using assms by (simp add: kek_wrapped_struct_def copy_at_def const_defs)

section \<open>The text as segments\<close>

definition fixture_segs :: "bytes \<Rightarrow> bytes \<Rightarrow> bytes \<Rightarrow> bytes list" where
  "fixture_segs pw none_kek xts_kek =
    [str ''dict ID=\"0\">'', str ''key>CryptoUsers'', str ''/key>'', str ''array ID=\"2\">'', str ''dict ID=\"3\">''] @
    pair_segs ''PassphraseWrappedKEKStruct'' ''data ID='' ''\"4\"'' pw ''/data>'' @
    pair_segs ''UserType'' ''integer'' '' size=\"32\" ID=\"6\"'' (str ''0x10000001'') ''/integer>'' @
    pair_segs ''BlockAlgorithm'' ''string ID='' ''\"7\"'' (str ''None'') ''/string>'' @
    pair_segs ''KEKWrappedVolumeKeyStruct'' ''data ID='' ''\"8\"'' none_kek ''/data>'' @
    pair_segs ''BlockAlgorithm'' ''string ID='' ''\"9\"'' (str ''AES-XTS'') ''/string>'' @
    pair_segs ''KEKWrappedVolumeKeyStruct'' ''data ID='' ''\"10\"'' xts_kek ''/data>'' @
    [str ''/dict>'', str ''dict ID=\"11\">''] @
    pair_segs ''UserType'' ''integer'' '' size=\"32\" ID=\"12\"'' (str ''0x10000009'') ''/integer>'' @
    [str ''/dict>'', str ''/array>''] @
    pair_segs ''ConversionStatus'' ''string ID='' ''\"20\"'' (str ''Complete'') ''/string>'' @
    [str ''/dict>'']"

lemma context_text_segs: "context_text pw n x = [] @ segs (fixture_segs pw n x)"
  by (simp add: context_text_def fixture_segs_def pair_segs_def)

lemma length_context_text: "length (context_text pw n x) = length pw + length n + length x + 575"
  by (simp add: context_text_def)

section \<open>Extraction\<close>

definition blob_texts :: "bytes list \<Rightarrow> bool" where
  "blob_texts bs \<longleftrightarrow> list_all (\<lambda>b. list_all base64_byte b \<and> length b \<le> 1000) bs"

lemma blob_texts_clear:
  assumes "blob_texts [pw, n, x]"
  shows "lt \<notin> set pw" "lt \<notin> set n" "lt \<notin> set x" "length (context_text pw n x) < 2 ^ 63"
    "list_all (\<lambda>b. \<not> is_ascii_whitespace b) pw" "list_all (\<lambda>b. \<not> is_ascii_whitespace b) x"
    "length pw \<le> 4096" "length x \<le> 4096"
  using assms base64_clear by (auto simp: blob_texts_def length_context_text)

lemma fixture_integers:
  "parse_integer_text (str ''0x10000001'') = Some (0x10000001 :: u32)"
  "parse_integer_text (str ''0x10000009'') = Some (0x10000009 :: u32)"
proof -
  have "integer_text True (0x10000001 :: u32) = str ''0x10000001''"
    "integer_text True (0x10000009 :: u32) = str ''0x10000009''"
    by (simp_all add: integer_text_def show_radix.simps digit_byte)
  then show "parse_integer_text (str ''0x10000001'') = Some (0x10000001 :: u32)"
    "parse_integer_text (str ''0x10000009'') = Some (0x10000009 :: u32)"
    by (metis parse_integer_text_printed)+
qed

lemma fixture_passphrase:
  assumes "blob_texts [pw, n, x]"
  shows "extract_data P (context_text pw n x) (str ''PassphraseWrappedKEKStruct'') = base64_decode P pw"
  by (rule extract_data_segs [where a = "[]" and L = "fixture_segs pw n x" and rest = "[]" and n = 5 and attrs = "''\"4\"''"])
    (use blob_texts_clear [OF assms] in \<open>simp_all add: context_text_segs fixture_segs_def\<close>)

lemma fixture_status:
  assumes "blob_texts [pw, n, x]"
  shows "extract_string (context_text pw n x) (str ''ConversionStatus'') = Some (str ''Complete'')"
proof -
  have "utf8_valid (str ''Complete'')"
    by (rule utf8_valid_str) auto
  then show ?thesis
    using extract_string_segs [where md = "context_text pw n x" and a = "[]" and L = "fixture_segs pw n x" and rest = "[]"
        and n = 37 and k = "''ConversionStatus''" and attrs = "''\"20\"''" and v = "str ''Complete''"] blob_texts_clear [OF assms]
    by (simp add: context_text_segs fixture_segs_def del: str_Cons) (simp add: pair_segs_def)
qed

lemma fixture_scans:
  assumes "blob_texts [pw, n, x]"
  defines "md \<equiv> context_text pw n x" and "L \<equiv> fixture_segs pw n x"
  shows "algorithms md 0 = Some (str ''None'', length (segs (take 17 L)))"
    and "algorithms md (length (segs (take 17 L))) = Some (str ''AES-XTS'', length (segs (take 25 L)))"
    and "extract_data P (drop (length (segs (take 25 L))) md) (str ''KEKWrappedVolumeKeyStruct'') = base64_decode P x"
proof -
  note clear = blob_texts_clear [OF assms(1)]
  have md: "md = [] @ segs L @ []"
    by (simp add: md_def L_def context_text_segs)
  have len: "length md < 2 ^ 63"
    using clear(4) by (simp add: md_def)
  have "algorithms md (length ([] @ segs (take 0 L))) = Some (str ''None'', length ([] @ segs (take (0 + 13 + 4) L)))"
    by (rule scan_segs_at [OF md len, where attrs = "''\"7\"''"])
      (simp_all add: L_def fixture_segs_def clear, simp_all add: pair_segs_def clear)
  then show "algorithms md 0 = Some (str ''None'', length (segs (take 17 L)))"
    by (simp del: str_Cons)
  have "algorithms md (length ([] @ segs (take 17 L))) = Some (str ''AES-XTS'', length ([] @ segs (take (17 + 4 + 4) L)))"
    by (rule scan_segs_at [OF md len, where attrs = "''\"9\"''"])
      (simp_all add: L_def fixture_segs_def clear, simp_all add: pair_segs_def clear)
  then show "algorithms md (length (segs (take 17 L))) = Some (str ''AES-XTS'', length (segs (take 25 L)))"
    by (simp del: str_Cons)
  have tail: "drop (length (segs (take 25 L))) md = [] @ segs (drop 25 L) @ []"
    using segs_append [of "take 25 L" "drop 25 L"] by (simp add: md)
  show "extract_data P (drop (length (segs (take 25 L))) md) (str ''KEKWrappedVolumeKeyStruct'') = base64_decode P x"
    by (rule extract_data_segs [OF tail, where n = 0 and attrs = "''\"10\"''"])
      (use len in \<open>simp_all add: L_def fixture_segs_def clear\<close>)
qed

lemma fixture_volume_key:
  assumes "blob_texts [pw, n, x]" and "base64_decode P x = Some blob"
  shows "extract_kek_wrapped_aes_xts P (context_text pw n x) = Some blob"
  unfolding extract_kek_wrapped_aes_xts_def kek_loop_run
proof (intro exI [of _ "[str ''None'']"] exI [of _ "length (segs (take 25 (fixture_segs pw n x)))"] conjI)
  show "scan_run (algorithms (context_text pw n x)) 0 ([str ''None''] @ [str ''AES-XTS''])
      (length (segs (take 25 (fixture_segs pw n x))))"
    using fixture_scans(1,2) [OF assms(1)] by (simp add: scan_run_Cons del: str_Cons)
qed (use fixture_scans(3) [OF assms(1), of P] assms(2) in \<open>simp_all del: str_Cons\<close>)

lemma fixture_protectors:
  assumes "blob_texts [pw, n, x]"
  shows "extract_protectors (context_text pw n x) = [protector_of 0x10000001, protector_of 0x10000009]"
proof -
  define md L where "md = context_text pw n x" and "L = fixture_segs pw n x"
  note clear = blob_texts_clear [OF assms(1)]
  have md: "md = [] @ segs L @ []" and md': "md = [] @ segs L"
    by (simp_all add: md_def L_def context_text_segs)
  have len: "length md < 2 ^ 63"
    using clear(4) by (simp add: md_def)
  have "extract_tagged_from md (str ''UserType'') (str ''<integer'') (str ''</integer>'') (length ([] @ segs (take 0 L))) =
      Some (str ''0x10000001'', length ([] @ segs (take (0 + 9 + 4) L)))"
    by (rule scan_segs_at [OF md len, where attrs = "'' size=\"32\" ID=\"6\"''"])
      (simp_all add: L_def fixture_segs_def clear, simp_all add: pair_segs_def clear)
  then have one: "user_types md 0 = Some (0x10000001, length (segs (take 13 L)))"
    by (simp add: extract_integer_from_def fixture_integers del: str_Cons)
  have "extract_tagged_from md (str ''UserType'') (str ''<integer'') (str ''</integer>'') (length ([] @ segs (take 13 L))) =
      Some (str ''0x10000009'', length ([] @ segs (take (13 + 18 + 4) L)))"
    by (rule scan_segs_at [OF md len, where attrs = "'' size=\"32\" ID=\"12\"''"])
      (simp_all add: L_def fixture_segs_def clear, simp_all add: pair_segs_def clear)
  then have two: "user_types md (length (segs (take 13 L))) = Some (0x10000009, length (segs (take 35 L)))"
    by (simp add: extract_integer_from_def fixture_integers del: str_Cons)
  have "free_of (str ''UserType'') (drop 35 L)"
    by (simp add: L_def fixture_segs_def, simp add: pair_segs_def)
  from no_key_at [OF md' this] have three: "user_types md (length (segs (take 35 L))) = None"
    by (simp add: extract_integer_from_def del: str_Cons)
  show ?thesis
    unfolding md_def [symmetric] extract_protectors_def
    by (simp add: protectors_loop.simps [of md 0] protectors_loop.simps [of md "length (segs (take 13 L))"]
        protectors_loop.simps [of md "length (segs (take 35 L))"] one two three del: str_Cons)
qed

lemma build_context_plist_read:
  assumes "text_documented P E"
  shows "\<exists>md. build_context_plist E = Ok md \<and>
    extract_context P md =
      Ok \<lparr>ec_salt = truth_salt, ec_iterations = 90506, ec_wrapped_kek = truth_wrapped_kek,
          ec_wrapped_vmk = truth_wrapped_vmk,
          ec_protectors = [\<lparr>pr_user_type = 0x10000001, pr_kind = Password\<rparr>,
            \<lparr>pr_user_type = 0x10000009, pr_kind = Recovery\<rparr>],
          ec_conversion_status = Some (str ''Complete'')\<rparr>"
proof -
  define blob :: "bytes \<Rightarrow> bytes" where "blob w = replicate 8 0 @ w @ replicate 224 0" for w
  let ?pw = "b64 E passphrase_bytes" and ?n = "b64 E (blob (replicate 24 0))" and ?x = "b64 E (blob truth_wrapped_vmk)"
  have built: "build_context_plist E = Ok (context_text ?pw ?n ?x)"
    using kek_wrapped_struct_eq [OF truth_hex(3)] kek_wrapped_struct_eq [OF truth_hex(4)]
    by (simp add: build_context_plist_def passphrase_struct_eq blob_def del: str_Cons)
  have texts: "blob_texts [?pw, ?n, ?x]"
    using assms by (simp add: blob_texts_def b64_def text_documented_def blob_def passphrase_bytes_def)
  have decoded: "base64_decode P (b64 E bs) = Some bs" for bs
    using assms by (simp add: b64_def text_documented_def)
  have "slice16 passphrase_bytes PW_SALT_OFFSET = Some truth_salt"
      "slice24 passphrase_bytes PW_WRAPPED_KEK_OFFSET = Some truth_wrapped_kek"
      "read_u32_le passphrase_bytes PW_ITERATIONS_OFFSET = Some 90506"
      "slice24 (blob truth_wrapped_vmk) KEK_WRAPPED_VMK_OFFSET = Some truth_wrapped_vmk"
    by (simp_all add: slice16_eq slice24_eq read_u32_le_eq const_defs passphrase_bytes_def blob_def from_le_to_le)
  then show ?thesis
    using built fixture_passphrase [OF texts, of P] fixture_volume_key [OF texts decoded] fixture_status [OF texts]
      fixture_protectors [OF texts]
    by (simp add: extract_context_def decoded protector_of_def from_user_type_def del: str_Cons)
qed

section \<open>Property\<close>

text \<open>
  The encryption context is recovered from the text that carries it, for every base64 codec that
  behaves as documented: the salt, the iteration count and the wrapped KEK from their places in the
  passphrase struct; the volume key of the AES-XTS algorithm and not that of the sibling under
  another algorithm that stands before it; both crypto users, in order and classified; and the
  conversion status.
\<close>

theorem extract_build_context_plist:
  assumes "text_documented P E"
  shows "\<exists>md. build_context_plist E = Ok md \<and>
    extract_context P md =
      Ok \<lparr>ec_salt = truth_salt, ec_iterations = 90506, ec_wrapped_kek = truth_wrapped_kek,
          ec_wrapped_vmk = truth_wrapped_vmk,
          ec_protectors = [\<lparr>pr_user_type = 0x10000001, pr_kind = Password\<rparr>,
            \<lparr>pr_user_type = 0x10000009, pr_kind = Recovery\<rparr>],
          ec_conversion_status = Some (str ''Complete'')\<rparr>"
  by (rule build_context_plist_read [OF assms])

theorem extract_build_context_plist_witness:
  "\<exists>md ctx. build_context_plist codec_encoders = Ok md \<and> extract_context codec_prims md = Ok ctx \<and>
    ec_wrapped_vmk ctx = truth_wrapped_vmk \<and> map pr_kind (ec_protectors ctx) = [Password, Recovery]"
  using extract_build_context_plist [OF codec_encoders_documented(3)] by auto

end
