(* ===== verification/Unit_Tests_Context.thy ===== *)
theory Unit_Tests_Context
  imports Unit_Tests Fixtures_Context
begin

text \<open>
  The unit tests of the metadata scanner (\<open>core/src/context.rs\<close>), for every base64 codec that behaves
  as documented.
\<close>

section \<open>Encryption context\<close>

definition test_extracts_encryption_context :: "prims \<Rightarrow> encoders \<Rightarrow> unit fv" where
  "test_extracts_encryption_context P E =
    chain (build_context_plist E) (\<lambda>meta.
    chain (unwrap (extract_context P meta)) (\<lambda>ctx.
    in_order [
      assert_that (ec_salt ctx =
        [0x9b, 0xfc, 0xf4, 0x80, 0xe4, 0xd9, 0xad, 0x0e, 0xdd, 0xd9, 0xac, 0x6f, 0x47, 0xb8, 0x59, 0x55]),
      assert_that (ec_iterations ctx = 90506),
      assert_reads (hex (str ''ebbc1f64b9684eb4b26bfba3f85578677bab8cfafaf7b2c1'')) (ec_wrapped_kek ctx),
      assert_reads (hex (str ''9a5b30e99f902ed8e2f03989e5f9c1543ed60512aa1dc9d1'')) (ec_wrapped_vmk ctx),
      assert_that (ec_conversion_status ctx = Some (str ''Complete''))]))"

definition test_enumerates_protectors :: "prims \<Rightarrow> encoders \<Rightarrow> unit fv" where
  "test_enumerates_protectors P E =
    chain (build_context_plist E) (\<lambda>meta.
    chain (unwrap (extract_context P meta)) (\<lambda>ctx.
    let ps = ec_protectors ctx; at = (\<lambda>i. or_panic (if i < length ps then Some (ps ! i) else None)) in
    in_order [
      assert_that (length ps = 2),
      chain (at 0) (\<lambda>p. assert_that (pr_kind p = Password)),
      chain (at 0) (\<lambda>p. assert_that (pr_user_type p = 0x10000001)),
      chain (at 1) (\<lambda>p. assert_that (pr_kind p = Recovery))]))"

definition test_missing_passphrase_struct_is_error :: "prims \<Rightarrow> unit fv" where
  "test_missing_passphrase_struct_is_error P =
    (let meta = str ''<dict><key>Nothing</key></dict>'' in
     assert_matches (extract_context P meta)
       (\<lambda>c. c = Err (MetadataStructureMissing ''PassphraseWrappedKEKStruct'')))"

definition test_missing_aes_xts_kek_is_error :: "prims \<Rightarrow> encoders \<Rightarrow> unit fv" where
  "test_missing_aes_xts_kek_is_error P E =
    chain passphrase_struct (\<lambda>pw.
    chain (kek_wrapped_struct (str ''000000000000000000000000000000000000000000000000'')) (\<lambda>kek.
    let meta =
      str ''<key>PassphraseWrappedKEKStruct</key><data ID=\"4\">'' @ b64 E pw @
      str (''</data>'' @
           ''<key>BlockAlgorithm</key><string ID=\"9\">None</string>'' @
           ''<key>KEKWrappedVolumeKeyStruct</key><data ID=\"10\">'') @ b64 E kek @
      str ''</data>''
    in
    assert_matches (extract_context P meta)
      (\<lambda>c. c = Err (MetadataStructureMissing ''AES-XTS KEKWrappedVolumeKeyStruct''))))"

definition test_protector_kind_classification :: "unit fv" where
  "test_protector_kind_classification =
    in_order [
      assert_that (from_user_type 0x10000001 = Password),
      assert_that (from_user_type 0x10000009 = Recovery),
      assert_that (from_user_type 0x1000000f = Institutional),
      assert_that (from_user_type 0xdead = Unknown),
      assert_that (label Password = ''password''),
      assert_that (label Recovery = ''recovery''),
      assert_that (label Institutional = ''institutional''),
      assert_that (label Unknown = ''unknown'')]"

section \<open>Logical volume\<close>

definition test_extracts_logical_volume_info :: "unit fv" where
  "test_extracts_logical_volume_info =
    (let meta = str (''<dict ID=\"0\">'' @
       ''<key>com.apple.corestorage.lv.familyUUID</key><string ID=\"1\">1F01CA34-5F6C-4123-AC0C-B0A256889DB2</string>'' @
       ''<key>com.apple.corestorage.lv.name</key><string ID=\"6\">TestLV</string>'' @
       ''<key>com.apple.corestorage.lv.size</key><integer size=\"64\" ID=\"7\">0xa000000</integer>'' @
       ''<key>com.apple.corestorage.lv.uuid</key><string ID=\"8\">420AF122-CF73-4A30-8B0A-A593A65FBEF5</string>'' @
       ''</dict>'')
     in
     chain (unwrap (extract_lv_info meta)) (\<lambda>lv.
     in_order [
       assert_that (lv_family_uuid lv = str ''1F01CA34-5F6C-4123-AC0C-B0A256889DB2''),
       assert_that (lv_size lv = 167772160),
       assert_that (lv_name lv = Some (str ''TestLV'')),
       assert_that (lv_identifier lv = Some (str ''420AF122-CF73-4A30-8B0A-A593A65FBEF5''))]))"

definition test_missing_family_uuid_is_error :: "unit fv" where
  "test_missing_family_uuid_is_error =
    (let meta = str ''<dict><key>other</key></dict>'' in
     assert_matches (extract_lv_info meta)
       (\<lambda>c. c = Err (MetadataStructureMissing ''com.apple.corestorage.lv.familyUUID'')))"

definition test_lv_size_absent_is_zero_not_fabricated :: "unit fv" where
  "test_lv_size_absent_is_zero_not_fabricated =
    (let meta = str (''<key>com.apple.corestorage.lv.familyUUID</key>'' @
       ''<string ID=\"1\">1F01CA34-5F6C-4123-AC0C-B0A256889DB2</string>'')
     in
     chain (unwrap (extract_lv_info meta)) (\<lambda>lv.
     in_order [
       assert_that (lv_size lv = 0),
       assert_that (lv_name lv = None)]))"

definition test_oversized_base64_blob_is_rejected :: "prims \<Rightarrow> unit fv" where
  "test_oversized_base64_blob_is_rejected P =
    (let big = replicate (MAX_BASE64_BLOB + 4) (of_char (CHR ''A''));
         meta = str ''<key>PassphraseWrappedKEKStruct</key><data ID=\"4\">'' @ big @ str ''</data>''
     in assert_matches (extract_context P meta) missing)"

definition test_decimal_integer_values_parse :: "unit fv" where
  "test_decimal_integer_values_parse =
    (let meta = str ''<key>UserType</key><integer size=\"32\" ID=\"6\">268435457</integer>'';
         lv_meta = str (''<dict>'' @
           ''<key>com.apple.corestorage.lv.familyUUID</key><string ID=\"1\">1F01CA34-5F6C-4123-AC0C-B0A256889DB2</string>'' @
           ''<key>com.apple.corestorage.lv.size</key><integer size=\"64\" ID=\"7\">167772160</integer>'' @
           ''</dict>'')
     in
     in_order [
       chain (or_panic (extract_integer_from meta (str ''UserType'') 0)) (\<lambda>v. assert_that (fst v = 268435457)),
       chain (unwrap (extract_lv_info lv_meta)) (\<lambda>lv. assert_that (lv_size lv = 167772160))])"

section \<open>They pass\<close>

lemma no_key_scan:
  assumes "md = segs L" and "free_of (str k) L" and "CHR ''<'' \<notin> set k"
  shows "extract_tagged_from md (str k) open_tag close_tag 0 = None"
  using no_key_at [of md "[]" L k 0] assms by simp

lemma fixture_context_tests_pass:
  assumes "text_documented P E"
  shows "test_extracts_encryption_context P E = Ok ()" and "test_enumerates_protectors P E = Ok ()"
proof -
  obtain md where "build_context_plist E = Ok md" and "extract_context P md =
      Ok \<lparr>ec_salt = truth_salt, ec_iterations = 90506, ec_wrapped_kek = truth_wrapped_kek,
          ec_wrapped_vmk = truth_wrapped_vmk,
          ec_protectors = [\<lparr>pr_user_type = 0x10000001, pr_kind = Password\<rparr>,
            \<lparr>pr_user_type = 0x10000009, pr_kind = Recovery\<rparr>],
          ec_conversion_status = Some (str ''Complete'')\<rparr>"
    using build_context_plist_read [OF assms] by blast
  then show "test_extracts_encryption_context P E = Ok ()" and "test_enumerates_protectors P E = Ok ()"
    using truth_hex
    by (simp_all add: test_extracts_encryption_context_def test_enumerates_protectors_def truth_salt_def del: str_Cons)
qed

lemma missing_tests_pass:
  "test_missing_passphrase_struct_is_error P = Ok ()" "test_missing_family_uuid_is_error = Ok ()"
  "test_protector_kind_classification = Ok ()"
proof -
  have "extract_tagged_from (str ''<dict><key>Nothing</key></dict>'') (str ''PassphraseWrappedKEKStruct'') (str ''<data ID='')
      (str ''</data>'') 0 = None"
    by (rule no_key_scan [where L = "[str ''dict>'', str ''key>Nothing'', str ''/key>'', str ''/dict>'']"])
      (simp_all del: str_Cons, simp_all)
  then show "test_missing_passphrase_struct_is_error P = Ok ()"
    by (simp add: test_missing_passphrase_struct_is_error_def extract_context_def extract_data_def extract_tagged_def
        del: str_Cons)
  have "extract_tagged_from (str ''<dict><key>other</key></dict>'') (str ''com.apple.corestorage.lv.familyUUID'')
      (str ''<string ID='') (str ''</string>'') 0 = None"
    by (rule no_key_scan [where L = "[str ''dict>'', str ''key>other'', str ''/key>'', str ''/dict>'']"])
      (simp_all del: str_Cons, simp_all)
  then show "test_missing_family_uuid_is_error = Ok ()"
    by (simp add: test_missing_family_uuid_is_error_def extract_lv_info_def extract_string_def extract_tagged_def
        del: str_Cons)
  show "test_protector_kind_classification = Ok ()"
    by (simp add: test_protector_kind_classification_def from_user_type_def)
qed

text \<open>The family UUID of the tests, as a pair of segments.\<close>

abbreviation family_segs :: "bytes list" where
  "family_segs \<equiv> pair_segs ''com.apple.corestorage.lv.familyUUID'' ''string ID='' ''\"1\"''
    (str ''1F01CA34-5F6C-4123-AC0C-B0A256889DB2'') ''/string>''"

lemma utf8_texts:
  "utf8_valid (str ''1F01CA34-5F6C-4123-AC0C-B0A256889DB2'')" "utf8_valid (str ''TestLV'')"
  "utf8_valid (str ''420AF122-CF73-4A30-8B0A-A593A65FBEF5'')"
  by (rule utf8_valid_str; auto)+

lemma no_string: "\<lbrakk>md = segs L; free_of (str k) L; CHR ''<'' \<notin> set k\<rbrakk> \<Longrightarrow> extract_string md (str k) = None"
  by (simp add: extract_string_def extract_tagged_def no_key_scan del: str_Cons)

lemma no_integer: "\<lbrakk>md = segs L; free_of (str k) L; CHR ''<'' \<notin> set k\<rbrakk> \<Longrightarrow> extract_u64_integer md (str k) = None"
  by (simp add: extract_u64_integer_def no_key_scan del: str_Cons)

lemma test_integers:
  "parse_integer_text (str ''0xa000000'') = Some (167772160 :: u64)"
  "parse_integer_text (str ''167772160'') = Some (167772160 :: u64)"
  "parse_integer_text (str ''268435457'') = Some (268435457 :: u32)"
proof -
  have "integer_text True (167772160 :: u64) = str ''0xa000000''" "integer_text False (167772160 :: u64) = str ''167772160''"
    "integer_text False (268435457 :: u32) = str ''268435457''"
    by (simp_all add: integer_text_def show_radix.simps digit_byte)
  then show "parse_integer_text (str ''0xa000000'') = Some (167772160 :: u64)"
    "parse_integer_text (str ''167772160'') = Some (167772160 :: u64)"
    "parse_integer_text (str ''268435457'') = Some (268435457 :: u32)"
    by (metis parse_integer_text_printed)+
qed

text \<open>The pair of a key at a place among the segments.\<close>

lemma string_at:
  assumes "md = segs L" and "length md < 2 ^ 63" and "window n 4 L = pair_segs k ''string ID='' attrs v ''/string>''"
    and "free_of (str k) (take n L)" and "CHR ''<'' \<notin> set k" and "CHR ''>'' \<notin> set attrs" and "lt \<notin> set v"
    and "utf8_valid v"
  shows "extract_string md (str k) = Some v"
  using extract_string_segs [of md "[]" L "[]" n k attrs v] assms by simp

lemma integer_at:
  assumes "md = segs L" and "length md < 2 ^ 63" and "window n 4 L = pair_segs k ''integer'' attrs v ''/integer>''"
    and "free_of (str k) (take n L)" and "CHR ''<'' \<notin> set k" and "CHR ''>'' \<notin> set attrs" and "lt \<notin> set v"
    and "parse_integer_text v = Some w"
  shows "extract_u64_integer md (str k) = Some (w, length (segs (take (n + 4) L)))"
  using extract_u64_segs [of md "[]" L "[]" n k attrs v] assms by simp

lemma absent_size_test_passes: "test_lv_size_absent_is_zero_not_fabricated = Ok ()"
proof -
  define md where "md = str (''<key>com.apple.corestorage.lv.familyUUID</key>'' @
    ''<string ID=\"1\">1F01CA34-5F6C-4123-AC0C-B0A256889DB2</string>'')"
  have L: "md = segs family_segs" and len: "length md < 2 ^ 63"
    by (simp_all add: md_def pair_segs_def)
  have "extract_string md (str ''com.apple.corestorage.lv.familyUUID'') = Some (str ''1F01CA34-5F6C-4123-AC0C-B0A256889DB2'')"
    by (rule string_at [OF L len, where n = 0 and attrs = "''\"1\"''"]) (simp_all add: utf8_texts del: str_Cons)
  moreover have "extract_string md (str ''com.apple.corestorage.lv.name'') = None"
    "extract_string md (str ''com.apple.corestorage.lv.uuid'') = None"
    "extract_u64_integer md (str ''com.apple.corestorage.lv.size'') = None"
    by (rule no_string [OF L] no_integer [OF L]; simp add: pair_segs_def)+
  ultimately show ?thesis
    unfolding test_lv_size_absent_is_zero_not_fabricated_def Let_def md_def [symmetric]
    by (simp add: extract_lv_info_def extract_lv_size_def del: str_Cons)
qed

lemma volume_info_test_passes: "test_extracts_logical_volume_info = Ok ()"
proof -
  define md where "md = str (''<dict ID=\"0\">'' @
       ''<key>com.apple.corestorage.lv.familyUUID</key><string ID=\"1\">1F01CA34-5F6C-4123-AC0C-B0A256889DB2</string>'' @
       ''<key>com.apple.corestorage.lv.name</key><string ID=\"6\">TestLV</string>'' @
       ''<key>com.apple.corestorage.lv.size</key><integer size=\"64\" ID=\"7\">0xa000000</integer>'' @
       ''<key>com.apple.corestorage.lv.uuid</key><string ID=\"8\">420AF122-CF73-4A30-8B0A-A593A65FBEF5</string>'' @
       ''</dict>'')"
  let ?L = "[str ''dict ID=\"0\">''] @ family_segs @
    pair_segs ''com.apple.corestorage.lv.name'' ''string ID='' ''\"6\"'' (str ''TestLV'') ''/string>'' @
    pair_segs ''com.apple.corestorage.lv.size'' ''integer'' '' size=\"64\" ID=\"7\"'' (str ''0xa000000'') ''/integer>'' @
    pair_segs ''com.apple.corestorage.lv.uuid'' ''string ID='' ''\"8\"'' (str ''420AF122-CF73-4A30-8B0A-A593A65FBEF5'') ''/string>'' @
    [str ''/dict>'']"
  have L: "md = segs ?L" and len: "length md < 2 ^ 63"
    by (simp_all add: md_def pair_segs_def)
  have "extract_string md (str ''com.apple.corestorage.lv.familyUUID'') = Some (str ''1F01CA34-5F6C-4123-AC0C-B0A256889DB2'')"
    by (rule string_at [OF L len, where n = 1 and attrs = "''\"1\"''"]) (simp_all add: utf8_texts del: str_Cons, simp_all add: pair_segs_def)
  moreover have "extract_string md (str ''com.apple.corestorage.lv.name'') = Some (str ''TestLV'')"
    by (rule string_at [OF L len, where n = 5 and attrs = "''\"6\"''"]) (simp_all add: utf8_texts del: str_Cons, simp_all add: pair_segs_def)
  moreover have "extract_string md (str ''com.apple.corestorage.lv.uuid'') = Some (str ''420AF122-CF73-4A30-8B0A-A593A65FBEF5'')"
    by (rule string_at [OF L len, where n = 13 and attrs = "''\"8\"''"]) (simp_all add: utf8_texts del: str_Cons, simp_all add: pair_segs_def)
  moreover have "extract_u64_integer md (str ''com.apple.corestorage.lv.size'') = Some (167772160, length (segs (take (9 + 4) ?L)))"
    by (rule integer_at [OF L len, where attrs = "'' size=\"64\" ID=\"7\"''" and v = "str ''0xa000000''"]) (simp_all add: test_integers del: str_Cons, simp_all add: pair_segs_def)
  ultimately show ?thesis
    unfolding test_extracts_logical_volume_info_def Let_def md_def [symmetric]
    by (simp add: extract_lv_info_def extract_lv_size_def del: str_Cons)
qed

lemma decimal_test_passes: "test_decimal_integer_values_parse = Ok ()"
proof -
  define md where "md = str ''<key>UserType</key><integer size=\"32\" ID=\"6\">268435457</integer>''"
  define lv_md where "lv_md = str (''<dict>'' @
    ''<key>com.apple.corestorage.lv.familyUUID</key><string ID=\"1\">1F01CA34-5F6C-4123-AC0C-B0A256889DB2</string>'' @
    ''<key>com.apple.corestorage.lv.size</key><integer size=\"64\" ID=\"7\">167772160</integer>'' @
    ''</dict>'')"
  let ?L = "pair_segs ''UserType'' ''integer'' '' size=\"32\" ID=\"6\"'' (str ''268435457'') ''/integer>''"
  have L: "md = [] @ [] @ segs ?L @ []" and len: "length md < 2 ^ 63"
    by (simp_all add: md_def pair_segs_def)
  have "extract_integer_from md (str ''UserType'') (length ([] :: bytes)) = Some (268435457, length ([] @ [] @ segs (take (0 + 4) ?L)))"
    by (rule extract_integer_segs [OF L len, where attrs = "'' size=\"32\" ID=\"6\"''" and v = "str ''268435457''"])
      (simp_all add: test_integers del: str_Cons)
  then obtain e where one: "extract_integer_from md (str ''UserType'') 0 = Some (268435457, e)"
    by (simp del: str_Cons)
  let ?M = "[str ''dict>''] @ family_segs @
    pair_segs ''com.apple.corestorage.lv.size'' ''integer'' '' size=\"64\" ID=\"7\"'' (str ''167772160'') ''/integer>'' @
    [str ''/dict>'']"
  have M: "lv_md = segs ?M" and mlen: "length lv_md < 2 ^ 63"
    by (simp_all add: lv_md_def pair_segs_def)
  have "extract_string lv_md (str ''com.apple.corestorage.lv.familyUUID'') = Some (str ''1F01CA34-5F6C-4123-AC0C-B0A256889DB2'')"
    by (rule string_at [OF M mlen, where n = 1 and attrs = "''\"1\"''"])
      (simp_all add: utf8_texts del: str_Cons, simp_all add: pair_segs_def)
  moreover have "extract_u64_integer lv_md (str ''com.apple.corestorage.lv.size'') = Some (167772160, length (segs (take (5 + 4) ?M)))"
    by (rule integer_at [OF M mlen, where attrs = "'' size=\"64\" ID=\"7\"''" and v = "str ''167772160''"])
      (simp_all add: test_integers del: str_Cons, simp_all add: pair_segs_def)
  ultimately show ?thesis
    unfolding test_decimal_integer_values_parse_def Let_def md_def [symmetric] lv_md_def [symmetric]
    by (simp add: extract_lv_info_def extract_lv_size_def one Let_def del: str_Cons)
qed

lemma oversized_test_passes: "test_oversized_base64_blob_is_rejected P = Ok ()"
proof -
  define big :: bytes where "big = replicate (MAX_BASE64_BLOB + 4) (of_char (CHR ''A''))"
  define md where "md = str ''<key>PassphraseWrappedKEKStruct</key><data ID=\"4\">'' @ big @ str ''</data>''"
  let ?L = "pair_segs ''PassphraseWrappedKEKStruct'' ''data ID='' ''\"4\"'' big ''/data>''"
  have big: "lt \<notin> set big" "length big = 4100" "list_all (\<lambda>b. \<not> is_ascii_whitespace b) big"
    by (simp_all add: big_def MAX_BASE64_BLOB_def is_ascii_whitespace_def list_all_iff)
  have L: "md = [] @ [] @ segs ?L @ []" and len: "length md < 2 ^ 63"
    by (simp_all add: md_def pair_segs_def big)
  have "extract_tagged_from md (str ''PassphraseWrappedKEKStruct'') (str ''<data ID='') (str ''</data>'') (length ([] :: bytes)) =
      Some (big, length ([] @ [] @ segs (take (0 + 4) ?L)))"
    by (rule scan_segs [OF L len, where attrs = "''\"4\"''"]) (simp_all add: big del: str_Cons)
  moreover have "filter (\<lambda>b. \<not> is_ascii_whitespace b) big = big"
    using big(3) by (simp add: list_all_iff)
  ultimately have "extract_data P md (str ''PassphraseWrappedKEKStruct'') = None"
    by (simp add: extract_data_def extract_tagged_def big(2) MAX_BASE64_BLOB_def del: str_Cons)
  then show ?thesis
    unfolding test_oversized_base64_blob_is_rejected_def Let_def big_def [symmetric] md_def [symmetric]
    by (simp add: extract_context_def del: str_Cons)
qed

lemma missing_key_test_passes:
  assumes "text_documented P E"
  shows "test_missing_aes_xts_kek_is_error P E = Ok ()"
proof -
  let ?kek = "replicate 8 0 @ replicate 24 0 @ replicate 224 0 :: bytes"
  define pw kek where "pw = b64 E passphrase_bytes" and "kek = b64 E ?kek"
  define md where "md = str ''<key>PassphraseWrappedKEKStruct</key><data ID=\"4\">'' @ pw @
      str (''</data>'' @
           ''<key>BlockAlgorithm</key><string ID=\"9\">None</string>'' @
           ''<key>KEKWrappedVolumeKeyStruct</key><data ID=\"10\">'') @ kek @ str ''</data>''"
  let ?L = "pair_segs ''PassphraseWrappedKEKStruct'' ''data ID='' ''\"4\"'' pw ''/data>'' @
    pair_segs ''BlockAlgorithm'' ''string ID='' ''\"9\"'' (str ''None'') ''/string>'' @
    pair_segs ''KEKWrappedVolumeKeyStruct'' ''data ID='' ''\"10\"'' kek ''/data>''"
  have texts: "blob_texts [pw, kek, kek]"
    using assms by (simp add: pw_def kek_def blob_texts_def b64_def text_documented_def passphrase_bytes_def)
  note clear = blob_texts_clear [OF texts]
  have L: "md = [] @ segs ?L @ []" and L': "md = [] @ segs ?L"
    by (simp_all add: md_def pair_segs_def)
  have len: "length md < 2 ^ 63"
    using texts by (auto simp: md_def blob_texts_def)
  have "extract_data P md (str ''PassphraseWrappedKEKStruct'') = base64_decode P pw"
    by (rule extract_data_segs [OF L len, where n = 0 and attrs = "''\"4\"''"]) (simp_all add: clear del: str_Cons)
  then have pass: "extract_data P md (str ''PassphraseWrappedKEKStruct'') = Some passphrase_bytes"
    using assms by (simp add: pw_def b64_def text_documented_def)
  define c where "c = length ([] @ segs (take (0 + 4 + 4) ?L))"
  have "algorithms md (length ([] @ segs (take 0 ?L))) = Some (str ''None'', c)"
    unfolding c_def
    by (rule scan_segs_at [OF L len, where attrs = "''\"9\"''"]) (simp_all add: clear, simp_all add: pair_segs_def clear)
  moreover have "algorithms md c = None"
    unfolding c_def by (rule no_key_at [OF L']) (simp_all add: clear, simp_all add: pair_segs_def clear)
  ultimately have "extract_kek_wrapped_aes_xts P md = None"
    unfolding extract_kek_wrapped_aes_xts_def
    by (simp add: kek_loop.simps [of P md 0] kek_loop.simps [of P md c] del: str_Cons)
  moreover have "slice16 passphrase_bytes PW_SALT_OFFSET = Some truth_salt"
      "slice24 passphrase_bytes PW_WRAPPED_KEK_OFFSET = Some truth_wrapped_kek"
      "read_u32_le passphrase_bytes PW_ITERATIONS_OFFSET = Some 90506"
    by (simp_all add: slice16_eq slice24_eq read_u32_le_eq const_defs passphrase_bytes_def from_le_to_le)
  ultimately have "extract_context P md = Err (MetadataStructureMissing ''AES-XTS KEKWrappedVolumeKeyStruct'')"
    by (simp add: extract_context_def pass del: str_Cons)
  moreover have "kek_wrapped_struct (str ''000000000000000000000000000000000000000000000000'') = Ok ?kek"
    using kek_wrapped_struct_eq [OF truth_hex(4)] by (simp del: str_Cons)
  ultimately show ?thesis
    unfolding test_missing_aes_xts_kek_is_error_def passphrase_struct_eq
    by (simp add: md_def pw_def kek_def del: str_Cons)
qed

end
