(* ===== verification/Unit_Tests_Volume.thy ===== *)
theory Unit_Tests_Volume
  imports Unit_Tests
begin

text \<open>
  The unit tests of the decrypted volume (\<open>core/src/volume.rs\<close>), as actions on a volume over an
  in-memory cursor, for all functions that encrypt and decrypt as documented, and those of the XTS
  wrapper (\<open>core/src/xts.rs\<close>), which also assert that the cipher hides the plaintext and depends on
  the unit index: they pass exactly when it does.
\<close>

section \<open>Tests on a volume\<close>

text \<open>\<open>unwrap\<close> of the result of a method call, and an assertion between two calls.\<close>

definition unwrapped :: "('s, 'e, 'a) action \<Rightarrow> ('s, FileVaultError, 'a) action" where
  "unwrapped act s = map_option (\<lambda>(s', c). (s', unwrap c)) (act s)"

definition expect :: "bool \<Rightarrow> ('s, FileVaultError, unit) action" where
  "expect b = return (assert_that b)"

definition seeking :: "seek_from \<Rightarrow> ('r DecryptedVolume, io_error, u64) action" where
  "seeking p v = Some (DecryptedVolume_seek v p)"

fun given :: "'a fv \<Rightarrow> ('a \<Rightarrow> unit fv option) \<Rightarrow> unit fv option" where
  "given (Ok x) f = f x"
| "given (Err e) f = Some (Err e)"
| "given Panic f = Some Panic"

definition on_volume :: "'s \<Rightarrow> ('s, FileVaultError, unit) action \<Rightarrow> unit fv option" where
  "on_volume s act = map_option snd (act s)"

text \<open>\<open>(0..n).map(|i| (i & 0xff) as u8)\<close>\<close>

definition ramp :: "nat \<Rightarrow> bytes" where
  "ramp n = map (\<lambda>i. ucast (i AND 0xff)) (map of_nat [0..<n] :: u32 list)"

definition test_read_at_decrypts_aligned_sector :: "prims \<Rightarrow> encoders \<Rightarrow> unit fv option" where
  "test_read_at_decrypts_aligned_sector P E =
    (let k = fixture_keys; plain = ramp 1024 in
     given (build_backing E 4096 plain k) (\<lambda>img.
     on_volume (DecryptedVolume_new (cursor_new img) fixture_keys 4096 (of_nat (length plain)))
       (let buf = replicate 512 0 in
        andThen (unwrapped (DecryptedVolume_read_at P cursor_ops 0 512)) (\<lambda>bs.
        andThen (expect (length bs = 512)) (\<lambda>_.
        let buf = copy_at 0 bs buf in
        andThen (expect (buf = take 512 plain)) (\<lambda>_.
        andThen (unwrapped (DecryptedVolume_read_at P cursor_ops 512 512)) (\<lambda>bs.
        andThen (expect (length bs = 512)) (\<lambda>_.
        let buf = copy_at 0 bs buf in
          expect (buf = window 512 512 plain))))))))) "

definition test_read_at_handles_unaligned_window :: "prims \<Rightarrow> encoders \<Rightarrow> unit fv option" where
  "test_read_at_handles_unaligned_window P E =
    (let k = fixture_keys; plain = ramp 1024 in
     given (build_backing E 0 plain k) (\<lambda>img.
     on_volume (DecryptedVolume_new (cursor_new img) fixture_keys 0 (of_nat (length plain)))
       (let buf = replicate 300 0 in
        andThen (unwrapped (DecryptedVolume_read_at P cursor_ops 600 300)) (\<lambda>bs.
        andThen (expect (length bs = 300)) (\<lambda>_.
          expect (copy_at 0 bs buf = window 600 300 plain))))))"

definition test_read_at_past_end_returns_zero :: "prims \<Rightarrow> unit fv option" where
  "test_read_at_past_end_returns_zero P =
    on_volume (DecryptedVolume_new (cursor_new (replicate 4096 0)) fixture_keys 0 512)
      (andThen (unwrapped (DecryptedVolume_read_at P cursor_ops 512 16)) (\<lambda>bs.
       andThen (expect (length bs = 0)) (\<lambda>_.
       andThen (unwrapped (DecryptedVolume_read_at P cursor_ops 1000 16)) (\<lambda>bs.
         expect (length bs = 0)))))"

definition test_read_at_truncates_to_volume_end :: "prims \<Rightarrow> encoders \<Rightarrow> unit fv option" where
  "test_read_at_truncates_to_volume_end P E =
    (let k = fixture_keys; plain = ramp 512 in
     given (build_backing E 0 plain k) (\<lambda>img.
     on_volume (DecryptedVolume_new (cursor_new img) fixture_keys 0 512)
       (let buf = replicate 512 0 in
        andThen (unwrapped (DecryptedVolume_read_at P cursor_ops 256 512)) (\<lambda>bs.
        andThen (expect (length bs = 256)) (\<lambda>_.
          expect (take 256 (copy_at 0 bs buf) = window 256 256 plain))))))"

definition test_empty_buffer_reads_nothing :: "prims \<Rightarrow> unit fv option" where
  "test_empty_buffer_reads_nothing P =
    on_volume (DecryptedVolume_new (cursor_new (replicate 4096 0)) fixture_keys 0 512)
      (andThen (unwrapped (DecryptedVolume_read_at P cursor_ops 0 0)) (\<lambda>bs. expect (length bs = 0)))"

definition test_size_accessor :: "unit fv" where
  "test_size_accessor =
    (let vol = DecryptedVolume_new (cursor_new (replicate 16 0)) fixture_keys 0 167772160 in
     assert_that (DecryptedVolume_size vol = 167772160))"

definition test_read_and_seek_impls :: "prims \<Rightarrow> encoders \<Rightarrow> unit fv option" where
  "test_read_and_seek_impls P E =
    (let k = fixture_keys; plain = ramp 1024 in
     given (build_backing E 0 plain k) (\<lambda>img.
     on_volume (DecryptedVolume_new (cursor_new img) fixture_keys 0 (of_nat (length plain)))
       (let buf = replicate 512 0 in
        andThen (unwrapped (DecryptedVolume_read P cursor_ops 512)) (\<lambda>bs.
        andThen (expect (length bs = 512)) (\<lambda>_.
        let buf = copy_at 0 bs buf in
        andThen (expect (buf = take 512 plain)) (\<lambda>_.
        andThen (unwrapped (seeking (Start 512))) (\<lambda>p.
        andThen (expect (p = 512)) (\<lambda>_.
        andThen (unwrapped (DecryptedVolume_read P cursor_ops 512)) (\<lambda>bs.
        andThen (expect (length bs = 512)) (\<lambda>_.
        let buf = copy_at 0 bs buf in
        andThen (expect (buf = window 512 512 plain)) (\<lambda>_.
        andThen (unwrapped (seeking (End 0))) (\<lambda>p.
        andThen (expect (p = 1024)) (\<lambda>_.
        andThen (unwrapped (seeking (Current (- 1024)))) (\<lambda>p.
          expect (p = 0)))))))))))))))"

definition test_seek_out_of_range_errors :: "unit fv" where
  "test_seek_out_of_range_errors =
    (let vol = DecryptedVolume_new (cursor_new (replicate 16 0)) fixture_keys 0 512;
         (vol, first) = DecryptedVolume_seek vol (Current (- 1));
         (vol, second) = DecryptedVolume_seek vol (End 1)
     in in_order [
       assert_matches first (\<lambda>c. case c of Err _ \<Rightarrow> True | _ \<Rightarrow> False),
       assert_matches second (\<lambda>c. case c of Ok _ \<Rightarrow> True | _ \<Rightarrow> False)])"

definition test_read_full_or_eof_stops_at_clean_eof ::
  "(unit \<Rightarrow> seek_from \<Rightarrow> unit \<times> u64 io_result) \<Rightarrow> unit fv option" where
  "test_read_full_or_eof_stops_at_clean_eof sk =
    (let buf = replicate 8 0xff in
     on_volume () (andThen (unwrapped (read_full_or_eof (eof_ops sk) buf)) (\<lambda>buf. expect (buf = replicate 8 0xff))))"

definition test_read_full_or_eof_retries_interrupt_and_propagates_error ::
  "(FlakyReader \<Rightarrow> seek_from \<Rightarrow> FlakyReader \<times> u64 io_result) \<Rightarrow> unit fv option" where
  "test_read_full_or_eof_retries_interrupt_and_propagates_error sk =
    (let r = \<lparr>fr_data = replicate 8 1, fr_pos = 0, fr_interrupted_once = False\<rparr>;
         buf = replicate 16 0
     in map_option (\<lambda>(r, buf, c).
       chain (unwrap_err c) (\<lambda>err.
       in_order [
         assert_that (err = Message ''backing read failed''),
         assert_that (take 8 buf = replicate 8 1)])) (read_full_loop (flaky_ops sk) buf 0 r))"

section \<open>Tests of the XTS wrapper\<close>

definition test_decrypt_inverts_encrypt :: "prims \<Rightarrow> encoders \<Rightarrow> unit fv" where
  "test_decrypt_inverts_encrypt P E =
    (let key1 = replicate 16 0x11; key2 = replicate 16 0x22; plaintext = ramp 1024 in
     chain (encrypt_units E plaintext key1 key2 512 5) (\<lambda>buffer.
     chain (assert_that (buffer \<noteq> plaintext)) (\<lambda>_.
     chain (decrypt_units P buffer key1 key2 512 5) (\<lambda>buffer.
       assert_that (buffer = plaintext)))))"

definition test_tweak_index_matters :: "prims \<Rightarrow> unit fv" where
  "test_tweak_index_matters P =
    (let key1 = replicate 16 0x33; key2 = replicate 16 0x44; a = replicate 512 0; b = replicate 512 0 in
     chain (decrypt_units P a key1 key2 512 0) (\<lambda>a.
     chain (decrypt_units P b key1 key2 512 1) (\<lambda>b.
       assert_that (a \<noteq> b))))"

section \<open>They pass\<close>

text \<open>A volume over a cursor that holds a known plaintext, and what the calls of a test do on it.\<close>

definition holds_plain :: "prims \<Rightarrow> cursor DecryptedVolume \<Rightarrow> bytes \<Rightarrow> bool" where
  "holds_plain P dv plain \<longleftrightarrow> volume_ok P cursor_ok dv \<and> volume_bytes P cur_data dv = plain"

definition passes :: "('s, FileVaultError, unit) action \<Rightarrow> 's \<Rightarrow> bool" where
  "passes act s \<longleftrightarrow> (\<exists>s'. act s = Some (s', Ok ()))"

lemma on_volume_passes: "passes act s \<Longrightarrow> on_volume s act = Some (Ok ())"
  by (auto simp: passes_def on_volume_def)

lemma passes_expect: "b \<Longrightarrow> passes (expect b) s"
  by (simp add: passes_def expect_def return_def)

lemma passes_expect_then: "\<lbrakk>b; passes (f ()) s\<rbrakk> \<Longrightarrow> passes (andThen (expect b) f) s"
  by (simp add: passes_def expect_def andThen_return)

lemma passes_call:
  assumes "act s = Some (s', Ok x)" and "passes (f x) s'"
  shows "passes (andThen (unwrapped act) f) s"
  using assms by (simp add: passes_def andThen_def unwrapped_def)

lemma read_at_holds:
  assumes "holds_plain P dv plain" and "n < 2 ^ 64"
  obtains dv' where "DecryptedVolume_read_at P cursor_ops off n dv = Some (dv', Ok (window (unat off) n plain))"
    and "holds_plain P dv' plain" and "dv_position dv' = dv_position dv"
proof -
  obtain r' where r: "cursor_ok r'" "cur_data r' = cur_data (dv_reader dv)"
      "DecryptedVolume_read_at P cursor_ops off n dv = Some (dv\<lparr>dv_reader := r'\<rparr>, Ok (window (unat off) n plain))"
    using cur.read_at_plaintext [of P dv n off] assms by (auto simp: holds_plain_def)
  show thesis
    by (rule that [OF r(3)]) (use assms(1) r(1,2) cur.volume_unchanged(3,4) [of r' dv P] in \<open>auto simp: holds_plain_def\<close>)
qed

lemma read_holds:
  assumes "holds_plain P dv plain" and "n < 2 ^ 64"
  defines "w \<equiv> window (unat (dv_position dv)) n plain"
  obtains dv' where "DecryptedVolume_read P cursor_ops n dv = Some (dv', Ok w)"
    and "holds_plain P dv' plain" and "dv_position dv' = dv_position dv + of_nat (length w)"
proof -
  obtain r' where r: "cursor_ok r'" "cur_data r' = cur_data (dv_reader dv)" "DecryptedVolume_read P cursor_ops n dv =
      Some (dv\<lparr>dv_reader := r', dv_position := dv_position dv + of_nat (length w)\<rparr>, Ok w)"
    using cur.read_plaintext(1) [of P dv n] assms(1,2) by (auto simp: holds_plain_def w_def)
  show thesis
    by (rule that [OF r(3)]) (use assms(1) r(1,2) cur.volume_unchanged(1,2) [of r' dv P] in \<open>auto simp: holds_plain_def\<close>)
qed

lemma passes_read_at:
  assumes "holds_plain P dv plain" and "n < 2 ^ 64"
    and "\<And>dv'. \<lbrakk>holds_plain P dv' plain; dv_position dv' = dv_position dv\<rbrakk> \<Longrightarrow>
      passes (f (window (unat off) n plain)) dv'"
  shows "passes (andThen (unwrapped (DecryptedVolume_read_at P cursor_ops off n)) f) dv"
  using read_at_holds [OF assms(1,2), of off] assms(3) passes_call by metis

lemma passes_read:
  assumes "holds_plain P dv plain" and "n < 2 ^ 64"
    and "\<And>dv'. \<lbrakk>holds_plain P dv' plain;
        dv_position dv' = dv_position dv + of_nat (length (window (unat (dv_position dv)) n plain))\<rbrakk> \<Longrightarrow>
      passes (f (window (unat (dv_position dv)) n plain)) dv'"
  shows "passes (andThen (unwrapped (DecryptedVolume_read P cursor_ops n)) f) dv"
  using read_holds [OF assms(1,2)] assms(3) passes_call by metis

lemma passes_seek:
  assumes "holds_plain P dv plain" and "DecryptedVolume_seek dv p = (dv\<lparr>dv_position := q\<rparr>, Ok q)"
    and "\<And>dv'. \<lbrakk>holds_plain P dv' plain; dv_position dv' = q; dv_size dv' = dv_size dv\<rbrakk> \<Longrightarrow> passes (f q) dv'"
  shows "passes (andThen (unwrapped (seeking p)) f) dv"
  using assms
  by (intro passes_call [where act = "seeking p" and s' = "dv\<lparr>dv_position := q\<rparr>"])
    (auto simp: seeking_def holds_plain_def volume_ok_def volume_bytes_def)

lemma length_ramp [simp]: "length (ramp n) = n"
  by (simp add: ramp_def)

lemma fixture_volume:
  assumes "xts_documented P" and "unat base + unat sz + 1024 \<le> 2 ^ 63" and "length img < 2 ^ 63"
  defines "dv \<equiv> DecryptedVolume_new (cursor_new img) fixture_keys base sz"
  shows "holds_plain P dv (volume_bytes P cur_data dv)" and "length (volume_bytes P cur_data dv) = unat sz"
    and "dv_position dv = 0" and "dv_size dv = sz"
proof -
  show ok: "holds_plain P dv (volume_bytes P cur_data dv)"
    using assms by (simp add: holds_plain_def volume_ok_def extent_ok_def DecryptedVolume_new_def keys_ok_def
        fixture_keys_def cursor_ok_def cursor_new_def)
  show sz: "dv_position dv = 0" "dv_size dv = sz"
    by (simp_all add: dv_def DecryptedVolume_new_def)
  show "length (volume_bytes P cur_data dv) = unat sz"
    using ok cur.volume_bytes_length [of P dv] sz(2) by (simp add: holds_plain_def)
qed

lemma backed_volume:
  assumes "xts_documented P" and "encrypt_documented P E" and "length plain mod 512 = 0"
    and "unat base + length plain + 1024 \<le> 2 ^ 63"
  obtains img where "build_backing E base plain fixture_keys = Ok img"
    and "holds_plain P (DecryptedVolume_new (cursor_new img) fixture_keys base (of_nat (length plain))) plain"
proof -
  have "keys_ok fixture_keys"
    by (simp add: keys_ok_def fixture_keys_def)
  then obtain img where img: "build_backing E base plain fixture_keys = Ok img" "length img = unat base + length plain"
      "plaintext P fixture_keys (unat base) (length plain) img = plain"
    using build_backing_plaintext [OF assms(1,2), of fixture_keys base plain] assms(3,4) by auto
  have len: "unat (of_nat (length plain) :: u64) = length plain"
    using assms(4) by (intro unat_of_nat_fit) simp
  show thesis
    using that [OF img(1)] fixture_volume(1) [OF assms(1), of base "of_nat (length plain)" img] img(2,3) assms(4) len
    by (simp add: volume_bytes_def DecryptedVolume_new_def cursor_new_def)
qed

lemma read_at_tests_pass:
  assumes "xts_documented P" and "encrypt_documented P E"
  shows "test_read_at_decrypts_aligned_sector P E = Some (Ok ())"
    and "test_read_at_handles_unaligned_window P E = Some (Ok ())"
    and "test_read_at_truncates_to_volume_end P E = Some (Ok ())"
proof -
  obtain img where img: "build_backing E 4096 (ramp 1024) fixture_keys = Ok img"
      "holds_plain P (DecryptedVolume_new (cursor_new img) fixture_keys 4096 (of_nat (length (ramp 1024)))) (ramp 1024)"
    using backed_volume [OF assms, of "ramp 1024" 4096] by auto
  show "test_read_at_decrypts_aligned_sector P E = Some (Ok ())"
    unfolding test_read_at_decrypts_aligned_sector_def Let_def img(1) given.simps
    by (intro on_volume_passes passes_read_at [OF img(2)] passes_expect_then)
      (auto intro!: passes_read_at passes_expect passes_expect_then simp: copy_at_def)
  obtain img where img: "build_backing E 0 (ramp 1024) fixture_keys = Ok img"
      "holds_plain P (DecryptedVolume_new (cursor_new img) fixture_keys 0 (of_nat (length (ramp 1024)))) (ramp 1024)"
    using backed_volume [OF assms, of "ramp 1024" 0] by auto
  show "test_read_at_handles_unaligned_window P E = Some (Ok ())"
    unfolding test_read_at_handles_unaligned_window_def Let_def img(1) given.simps
    by (intro on_volume_passes passes_read_at [OF img(2)] passes_expect_then passes_expect) (auto simp: copy_at_def)
  obtain img where img: "build_backing E 0 (ramp 512) fixture_keys = Ok img"
      "holds_plain P (DecryptedVolume_new (cursor_new img) fixture_keys 0 (of_nat (length (ramp 512)))) (ramp 512)"
    using backed_volume [OF assms, of "ramp 512" 0] by auto
  show "test_read_at_truncates_to_volume_end P E = Some (Ok ())"
    unfolding test_read_at_truncates_to_volume_end_def Let_def img(1) given.simps
    by (intro on_volume_passes passes_read_at [OF img(2) [simplified]] passes_expect_then passes_expect)
      (auto simp: copy_at_def)
qed

lemma boundary_tests_pass:
  assumes "xts_documented P"
  shows "test_read_at_past_end_returns_zero P = Some (Ok ())"
    and "test_empty_buffer_reads_nothing P = Some (Ok ())"
    and "test_size_accessor = Ok ()" and "test_seek_out_of_range_errors = Ok ()"
    and "test_read_full_or_eof_stops_at_clean_eof sk = Some (Ok ())"
proof -
  note vol = fixture_volume [OF assms, of 0 512 "replicate 4096 0"]
  show "test_read_at_past_end_returns_zero P = Some (Ok ())"
    unfolding test_read_at_past_end_returns_zero_def
    by (intro on_volume_passes passes_read_at [OF vol(1)] passes_expect_then)
      (auto intro!: passes_read_at passes_expect simp: vol(2))
  show "test_empty_buffer_reads_nothing P = Some (Ok ())"
    unfolding test_empty_buffer_reads_nothing_def
    by (intro on_volume_passes passes_read_at [OF vol(1)] passes_expect) auto
  show "test_size_accessor = Ok ()"
    by (simp add: test_size_accessor_def DecryptedVolume_size_def DecryptedVolume_new_def)
  show "test_seek_out_of_range_errors = Ok ()"
    by (simp add: test_seek_out_of_range_errors_def DecryptedVolume_seek_def DecryptedVolume_new_def add_signed_def
        checked_add_def checked_sub_def)
  have "read_full_or_eof (eof_ops sk) buf () = Some ((), Ok buf)" for buf
    unfolding read_full_or_eof_def by (subst read_full_loop_simps) (simp add: eof_ops_def)
  then show "test_read_full_or_eof_stops_at_clean_eof sk = Some (Ok ())"
    unfolding test_read_full_or_eof_stops_at_clean_eof_def Let_def
    by (intro on_volume_passes passes_call passes_expect) auto
qed

lemma read_and_seek_test_passes:
  assumes "xts_documented P" and "encrypt_documented P E"
  shows "test_read_and_seek_impls P E = Some (Ok ())"
proof -
  obtain img where img: "build_backing E 0 (ramp 1024) fixture_keys = Ok img"
      "holds_plain P (DecryptedVolume_new (cursor_new img) fixture_keys 0 (of_nat (length (ramp 1024)))) (ramp 1024)"
    using backed_volume [OF assms, of "ramp 1024" 0] by auto
  have pos: "dv_position (DecryptedVolume_new r fixture_keys 0 sz) = 0" for r :: cursor and sz
    by (simp add: DecryptedVolume_new_def)
  have size: "dv_size dv = 1024" if "holds_plain P dv (ramp 1024)" for dv
    using that cur.volume_bytes_length [of P dv] by (auto simp: holds_plain_def word_unat_eq_iff)
  have seeks: "DecryptedVolume_seek dv (Start 512) = (dv\<lparr>dv_position := 512\<rparr>, Ok 512)"
      "dv_size dv = 1024 \<Longrightarrow> DecryptedVolume_seek dv (End 0) = (dv\<lparr>dv_position := 1024\<rparr>, Ok 1024)"
      "dv_position dv = 1024 \<Longrightarrow> DecryptedVolume_seek dv (Current (- 1024)) = (dv\<lparr>dv_position := 0\<rparr>, Ok 0)"
    for dv :: "cursor DecryptedVolume"
    by (simp_all add: DecryptedVolume_seek_def add_signed_def checked_add_def checked_sub_def)
  show ?thesis
    unfolding test_read_and_seek_impls_def Let_def img(1) given.simps
    by (intro on_volume_passes passes_read [OF img(2)] passes_expect_then)
      (auto intro!: passes_expect_then passes_expect passes_read passes_seek [OF _ seeks(1)]
        passes_seek [OF _ seeks(2)] passes_seek [OF _ seeks(3)] simp: pos copy_at_def size)
qed

lemma retry_test_passes: "test_read_full_or_eof_retries_interrupt_and_propagates_error sk = Some (Ok ())"
proof -
  let ?r = "\<lparr>fr_data = replicate 8 1, fr_pos = 0, fr_interrupted_once = False\<rparr>"
  have "read_full_loop (flaky_ops sk) (replicate 16 0) 0 ?r =
      read_full_loop (flaky_ops sk) (replicate 16 0) 0 (?r\<lparr>fr_interrupted_once := True\<rparr>)"
    by (subst read_full_loop_simps) (simp add: flaky_ops_def flaky_read_def)
  then show ?thesis
    using flaky_loop [of "?r\<lparr>fr_interrupted_once := True\<rparr>" 0 "replicate 16 0" sk]
    by (auto simp: test_read_full_or_eof_retries_interrupt_and_propagates_error_def copy_at_def)
qed

text \<open>
  What the tests of the XTS wrapper assert of the cipher itself is not part of its documented
  interface; the rest of them always holds.
\<close>

lemma xts_tests_outcome:
  assumes "xts_documented P" and "encrypt_documented P E"
  shows "test_decrypt_inverts_encrypt P E =
      (if encrypt_units E (ramp 1024) (replicate 16 0x11) (replicate 16 0x22) 512 5 = (Ok (ramp 1024) :: bytes fv)
       then Panic else Ok ())"
    and "test_tweak_index_matters P =
      (if decrypt_units P (replicate 512 0) (replicate 16 0x33) (replicate 16 0x44) 512 0 =
         (decrypt_units P (replicate 512 0) (replicate 16 0x33) (replicate 16 0x44) 512 1 :: bytes fv)
       then Panic else Ok ())"
proof -
  have "xts_keyed P (replicate 16 0x11) (replicate 16 0x22) 512" and k: "xts_keyed P (replicate 16 0x33) (replicate 16 0x44) 512"
    using assms(1) by (simp_all add: xts_keyed_def)
  from encrypt_area_inverse [OF assms(2) this(1), of 5 "ramp 1024"] obtain c where
    "xts_encrypt_area E (replicate 16 0x11) (replicate 16 0x22) 512 5 (ramp 1024) = Some c"
    "xts_decrypt_area P (replicate 16 0x11) (replicate 16 0x22) 512 5 c = Some (ramp 1024)"
    by auto
  then show "test_decrypt_inverts_encrypt P E =
      (if encrypt_units E (ramp 1024) (replicate 16 0x11) (replicate 16 0x22) 512 5 = (Ok (ramp 1024) :: bytes fv)
       then Panic else Ok ())"
    by (simp add: test_decrypt_inverts_encrypt_def encrypt_units_def decrypt_units_def assert_that_def)
  obtain x y :: bytes where
    "decrypt_units P (replicate 512 0) (replicate 16 0x33) (replicate 16 0x44) 512 0 = (Ok x :: bytes fv)"
    "decrypt_units P (replicate 512 0) (replicate 16 0x33) (replicate 16 0x44) 512 1 = (Ok y :: bytes fv)"
    using decrypt_units_cases [OF k, of 0 "replicate 512 0"] decrypt_units_cases [OF k, of 1 "replicate 512 0"] by auto
  then show "test_tweak_index_matters P =
      (if decrypt_units P (replicate 512 0) (replicate 16 0x33) (replicate 16 0x44) 512 0 =
         (decrypt_units P (replicate 512 0) (replicate 16 0x33) (replicate 16 0x44) 512 1 :: bytes fv)
       then Panic else Ok ())"
    by (simp add: test_tweak_index_matters_def assert_that_def)
qed

end
