(* ===== verification/Test_Support.thy ===== *)
theory Test_Support
  imports FileVault Plist
begin

text \<open>
  The synthetic CoreStorage image of the program's tests (\<open>core/src/test_support.rs\<close>): header, pointer
  block, encrypted metadata and encrypted logical volume. The builder is the encrypting counterpart
  of the whole pipeline, so its theorems are round trips through every component: for any
  cryptographic and encoding functions that behave as documented, the image it builds is audited
  and unlocked to exactly what was put into it.
\<close>

section \<open>Definitions\<close>

definition BLOCK :: nat where
  [const_defs]: "BLOCK = 4096"

definition PASSWORD :: bytes where
  "PASSWORD = str ''synthetic-pass''"

definition SALT :: bytes where
  "SALT = replicate 16 0xAB"

definition ITERS :: u32 where
  "ITERS = 1000"

definition KEK :: bytes where
  "KEK = replicate 16 0x10"

definition VMK :: bytes where
  "VMK = replicate 16 0x20"

definition KEY1 :: bytes where
  "KEY1 = replicate 16 0x30"

definition PV_ID :: bytes where
  "PV_ID = replicate 16 0x40"

definition FAMILY :: bytes where
  "FAMILY = [0x01, 0x02, 0x03, 0x04, 0x05, 0x06, 0x07, 0x08, 0x09, 0x0a, 0x0b, 0x0c, 0x0d, 0x0e, 0x0f, 0x10]"

definition LV_PHYS_BLOCK :: u64 where
  "LV_PHYS_BLOCK = 16"

definition LV_BLOCKS :: u32 where
  "LV_BLOCKS = 4"

definition wrap :: "encoders \<Rightarrow> bytes \<Rightarrow> bytes \<Rightarrow> bytes fv" where
  "wrap E kek key = or_panic (kw_wrap E kek key)"

definition set_block_type :: "u16 \<Rightarrow> bytes \<Rightarrow> bytes fv" where
  "set_block_type t = write_at 10 (to_le_bytes 2 t)"

text \<open>The two structs of the encryption context.\<close>

definition passphrase_blob :: "bytes \<Rightarrow> bytes fv" where
  "passphrase_blob wrapped_kek =
    chain (write_at 8 SALT (replicate 284 0)) (\<lambda>pw.
    chain (write_at 32 wrapped_kek pw) (\<lambda>pw.
      write_at 168 (to_le_bytes 4 ITERS) pw))"

definition volume_key_blob :: "bytes \<Rightarrow> bytes fv" where
  "volume_key_blob wrapped_vmk = write_at 8 wrapped_vmk (replicate 256 0)"

text \<open>The two property lists.\<close>

definition context_plist :: "bytes \<Rightarrow> bytes \<Rightarrow> bytes" where
  "context_plist pw kekw =
    str (''<dict ID=\"0\"><key>CryptoUsers</key><array ID=\"2\"><dict ID=\"3\">'' @
         ''<key>PassphraseWrappedKEKStruct</key><data ID=\"4\">'') @ pw @
    str (''</data><key>UserType</key><integer size=\"32\" ID=\"5\">0x10000001</integer>'' @
         ''<key>BlockAlgorithm</key><string ID=\"6\">AES-XTS</string>'' @
         ''<key>KEKWrappedVolumeKeyStruct</key><data ID=\"7\">'') @ kekw @
    str (''</data></dict></array>'' @
         ''<key>ConversionStatus</key><string ID=\"8\">Complete</string></dict>'')"

definition lv_plist :: "bytes \<Rightarrow> bytes" where
  "lv_plist fam_uuid =
    str (''<dict ID=\"0\">'' @
         ''<key>com.apple.corestorage.lv.familyUUID</key><string ID=\"1\">'') @ fam_uuid @
    str (''</string><key>com.apple.corestorage.lv.name</key><string ID=\"2\">SynthLV</string>'' @
         ''<key>com.apple.corestorage.lv.uuid</key><string ID=\"3\">00000000-0000-0000-0000-000000000001</string>'' @
         ''<key>com.apple.corestorage.lv.size</key><integer size=\"64\" ID=\"4\">0x4000</integer></dict>'')"

definition build_decrypted_metadata :: "prims \<Rightarrow> encoders \<Rightarrow> bytes fv" where
  "build_decrypted_metadata P E =
    chain (or_panic (pbkdf2_sha256 P PASSWORD SALT ITERS)) (\<lambda>pk.
    chain (wrap E pk KEK) (\<lambda>wrapped_kek.
    chain (wrap E KEK VMK) (\<lambda>wrapped_vmk.
    chain (passphrase_blob wrapped_kek) (\<lambda>pw.
    chain (volume_key_blob wrapped_vmk) (\<lambda>kekw.
    let body = context_plist (base64_encode E pw) (base64_encode E kekw);
        lb = lv_plist (uuid_hyphenated P FAMILY);
        base = 2 * BLOCK; payload = base + 64; entry = payload + 8;
        phys = LV_PHYS_BLOCK OR push_bit 48 0x99
    in
    chain (on_slice 0 BLOCK (set_block_type 0x0013) (replicate (BLOCK * 3) 0)) (\<lambda>meta.
    chain (write_at 64 body meta) (\<lambda>meta.
    chain (on_slice BLOCK (2 * BLOCK) (set_block_type 0x001a) meta) (\<lambda>meta.
    chain (write_at (BLOCK + 64) lb meta) (\<lambda>meta.
    chain (on_slice base (base + BLOCK) (set_block_type 0x0305) meta) (\<lambda>meta.
    chain (write_at payload (to_le_bytes 4 (1 :: u32)) meta) (\<lambda>meta.
    chain (write_at (entry + 8) (to_le_bytes 8 (0 :: u64)) meta) (\<lambda>meta.
    chain (write_at (entry + 16) (to_le_bytes 4 LV_BLOCKS) meta) (\<lambda>meta.
      write_at (entry + 32) (to_le_bytes 8 phys) meta)))))))))))))"

text \<open>The plaintext metadata region of one block, with the pointer to the encrypted metadata.\<close>

definition pointer_region :: "nat \<Rightarrow> u64 \<Rightarrow> bytes fv" where
  "pointer_region meta_len enc_meta_block =
    (let meta_size = of_nat BLOCK :: u32; desc_off = 200 :: u32; d = unat desc_off in
     chain (set_block_type 0x0011 (replicate BLOCK 0)) (\<lambda>region.
     chain (write_at 64 (to_le_bytes 4 meta_size) region) (\<lambda>region.
     chain (write_at (64 + 156) (to_le_bytes 4 desc_off) region) (\<lambda>region.
     chain (write_at (d + 8) (to_le_bytes 8 (of_nat meta_len div of_nat BLOCK :: u64)) region) (\<lambda>region.
       write_at (d + 32) (to_le_bytes 8 enc_meta_block) region)))))"

definition lv_ramp :: bytes where
  "lv_ramp = map (\<lambda>i. of_nat (i AND 0xff)) [0..<unat LV_BLOCKS * BLOCK]"

definition header_writes :: "nat \<Rightarrow> u64 \<Rightarrow> bytes \<Rightarrow> bytes fv" where
  "header_writes total_len plaintext_meta_block img =
    chain (write_at 88 (str ''C'') img) (\<lambda>img.
    chain (write_at 89 (str ''S'') img) (\<lambda>img.
    chain (write_at 48 (to_le_bytes 4 (512 :: u32)) img) (\<lambda>img.
    chain (write_at 96 (to_le_bytes 4 (of_nat BLOCK :: u32)) img) (\<lambda>img.
    chain (write_at 64 (to_le_bytes 8 (of_nat total_len :: u64)) img) (\<lambda>img.
    chain (write_at 172 (to_le_bytes 4 (2 :: u32)) img) (\<lambda>img.
    chain (write_at 104 (to_le_bytes 8 plaintext_meta_block) img) (\<lambda>img.
    chain (write_at 176 KEY1 img) (\<lambda>img.
      write_at 304 PV_ID img))))))))"

definition build_image :: "prims \<Rightarrow> encoders \<Rightarrow> bytes fv" where
  "build_image P E =
    (let enc_meta_block = 8 :: u64; plaintext_meta_block = 1 :: u64 in
     chain (build_decrypted_metadata P E) (\<lambda>plain_meta.
     chain (encrypt_units E plain_meta KEY1 PV_ID 8192 0) (\<lambda>enc_meta.
     chain (pointer_region (length plain_meta) enc_meta_block) (\<lambda>region.
     chain (or_panic (slice_get (sha256 P (VMK @ FAMILY)) 0 16)) (\<lambda>tweak_key.
     chain (encrypt_units E lv_ramp VMK tweak_key 512 0) (\<lambda>lv_cipher.
     let total_len = (unat LV_PHYS_BLOCK + unat LV_BLOCKS) * BLOCK in
     chain (header_writes total_len plaintext_meta_block (replicate total_len 0)) (\<lambda>img.
     chain (write_at (unat plaintext_meta_block * BLOCK) region img) (\<lambda>img.
     chain (write_at (unat enc_meta_block * BLOCK) enc_meta img) (\<lambda>img.
       write_at (unat LV_PHYS_BLOCK * BLOCK) lv_cipher img)))))))))"

section \<open>The metadata, block by block\<close>

definition synthetic_segment :: SegmentEntry where
  "synthetic_segment = \<lparr>seg_logical_block = 0, seg_physical_block = LV_PHYS_BLOCK, seg_number_of_blocks = LV_BLOCKS\<rparr>"

text \<open>A block of text: the 64-byte block header with its type, the text, zeros.\<close>

definition type_header :: "u16 \<Rightarrow> bytes" where
  "type_header t = replicate 10 0 @ to_le_bytes 2 t @ replicate 52 0"

definition text_block :: "u16 \<Rightarrow> bytes \<Rightarrow> bytes" where
  "text_block t body = type_header t @ body @ replicate (4032 - length body) 0"

lemma length_type_header [simp]: "length (type_header t) = 64"
  by (simp add: type_header_def)

lemma length_text_block [simp]: "length body \<le> 4032 \<Longrightarrow> length (text_block t body) = 4096"
  by (simp add: text_block_def)

lemma text_block_copy:
  "length body \<le> 4032 \<Longrightarrow>
    copy_at 64 body (copy_at 10 (to_le_bytes 2 t) (replicate 4096 0)) = text_block t body"
  by (simp add: copy_at_def text_block_def type_header_def)

lemma segment_block_copy:
  "copy_at 104 (to_le_bytes 8 (LV_PHYS_BLOCK OR 0x0099000000000000))
    (copy_at 88 (to_le_bytes 4 LV_BLOCKS)
    (copy_at 80 (to_le_bytes 8 (0 :: u64))
    (text_block 0x0305 (to_le_bytes 4 (1 :: u32))))) =
    encode_segment_block 4096 0x99 [synthetic_segment]"
  by (simp add: copy_at_def text_block_def type_header_def encode_segment_block_def encode_segment_def
      synthetic_segment_def const_defs replicate_add [symmetric])

definition synthetic_metadata :: "bytes \<Rightarrow> bytes \<Rightarrow> bytes \<Rightarrow> bytes" where
  "synthetic_metadata pw kekw fam =
    text_block 0x0013 (context_plist pw kekw) @ text_block 0x001a (lv_plist fam) @
    encode_segment_block 4096 0x99 [synthetic_segment]"

lemma length_context_plist: "length (context_plist pw kekw) = length pw + length kekw + 377"
  by (simp add: context_plist_def)

lemma length_lv_plist: "length (lv_plist fam) = length fam + 343"
  by (simp add: lv_plist_def)

text \<open>What the primitives give, for documented crates.\<close>

definition crates_documented :: "prims \<Rightarrow> encoders \<Rightarrow> bool" where
  "crates_documented P E \<longleftrightarrow> xts_documented P \<and> kdf_documented P \<and> uuid_documented P \<and>
    encrypt_documented P E \<and> wrapping_documented P E \<and> text_documented P E"

definition passphrase_struct_bytes :: "bytes \<Rightarrow> bytes" where
  "passphrase_struct_bytes wk =
    replicate 8 0 @ SALT @ replicate 8 0 @ wk @ replicate 112 0 @ to_le_bytes 4 ITERS @ replicate 112 0"

definition volume_key_struct_bytes :: "bytes \<Rightarrow> bytes" where
  "volume_key_struct_bytes wv = replicate 8 0 @ wv @ replicate 224 0"

lemma blobs:
  assumes "length w = 24"
  shows "passphrase_blob w = Ok (passphrase_struct_bytes w)"
    and "volume_key_blob w = Ok (volume_key_struct_bytes w)"
  using assms
  by (simp_all add: passphrase_blob_def volume_key_blob_def passphrase_struct_bytes_def
      volume_key_struct_bytes_def copy_at_def SALT_def)

lemma length_blobs:
  "length w = 24 \<Longrightarrow> length (passphrase_struct_bytes w) = 284"
  "length w = 24 \<Longrightarrow> length (volume_key_struct_bytes w) = 256"
  by (simp_all add: passphrase_struct_bytes_def volume_key_struct_bytes_def SALT_def)

lemma constant_lengths [simp]:
  "length SALT = 16" "length KEK = 16" "length VMK = 16" "length KEY1 = 16" "length PV_ID = 16"
  "length FAMILY = 16"
  by (simp_all add: SALT_def KEK_def VMK_def KEY1_def PV_ID_def FAMILY_def)

text \<open>The passphrase key and the two wrapped keys.\<close>

definition wraps :: "prims \<Rightarrow> encoders \<Rightarrow> bytes \<Rightarrow> bytes \<Rightarrow> bytes \<Rightarrow> bool" where
  "wraps P E pk wk wv \<longleftrightarrow>
    pbkdf2_sha256 P PASSWORD SALT ITERS = Some pk \<and> length pk = 16 \<and>
    kw_wrap E pk KEK = Some wk \<and> length wk = 24 \<and> kw_unwrap P pk wk = Some KEK \<and>
    kw_wrap E KEK VMK = Some wv \<and> length wv = 24 \<and> kw_unwrap P KEK wv = Some VMK"

lemma wraps_exist:
  assumes "crates_documented P E"
  obtains pk wk wv where "wraps P E pk wk wv"
proof -
  have "0 < ITERS"
    by (simp add: ITERS_def)
  then obtain pk where pk: "pbkdf2_sha256 P PASSWORD SALT ITERS = Some pk" "length pk = 16"
    using assms unfolding crates_documented_def kdf_documented_def by blast
  have wrap: "\<exists>w. kw_wrap E a b = Some w \<and> length w = 24 \<and> kw_unwrap P a w = Some b"
    if "length a = 16" "length b = 16" for a b
    using assms that unfolding crates_documented_def wrapping_documented_def by blast
  obtain wk wv where "kw_wrap E pk KEK = Some wk \<and> length wk = 24 \<and> kw_unwrap P pk wk = Some KEK"
      "kw_wrap E KEK VMK = Some wv \<and> length wv = 24 \<and> kw_unwrap P KEK wv = Some VMK"
    using wrap [of pk KEK] wrap [of KEK VMK] pk(2) by auto
  then show thesis
    using that pk unfolding wraps_def by blast
qed

definition metadata_of :: "prims \<Rightarrow> encoders \<Rightarrow> bytes \<Rightarrow> bytes \<Rightarrow> bytes" where
  "metadata_of P E wk wv =
    synthetic_metadata (base64_encode E (passphrase_struct_bytes wk))
      (base64_encode E (volume_key_struct_bytes wv)) (uuid_hyphenated P FAMILY)"

lemma text_lengths:
  assumes "crates_documented P E" and "wraps P E pk wk wv"
  shows "length (base64_encode E (passphrase_struct_bytes wk)) = 380"
    and "length (base64_encode E (volume_key_struct_bytes wv)) = 344"
    and "length (uuid_hyphenated P FAMILY) = 36"
  using assms length_blobs
  by (simp_all add: crates_documented_def text_documented_def wraps_def)

lemma zeros_three: "replicate 12288 x = replicate 4096 x @ replicate 4096 x @ replicate 4096 x"
  by (simp add: replicate_add [symmetric])

lemma build_decrypted_metadata_eq:
  assumes "crates_documented P E" and "wraps P E pk wk wv"
  shows "build_decrypted_metadata P E = Ok (metadata_of P E wk wv)"
    and "length (metadata_of P E wk wv) = 12288"
proof -
  note len = text_lengths [OF assms]
  have seg: "length (encode_segment_block 4096 0x99 [synthetic_segment]) = 4096"
    by (simp add: encode_segment_block_def)
  show "length (metadata_of P E wk wv) = 12288"
    using len seg by (simp add: metadata_of_def synthetic_metadata_def length_context_plist length_lv_plist)
  show "build_decrypted_metadata P E = Ok (metadata_of P E wk wv)"
    using assms(2) len
    by (simp add: build_decrypted_metadata_def wraps_def wrap_def blobs BLOCK_def zeros_three
        set_block_type_def on_slice_write copy_at_left copy_at_right length_context_plist length_lv_plist
        text_block_copy segment_block_copy metadata_of_def synthetic_metadata_def)
qed

section \<open>The image, part by part\<close>

definition synthetic_header :: VolumeHeader where
  "synthetic_header =
    \<lparr>vh_block_size = 4096, vh_bytes_per_sector = 512, vh_physical_volume_size = 81920,
     vh_metadata_block_numbers = [1, 0, 0, 0], vh_key_data = KEY1, vh_physical_volume_identifier = PV_ID\<rparr>"

definition header_block :: bytes where
  "header_block =
    copy_at 304 PV_ID
    (copy_at 176 KEY1
    (copy_at 104 (to_le_bytes 8 (1 :: u64))
    (copy_at 172 (to_le_bytes 4 (2 :: u32))
    (copy_at 64 (to_le_bytes 8 (81920 :: u64))
    (copy_at 96 (to_le_bytes 4 (4096 :: u32))
    (copy_at 48 (to_le_bytes 4 (512 :: u32))
    (copy_at 88 (to_le_bytes 2 CS_SIGNATURE_LE) (replicate 4096 0))))))))"

lemma length_header_block [simp]: "length header_block = 4096"
  by (simp add: header_block_def)

lemma header_writes_eq: "header_writes 81920 1 (replicate 81920 0) = Ok (header_block @ replicate 77824 0)"
proof -
  have zeros: "replicate 81920 (0 :: u8) = replicate 4096 0 @ replicate 77824 0"
    by (simp add: replicate_add [symmetric])
  show ?thesis
    unfolding zeros
    by (simp add: header_writes_def header_block_def copy_at_left BLOCK_def signature_bytes del: str_Cons)
qed

lemma header_block_parse: "parse (take 512 header_block) = Ok synthetic_header"
proof -
  have "signature_of header_block = CS_SIGNATURE_LE" "method_of header_block = ENCRYPTION_METHOD_AES_XTS_128"
    by (simp_all add: header_block_def field_copied from_le_to_le const_defs)
  moreover have "header_fields header_block = synthetic_header"
    by (simp add: header_fields_def synthetic_header_def header_block_def field_copied from_le_to_le
        upt_rec field_zeros)
  moreover have "header_fields (take 512 header_block) = header_fields header_block"
    by (simp add: header_fields_def field_take upt_rec)
  ultimately show ?thesis
    by (simp add: parse_eq field_take)
qed

definition region_block :: bytes where
  "region_block =
    copy_at 232 (to_le_bytes 8 (8 :: u64))
    (copy_at 208 (to_le_bytes 8 (3 :: u64))
    (copy_at 220 (to_le_bytes 4 (200 :: u32))
    (copy_at 64 (to_le_bytes 4 (4096 :: u32))
    (copy_at 10 (to_le_bytes 2 (0x0011 :: u16)) (replicate 4096 0)))))"

lemma length_region_block [simp]: "length region_block = 4096"
  by (simp add: region_block_def)

lemma pointer_region_eq: "pointer_region 12288 8 = Ok region_block"
  by (simp add: pointer_region_def region_block_def set_block_type_def BLOCK_def Let_def)

lemma region_block_fields:
  "type_field region_block = 0x0011" "size_field region_block = 4096"
  "(field_at 4 from_le_bytes 0 region_block 220 :: u32) = 200"
  "field_at 8 from_le_bytes 0 region_block 208 = (3 :: u64)"
  "field_at 8 from_le_bytes 0 region_block 232 = (8 :: u64)"
  by (simp_all add: region_block_def field_copied from_le_to_le)

definition synthetic_image :: "bytes \<Rightarrow> bytes \<Rightarrow> bytes" where
  "synthetic_image em lc =
    header_block @ region_block @ replicate 24576 0 @ em @ replicate 20480 0 @ lc"

definition synthetic_keys :: "prims \<Rightarrow> VolumeKeys" where
  "synthetic_keys P = \<lparr>vk_vmk = VMK, vk_tweak_key = take 16 (sha256 P (VMK @ FAMILY))\<rparr>"

lemma length_lv_ramp [simp]: "length lv_ramp = 16384"
  by (simp add: lv_ramp_def LV_BLOCKS_def BLOCK_def)

lemma synthetic_keys_ok: "crates_documented P E \<Longrightarrow> keys_ok (synthetic_keys P)"
  by (simp add: crates_documented_def kdf_documented_def keys_ok_def synthetic_keys_def)

text \<open>Both encryptions succeed and are inverted by decryption.\<close>

lemma encrypt_invertible:
  assumes "crates_documented P E" and "length k1 = 16" and "length k2 = 16" and "16 \<le> u"
    and "length b mod u = 0 \<or> 16 \<le> length b mod u" and "length b div u < 2 ^ 128"
  obtains c where "encrypt_units E b k1 k2 u 0 = (Ok c :: bytes fv)" and "length c = length b"
    and "xts_decrypt_area P k1 k2 u 0 c = Some b"
  using encrypt_area_inverse [of P E k1 k2 u 0 b] assms
  by (auto simp: crates_documented_def xts_keyed_def encrypt_units_def split: if_splits)

definition ciphers :: "prims \<Rightarrow> encoders \<Rightarrow> bytes \<Rightarrow> bytes \<Rightarrow> bytes \<Rightarrow> bool" where
  "ciphers P E md em lc \<longleftrightarrow>
    length em = length md \<and> xts_decrypt_area P KEY1 PV_ID 8192 0 em = Some md \<and>
    length lc = 16384 \<and>
    xts_decrypt_area P (vk_vmk (synthetic_keys P)) (vk_tweak_key (synthetic_keys P)) 512 0 lc = Some lv_ramp"

lemma build_image_eq:
  assumes "crates_documented P E" and "wraps P E pk wk wv"
  obtains em lc where "ciphers P E (metadata_of P E wk wv) em lc"
    and "build_image P E = Ok (synthetic_image em lc)"
proof -
  let ?md = "metadata_of P E wk wv" and ?K = "synthetic_keys P"
  note md = build_decrypted_metadata_eq [OF assms]
  have keys: "length (vk_vmk ?K) = 16" "length (vk_tweak_key ?K) = 16"
    using synthetic_keys_ok [OF assms(1)] by (simp_all add: keys_ok_def)
  obtain em where em: "encrypt_units E ?md KEY1 PV_ID 8192 0 = (Ok em :: bytes fv)" "length em = 12288"
      "xts_decrypt_area P KEY1 PV_ID 8192 0 em = Some ?md"
    using encrypt_invertible [OF assms(1), of KEY1 PV_ID 8192 ?md] md(2) by auto
  obtain lc where lc: "encrypt_units E lv_ramp (vk_vmk ?K) (vk_tweak_key ?K) 512 0 = (Ok lc :: bytes fv)"
      "length lc = 16384" "xts_decrypt_area P (vk_vmk ?K) (vk_tweak_key ?K) 512 0 lc = Some lv_ramp"
    using encrypt_invertible [OF assms(1) keys, of 512 lv_ramp] by auto
  have "slice_get (sha256 P (VMK @ FAMILY)) 0 16 = Some (vk_tweak_key ?K)"
    using assms(1)
    by (simp add: slice_get_def synthetic_keys_def crates_documented_def kdf_documented_def)
  moreover have "copy_at 65536 lc (copy_at 32768 em (copy_at 4096 region_block (header_block @ replicate 77824 0))) =
      synthetic_image em lc"
    using em(2) lc(2) by (simp add: copy_at_def synthetic_image_def replicate_add [symmetric])
  ultimately have "build_image P E = Ok (synthetic_image em lc)"
    using md em(1,2) lc(1,2)
    by (simp add: build_image_def LV_PHYS_BLOCK_def LV_BLOCKS_def BLOCK_def header_writes_eq
        pointer_region_eq synthetic_keys_def Let_def)
  then show thesis
    using that em lc md(2) unfolding ciphers_def by simp
qed

section \<open>What the pipeline finds in it\<close>

lemma synthetic_length: "ciphers P E md em lc \<Longrightarrow> length md = 12288 \<Longrightarrow> length (synthetic_image em lc) = 81920"
  by (simp add: synthetic_image_def ciphers_def)

lemma synthetic_header_read: "chain (image_at (synthetic_image em lc) 0 512) parse = Ok synthetic_header"
  using header_block_parse by (simp add: image_at_def synthetic_image_def)

lemma synthetic_metadata_spec:
  assumes "ciphers P E md em lc" and "length md = 12288"
  shows "metadata_spec P (synthetic_image em lc) synthetic_header = Ok md"
proof -
  let ?img = "synthetic_image em lc"
  have len: "length em = 12288" "length lc = 16384"
    using assms by (simp_all add: ciphers_def)
  have at: "image_at ?img 4096 4096 = Ok region_block" "image_at ?img 32768 12288 = Ok em"
    using len by (simp_all add: image_at_def synthetic_image_def)
  have region: "fst (plaintext_metadata_region synthetic_header) = 4096"
    by (simp add: plaintext_metadata_region_def synthetic_header_def saturating_mul_def Let_def)
  have size: "plaintext_metadata_size synthetic_header region_block = Ok 4096"
    by (simp add: plaintext_metadata_size_eq region_block_fields synthetic_header_def)
  have loc: "locate_encrypted_metadata synthetic_header region_block =
      Ok \<lparr>em_primary_offset = 32768, em_block_count = 3, em_length = 12288\<rparr>"
    by (simp add: locate_encrypted_metadata_eq region_block_fields synthetic_header_def BLOCK_NUMBER_MASK_def)
  have "decrypt_metadata P synthetic_header em = Ok md"
    using assms by (simp add: decrypt_metadata_def decrypt_units_def ciphers_def synthetic_header_def const_defs)
  moreover have "vh_block_size synthetic_header = 4096"
    by (simp add: synthetic_header_def)
  ultimately show ?thesis
    using at by (simp add: metadata_spec_def region size loc)
qed

section \<open>The metadata as segments\<close>

definition context_segs :: "bytes \<Rightarrow> bytes \<Rightarrow> bytes list" where
  "context_segs pw kekw =
    [str ''dict ID=\"0\">'', str ''key>CryptoUsers'', str ''/key>'', str ''array ID=\"2\">'', str ''dict ID=\"3\">''] @
    pair_segs ''PassphraseWrappedKEKStruct'' ''data ID='' ''\"4\"'' pw ''/data>'' @
    pair_segs ''UserType'' ''integer'' '' size=\"32\" ID=\"5\"'' (str ''0x10000001'') ''/integer>'' @
    pair_segs ''BlockAlgorithm'' ''string ID='' ''\"6\"'' (str ''AES-XTS'') ''/string>'' @
    pair_segs ''KEKWrappedVolumeKeyStruct'' ''data ID='' ''\"7\"'' kekw ''/data>'' @
    [str ''/dict>'', str ''/array>''] @
    pair_segs ''ConversionStatus'' ''string ID='' ''\"8\"'' (str ''Complete'') ''/string>''"

definition lv_segs :: "bytes \<Rightarrow> bytes list" where
  "lv_segs fam =
    [str ''dict ID=\"0\">''] @
    pair_segs ''com.apple.corestorage.lv.familyUUID'' ''string ID='' ''\"1\"'' fam ''/string>'' @
    pair_segs ''com.apple.corestorage.lv.name'' ''string ID='' ''\"2\"'' (str ''SynthLV'') ''/string>'' @
    pair_segs ''com.apple.corestorage.lv.uuid'' ''string ID='' ''\"3\"''
      (str ''00000000-0000-0000-0000-000000000001'') ''/string>'' @
    pair_segs ''com.apple.corestorage.lv.size'' ''integer'' '' size=\"64\" ID=\"4\"'' (str ''0x4000'') ''/integer>''"

lemma plists_as_segs:
  "context_plist pw kekw = segs (context_segs pw kekw @ [str ''/dict>''])"
  "lv_plist fam = segs (lv_segs fam @ [str ''/dict>''])"
  by (simp_all add: context_plist_def context_segs_def lv_plist_def lv_segs_def pair_segs_def)

definition metadata_segs :: "bytes \<Rightarrow> bytes \<Rightarrow> bytes \<Rightarrow> bytes list" where
  "metadata_segs pw kekw fam =
    context_segs pw kekw @
    [str ''/dict>'' @ replicate (4032 - length (context_plist pw kekw)) 0 @ type_header 0x001a] @
    lv_segs fam @
    [str ''/dict>'' @ replicate (4032 - length (lv_plist fam)) 0 @
      encode_segment_block 4096 0x99 [synthetic_segment]]"

lemma synthetic_metadata_segs:
  "synthetic_metadata pw kekw fam = type_header 0x0013 @ segs (metadata_segs pw kekw fam)"
proof -
  have "segs [s @ t] = segs [s] @ t" for s t
    by simp
  then show ?thesis
    by (simp only: synthetic_metadata_def metadata_segs_def text_block_def plists_as_segs segs_append
        append_assoc)
qed

lemma no_bracket_blocks:
  "lt \<notin> set (type_header 0x0013)" "lt \<notin> set (type_header 0x001a)"
  "lt \<notin> set (encode_segment_block 4096 0x99 [synthetic_segment])"
  by (simp_all add: type_header_def encode_segment_block_def encode_segment_def synthetic_segment_def
      const_defs to_le_bytes_def upt_rec LV_PHYS_BLOCK_def LV_BLOCKS_def)

section \<open>The values found\<close>

text \<open>Metadata of the synthetic form, whatever the three texts in it.\<close>

definition texts_ok :: "bytes \<Rightarrow> bytes \<Rightarrow> bytes \<Rightarrow> bool" where
  "texts_ok pw kekw fam \<longleftrightarrow> list_all base64_byte pw \<and> list_all base64_byte kekw \<and> list_all uuid_byte fam \<and>
    length pw \<le> 1000 \<and> length kekw \<le> 1000 \<and> length fam = 36"

lemma synthetic_metadata_length: "texts_ok pw kekw fam \<Longrightarrow> length (synthetic_metadata pw kekw fam) = 12288"
  by (simp add: texts_ok_def synthetic_metadata_def length_context_plist length_lv_plist encode_segment_block_def)

lemmas synthetic_segs = metadata_segs_def context_segs_def lv_segs_def

text \<open>The text of a string pair, in the metadata, by the place of the pair among the segments.\<close>

lemma synthetic_string:
  assumes "texts_ok pw kekw fam"
    and "window n 4 (metadata_segs pw kekw fam) = pair_segs k ''string ID='' attrs v ''/string>''"
    and "free_of (str k) (take n (metadata_segs pw kekw fam))"
    and "CHR ''<'' \<notin> set k" and "CHR ''>'' \<notin> set attrs" and "lt \<notin> set v" and "utf8_valid v"
  shows "extract_string (synthetic_metadata pw kekw fam) (str k) = Some v"
  using extract_string_segs [of "synthetic_metadata pw kekw fam" "type_header 0x0013" "metadata_segs pw kekw fam" "[]"]
    assms synthetic_metadata_length [OF assms(1)] no_bracket_blocks(1)
  by (simp add: synthetic_metadata_segs)

lemma synthetic_strings:
  assumes "texts_ok pw kekw fam"
  shows "extract_string (synthetic_metadata pw kekw fam) (str ''ConversionStatus'') = Some (str ''Complete'')"
    and "extract_string (synthetic_metadata pw kekw fam) (str ''com.apple.corestorage.lv.familyUUID'') = Some fam"
    and "extract_string (synthetic_metadata pw kekw fam) (str ''com.apple.corestorage.lv.name'') = Some (str ''SynthLV'')"
    and "extract_string (synthetic_metadata pw kekw fam) (str ''com.apple.corestorage.lv.uuid'') =
      Some (str ''00000000-0000-0000-0000-000000000001'')"
proof -
  have clear: "lt \<notin> set pw" "lt \<notin> set kekw" "lt \<notin> set fam" "utf8_valid fam"
    using assms base64_clear(1) uuid_clear by (auto simp: texts_ok_def)
  note simps = synthetic_segs clear no_bracket_blocks
  show "extract_string (synthetic_metadata pw kekw fam) (str ''ConversionStatus'') = Some (str ''Complete'')"
    by (rule synthetic_string [OF assms, where n = 23 and attrs = "''\"8\"''"])
      (simp_all add: simps, simp_all add: pair_segs_def simps)
  show "extract_string (synthetic_metadata pw kekw fam) (str ''com.apple.corestorage.lv.familyUUID'') = Some fam"
    by (rule synthetic_string [OF assms, where n = 29 and attrs = "''\"1\"''"])
      (simp_all add: simps, simp_all add: pair_segs_def simps)
  show "extract_string (synthetic_metadata pw kekw fam) (str ''com.apple.corestorage.lv.name'') = Some (str ''SynthLV'')"
    by (rule synthetic_string [OF assms, where n = 33 and attrs = "''\"2\"''"])
      (simp_all add: simps, simp_all add: pair_segs_def simps)
  show "extract_string (synthetic_metadata pw kekw fam) (str ''com.apple.corestorage.lv.uuid'') =
      Some (str ''00000000-0000-0000-0000-000000000001'')"
    by (rule synthetic_string [OF assms, where n = 37 and attrs = "''\"3\"''"])
      (simp_all add: simps, simp_all add: pair_segs_def simps)
qed

lemma synthetic_integers:
  "parse_integer_text (str ''0x10000001'') = Some (0x10000001 :: u32)"
  "parse_integer_text (str ''0x4000'') = Some (0x4000 :: u64)"
proof -
  have "integer_text True (0x10000001 :: u32) = str ''0x10000001''"
    "integer_text True (0x4000 :: u64) = str ''0x4000''"
    by (simp_all add: integer_text_def show_radix.simps digit_byte)
  then show "parse_integer_text (str ''0x10000001'') = Some (0x10000001 :: u32)"
    "parse_integer_text (str ''0x4000'') = Some (0x4000 :: u64)"
    by (metis parse_integer_text_printed)+
qed

lemma synthetic_lv_size:
  assumes "texts_ok pw kekw fam"
  shows "extract_lv_size (synthetic_metadata pw kekw fam) = Some 0x4000"
proof -
  have clear: "lt \<notin> set pw" "lt \<notin> set kekw" "lt \<notin> set fam"
    using assms base64_clear(1) uuid_clear by (auto simp: texts_ok_def)
  note simps = synthetic_segs clear no_bracket_blocks
  have "\<exists>e. extract_u64_integer (synthetic_metadata pw kekw fam) (str ''com.apple.corestorage.lv.size'') =
      Some (0x4000, e)"
  proof (intro exI, rule extract_u64_segs [where n = 41 and attrs = "'' size=\"64\" ID=\"4\"''" and v = "str ''0x4000''"])
    show "synthetic_metadata pw kekw fam = type_header 0x0013 @ segs (metadata_segs pw kekw fam) @ []"
      by (simp add: synthetic_metadata_segs)
    show "length (synthetic_metadata pw kekw fam) < 2 ^ 63"
      using synthetic_metadata_length [OF assms] by simp
    show "parse_integer_text (str ''0x4000'') = Some (0x4000 :: u64)"
      by (rule synthetic_integers)
  qed (simp_all add: simps, simp_all add: pair_segs_def simps)
  then show ?thesis
    by (auto simp: extract_lv_size_def simp del: str_Cons)
qed

lemma synthetic_lv_info:
  assumes "texts_ok pw kekw fam"
  shows "extract_lv_info (synthetic_metadata pw kekw fam) =
    Ok \<lparr>lv_size = 0x4000, lv_family_uuid = fam,
        lv_identifier = Some (str ''00000000-0000-0000-0000-000000000001''), lv_name = Some (str ''SynthLV'')\<rparr>"
  using synthetic_strings [OF assms] synthetic_lv_size [OF assms]
  by (simp add: extract_lv_info_def del: str_Cons)

lemma synthetic_protectors:
  assumes "texts_ok pw kekw fam"
  shows "extract_protectors (synthetic_metadata pw kekw fam) =
    [\<lparr>pr_user_type = 0x10000001, pr_kind = Password\<rparr>]"
proof -
  let ?md = "synthetic_metadata pw kekw fam" and ?L = "metadata_segs pw kekw fam"
  let ?e = "length (type_header 0x0013 @ segs (take 13 ?L))"
  have clear: "lt \<notin> set pw" "lt \<notin> set kekw" "lt \<notin> set fam"
    using assms base64_clear(1) uuid_clear by (auto simp: texts_ok_def)
  note simps = synthetic_segs clear no_bracket_blocks
  have "extract_integer_from ?md (str ''UserType'') (length ([] :: bytes)) =
      Some (0x10000001, length ([] @ type_header 0x0013 @ segs (take (9 + 4) ?L)))"
  proof (rule extract_integer_segs [where attrs = "'' size=\"32\" ID=\"5\"''" and v = "str ''0x10000001''"])
    show "?md = [] @ type_header 0x0013 @ segs ?L @ []"
      by (simp add: synthetic_metadata_segs)
    show "length ?md < 2 ^ 63"
      using synthetic_metadata_length [OF assms] by simp
    show "parse_integer_text (str ''0x10000001'') = Some (0x10000001 :: u32)"
      by (rule synthetic_integers)
  qed (simp_all add: simps, simp_all add: pair_segs_def simps)
  then have one: "extract_integer_from ?md (str ''UserType'') 0 = Some (0x10000001, ?e)"
    by (simp del: str_Cons)
  have "drop ?e ?md = [] @ segs (drop 13 ?L)"
    using segs_append [of "take 13 ?L" "drop 13 ?L"] by (simp add: synthetic_metadata_segs)
  moreover have "free_of (str ''UserType'') (drop 13 ?L)"
    by (simp add: simps, simp add: pair_segs_def simps)
  then have "find_sub ([] @ segs (drop 13 ?L)) (key_tag (str ''UserType'')) = None"
    by (intro no_key) simp_all
  ultimately have two: "extract_integer_from ?md (str ''UserType'') ?e = None"
    using extract_none [of ?e ?md "str ''UserType''"] by (simp add: extract_integer_from_def del: str_Cons length_append)
  show ?thesis
    unfolding extract_protectors_def
    by (subst protectors_loop.simps, subst protectors_loop.simps)
      (simp add: one two protector_of_def from_user_type_def del: str_Cons length_append)
qed

lemma synthetic_passphrase_struct:
  assumes "texts_ok pw kekw fam"
  shows "extract_data P (synthetic_metadata pw kekw fam) (str ''PassphraseWrappedKEKStruct'') = base64_decode P pw"
proof (rule extract_data_segs [where n = 5 and attrs = "''\"4\"''"])
  show "synthetic_metadata pw kekw fam = type_header 0x0013 @ segs (metadata_segs pw kekw fam) @ []"
    by (simp add: synthetic_metadata_segs)
  show "length (synthetic_metadata pw kekw fam) < 2 ^ 63"
    using synthetic_metadata_length [OF assms] by simp
qed (use assms base64_clear [of pw] in \<open>simp_all add: texts_ok_def synthetic_segs no_bracket_blocks\<close>)

lemma synthetic_volume_key_struct:
  assumes "texts_ok pw kekw fam" and "base64_decode P kekw = Some blob"
  shows "extract_kek_wrapped_aes_xts P (synthetic_metadata pw kekw fam) = Some blob"
proof -
  let ?md = "synthetic_metadata pw kekw fam" and ?L = "metadata_segs pw kekw fam"
  let ?e = "length (type_header 0x0013 @ segs (take 17 ?L))"
  have clear: "lt \<notin> set pw" "lt \<notin> set kekw" "lt \<notin> set fam" "list_all (\<lambda>b. \<not> is_ascii_whitespace b) kekw"
    using assms base64_clear uuid_clear by (auto simp: texts_ok_def)
  have md: "?md = [] @ type_header 0x0013 @ segs ?L @ []" and len: "length ?md = 12288"
    using synthetic_metadata_length [OF assms(1)] by (simp_all add: synthetic_metadata_segs)
  have "algorithms ?md (length ([] :: bytes)) =
      Some (str ''AES-XTS'', length ([] @ type_header 0x0013 @ segs (take (13 + 4) ?L)))"
    by (rule scan_segs [OF md, where attrs = "''\"6\"''"])
      (use len in \<open>simp_all add: synthetic_segs clear no_bracket_blocks,
        simp_all add: pair_segs_def synthetic_segs clear no_bracket_blocks\<close>)
  then have run: "scan_run (algorithms ?md) 0 ([] @ [str ''AES-XTS'']) ?e"
    by (simp add: scan_run_Cons del: str_Cons length_append)
  have tail: "drop ?e ?md = segs (drop 17 ?L)"
    using segs_append [of "take 17 ?L" "drop 17 ?L"] by (simp add: synthetic_metadata_segs)
  have "length (drop ?e ?md) < 2 ^ 63"
    using len by simp
  then have "extract_data P (segs (drop 17 ?L)) (str ''KEKWrappedVolumeKeyStruct'') = base64_decode P kekw"
    unfolding tail using assms(1) clear
    by (intro extract_data_segs [where n = 0 and a = "[]" and L = "drop 17 ?L" and rest = "[]" and attrs = "''\"7\"''"])
      (simp_all add: texts_ok_def synthetic_segs)
  then show ?thesis
    unfolding extract_kek_wrapped_aes_xts_def kek_loop_run
    using run assms(2) tail by (intro exI [of _ "[]"] exI [of _ ?e]) (simp del: str_Cons length_append)
qed

definition synthetic_context :: "bytes \<Rightarrow> bytes \<Rightarrow> EncryptionContext" where
  "synthetic_context wk wv =
    \<lparr>ec_salt = SALT, ec_iterations = ITERS, ec_wrapped_kek = wk, ec_wrapped_vmk = wv,
     ec_protectors = [\<lparr>pr_user_type = 0x10000001, pr_kind = Password\<rparr>],
     ec_conversion_status = Some (str ''Complete'')\<rparr>"

lemma synthetic_context_read:
  assumes "texts_ok pw kekw fam" and "length wk = 24" and "length wv = 24"
    and "base64_decode P pw = Some (passphrase_struct_bytes wk)"
    and "base64_decode P kekw = Some (volume_key_struct_bytes wv)"
  shows "extract_context P (synthetic_metadata pw kekw fam) = Ok (synthetic_context wk wv)"
proof -
  have "slice16 (passphrase_struct_bytes wk) PW_SALT_OFFSET = Some SALT"
      "slice24 (passphrase_struct_bytes wk) PW_WRAPPED_KEK_OFFSET = Some wk"
      "read_u32_le (passphrase_struct_bytes wk) PW_ITERATIONS_OFFSET = Some ITERS"
      "slice24 (volume_key_struct_bytes wv) KEK_WRAPPED_VMK_OFFSET = Some wv"
    using assms(2,3)
    by (simp_all add: slice16_eq slice24_eq read_u32_le_eq const_defs passphrase_struct_bytes_def
        volume_key_struct_bytes_def from_le_to_le)
  then show ?thesis
    using synthetic_passphrase_struct [OF assms(1), of P] synthetic_volume_key_struct [OF assms(1,5)] assms(4)
      synthetic_strings(1) [OF assms(1)] synthetic_protectors [OF assms(1)]
    by (simp add: extract_context_def synthetic_context_def del: str_Cons)
qed

section \<open>Unlocking\<close>

lemma synthetic_texts:
  assumes "crates_documented P E" and "wraps P E pk wk wv"
  shows "texts_ok (base64_encode E (passphrase_struct_bytes wk)) (base64_encode E (volume_key_struct_bytes wv))
    (uuid_hyphenated P FAMILY)"
  using assms text_lengths [OF assms] by (simp add: texts_ok_def crates_documented_def text_documented_def)

lemma synthetic_segments:
  assumes "texts_ok pw kekw fam"
  shows "segments_of (synthetic_metadata pw kekw fam) 4096 = [synthetic_segment]"
proof -
  have len: "length (context_plist pw kekw) \<le> 4032" "length (lv_plist fam) \<le> 4032"
    using assms by (simp_all add: texts_ok_def length_context_plist length_lv_plist)
  have types: "type_at (text_block t body) 0 = t" for t body
    by (simp add: type_at_def text_block_def type_header_def field_append_skip field_prefix from_le_to_le)
  have "segments_of (concat [text_block 0x0013 (context_plist pw kekw), text_block 0x001a (lv_plist fam)] @
      encode_segment_block 4096 0x99 [synthetic_segment]) 4096 =
      segments_of (encode_segment_block 4096 0x99 [synthetic_segment]) 4096"
    using len by (intro segments_of_skips) (auto simp: types const_defs)
  also have "\<dots> = [synthetic_segment]"
    using segments_of_encoded [where es = "[synthetic_segment]" and block_size = 4096 and rest = "[]"]
    by (simp add: synthetic_segment_def LV_PHYS_BLOCK_def)
  finally show ?thesis
    by (simp add: synthetic_metadata_def)
qed

definition synthetic_lv :: "prims \<Rightarrow> LogicalVolumeInfo" where
  "synthetic_lv P = \<lparr>lv_size = 0x4000, lv_family_uuid = uuid_hyphenated P FAMILY,
    lv_identifier = Some (str ''00000000-0000-0000-0000-000000000001''), lv_name = Some (str ''SynthLV'')\<rparr>"

definition synthetic_info :: "prims \<Rightarrow> FileVaultInfo" where
  "synthetic_info P =
    \<lparr>fvi_physical_volume_identifier = uuid_hyphenated P PV_ID, fvi_pbkdf2_iterations = ITERS,
     fvi_pbkdf2_salt = SALT, fvi_family_uuid = uuid_hyphenated P FAMILY,
     fvi_lv_identifier = Some (str ''00000000-0000-0000-0000-000000000001''),
     fvi_lv_name = Some (str ''SynthLV''), fvi_lv_size = 0x4000,
     fvi_encryption_method = str ''AES-XTS-128'', fvi_conversion_status = Some (str ''Complete''),
     fvi_protectors = [\<lparr>pr_user_type = 0x10000001, pr_kind = Password\<rparr>]\<rparr>"

lemma synthetic_info_eq:
  "build_info P synthetic_header (synthetic_context wk wv) (synthetic_lv P) 0x4000 = synthetic_info P"
  by (simp add: build_info_def format_uuid_def synthetic_header_def synthetic_context_def synthetic_lv_def
      synthetic_info_def)

lemma synthetic_extent:
  assumes "texts_ok pw kekw fam"
  shows "resolve_lv_extent (synthetic_metadata pw kekw fam) synthetic_header (synthetic_lv P) = Ok (65536, 0x4000)"
  using synthetic_metadata_length [OF assms] synthetic_segments [OF assms]
  by (simp add: resolve_lv_extent_eq synthetic_header_def synthetic_lv_def synthetic_segment_def
      saturating_mul_def LV_PHYS_BLOCK_def)

text \<open>The key that unlocks is the one derived from the image's own password.\<close>

lemma synthetic_derive:
  assumes "kdf_documented P" and "wraps P E pk wk wv"
    and "kw_unwrap P (passphrase_key P password SALT ITERS) wk = Some KEK"
  shows "derive_volume_keys P password (synthetic_context wk wv) FAMILY = Ok (synthetic_keys P)"
  using assms
  by (simp add: derive_volume_keys_def aes_kw_unwrap_def synthetic_context_def wraps_def tweak_slice
      synthetic_keys_def)

lemma passphrase_key_synthetic:
  assumes "wraps P E pk wk wv"
  shows "passphrase_key P PASSWORD SALT ITERS = pk"
proof -
  have "max ITERS 1 = ITERS"
    by (simp add: ITERS_def)
  then show ?thesis
    using assms by (simp add: passphrase_key_def wraps_def)
qed

text \<open>The synthetic image and everything the pipeline reads from it, in one place.\<close>

lemma synthetic_pipeline:
  assumes "crates_documented P E" and "build_image P E = Ok img"
  obtains pk wk wv md where "wraps P E pk wk wv"
    and "length img = 81920"
    and "chain (image_at img 0 512) parse = Ok synthetic_header"
    and "metadata_spec P img synthetic_header = Ok md"
    and "extract_context P md = Ok (synthetic_context wk wv)"
    and "extract_lv_info md = Ok (synthetic_lv P)"
    and "resolve_lv_extent md synthetic_header (synthetic_lv P) = Ok (65536, 0x4000)"
    and "plaintext P (synthetic_keys P) 65536 16384 img = lv_ramp"
proof -
  obtain pk wk wv where w: "wraps P E pk wk wv"
    using wraps_exist [OF assms(1)] .
  obtain em lc where c: "ciphers P E (metadata_of P E wk wv) em lc" and "build_image P E = Ok (synthetic_image em lc)"
    using build_image_eq [OF assms(1) w] .
  with assms(2) have img: "img = synthetic_image em lc"
    by simp
  have md: "length (metadata_of P E wk wv) = 12288"
    by (rule build_decrypted_metadata_eq(2) [OF assms(1) w])
  note texts = synthetic_texts [OF assms(1) w]
  have dec: "base64_decode P (base64_encode E bs) = Some bs" for bs
    using assms(1) by (simp add: crates_documented_def text_documented_def)
  have "cipher_sectors 65536 16384 img = lc"
    using c md by (simp add: img synthetic_image_def cipher_sectors_def ciphers_def)
  then have "plaintext P (synthetic_keys P) 65536 16384 img = lv_ramp"
    using c by (simp add: plaintext_def ciphers_def)
  moreover have "extract_context P (metadata_of P E wk wv) = Ok (synthetic_context wk wv)"
    unfolding metadata_of_def using w dec
    by (intro synthetic_context_read [OF texts]) (simp_all add: wraps_def)
  moreover have "extract_lv_info (metadata_of P E wk wv) = Ok (synthetic_lv P)"
    unfolding metadata_of_def synthetic_lv_def by (rule synthetic_lv_info [OF texts])
  moreover have "resolve_lv_extent (metadata_of P E wk wv) synthetic_header (synthetic_lv P) = Ok (65536, 0x4000)"
    unfolding metadata_of_def by (rule synthetic_extent [OF texts])
  ultimately show thesis
    using that [OF w] synthetic_length [OF c md] synthetic_header_read synthetic_metadata_spec [OF c md]
    unfolding img by blast
qed

lemma synthetic_specs:
  assumes "crates_documented P E" and "build_image P E = Ok img"
  shows "info_spec P img = Ok (synthetic_info P)"
    and "unlock_spec P PASSWORD img = Ok (synthetic_keys P, 65536, 0x4000, synthetic_info P)"
    and "length img = 81920"
    and "plaintext P (synthetic_keys P) 65536 16384 img = lv_ramp"
proof -
  obtain pk wk wv md where w: "wraps P E pk wk wv" and len: "length img = 81920"
    and h: "chain (image_at img 0 512) parse = Ok synthetic_header"
    and m: "metadata_spec P img synthetic_header = Ok md"
    and c: "extract_context P md = Ok (synthetic_context wk wv)" and l: "extract_lv_info md = Ok (synthetic_lv P)"
    and e: "resolve_lv_extent md synthetic_header (synthetic_lv P) = Ok (65536, 0x4000)"
    and p: "plaintext P (synthetic_keys P) 65536 16384 img = lv_ramp"
    using synthetic_pipeline [OF assms] .
  have fam: "parse_uuid_bytes P (lv_family_uuid (synthetic_lv P)) = Some FAMILY"
    using assms(1) by (simp add: parse_uuid_bytes_def synthetic_lv_def crates_documented_def uuid_documented_def)
  have k: "derive_volume_keys P PASSWORD (synthetic_context wk wv) FAMILY = Ok (synthetic_keys P)"
    using assms(1) w passphrase_key_synthetic [OF w]
    by (intro synthetic_derive [OF _ w]) (simp_all add: crates_documented_def wraps_def)
  show "length img = 81920" "plaintext P (synthetic_keys P) 65536 16384 img = lv_ramp"
    by (fact len p)+
  show "info_spec P img = Ok (synthetic_info P)"
    by (simp add: info_spec_def h m c l e synthetic_info_eq del: chain_assoc)
  show "unlock_spec P PASSWORD img = Ok (synthetic_keys P, 65536, 0x4000, synthetic_info P)"
    by (simp add: unlock_spec_def h m c l e fam k synthetic_info_eq del: chain_assoc)
qed

lemma lv_ramp_window:
  assumes "a + n \<le> 16384"
  shows "window a n lv_ramp = map (\<lambda>i. of_nat (i AND 0xff)) [a..<a + n]"
proof -
  have "window a n (map f [0..<k]) = map f [a..<a + n]" if "a + n \<le> k" for f :: "nat \<Rightarrow> u8" and k
    using that by (simp add: drop_map take_map)
  moreover have "a + n \<le> unat LV_BLOCKS * BLOCK"
    using assms by (simp add: LV_BLOCKS_def BLOCK_def)
  ultimately show ?thesis
    unfolding lv_ramp_def by blast
qed

section \<open>Properties\<close>

text \<open>The image is always built.\<close>

lemma build_image_total:
  assumes "crates_documented P E"
  obtains img where "build_image P E = Ok img" and "length img = 81920"
  using wraps_exist [OF assms] build_image_eq [OF assms] synthetic_specs(3) [OF assms] by metis

text \<open>
  C5 The whole pipeline inverts the image builder: whatever cryptographic and encoding functions the
  crates provide, as long as they behave as documented, the image built from a password, keys and
  plaintext is read over every conforming reader to exactly these. The audit without the password
  gives the information put in; unlocking with the password gives a volume of the size put in with
  the same information; and every read of it returns the requested window of the plaintext.
\<close>

theorem unlock_build_image:
  assumes "crates_documented P E" and "image_reader ops ok img pos patience" and "ok r"
    and "build_image P E = Ok (img r)" and "n < 2 ^ 64"
  shows "\<exists>r' r'' v v'. parse_info P ops r = Some (r', Ok (synthetic_info P)) \<and>
    unlock_with_password P ops PASSWORD r = Some (r'', Ok v) \<and>
    FileVaultVolume_size v = 0x4000 \<and> FileVaultVolume_info v = synthetic_info P \<and>
    FileVaultVolume_read_at P ops off n v = Some (v', Ok (window (unat off) n lv_ramp))"
proof -
  note specs = synthetic_specs [OF assms(1,4)]
  obtain r' where r': "parse_info P ops r = Some (r', Ok (synthetic_info P))"
    using image_reader.reads_as_info [OF assms(2), of "img r" P] assms(3) unfolding reads_as_def specs(1) by auto
  obtain r'' where u: "ok r''" "img r'' = img r" "unlock_with_password P ops PASSWORD r =
      Some (r'', Ok (assemble r'' (synthetic_keys P, 65536, 0x4000, synthetic_info P)))"
    using image_reader.unlock_image [OF assms(2,3), of P PASSWORD] unfolding specs(2) by auto
  have "xts_documented P" and "keys_ok (synthetic_keys P)" and "extent_ok 65536 0x4000"
    using assms(1) synthetic_keys_ok by (auto simp: crates_documented_def extent_ok_def)
  from image_reader.assembled_read [OF assms(2) u(1) this assms(5), of off "synthetic_info P"]
  obtain v' where "FileVaultVolume_read_at P ops off n
      (assemble r'' (synthetic_keys P, 65536, 0x4000, synthetic_info P)) =
      Some (v', Ok (window (unat off) n lv_ramp))"
    using specs(4) u(2) by auto
  with r' u(3) show ?thesis
    by (metis assemble_simps(1,2))
qed

lemma codec_crates: "crates_documented codec_prims codec_encoders"
  by (simp add: crates_documented_def codec_documented codec_encoders_documented)

theorem unlock_build_image_witness:
  "\<exists>img r v v'. build_image codec_prims codec_encoders = Ok img \<and>
    unlock_with_password codec_prims cursor_ops PASSWORD (cursor_new img) = Some (r, Ok v) \<and>
    FileVaultVolume_read_at codec_prims cursor_ops 256 4 v = Some (v', Ok [0, 1, 2, 3])"
proof -
  obtain img where img: "build_image codec_prims codec_encoders = Ok img" "length img = 81920"
    using build_image_total [OF codec_crates] .
  have "cursor_ok (cursor_new img)" and "cur_data (cursor_new img) = img"
    using img(2) by (simp_all add: cursor_ok_def cursor_new_def)
  moreover have "window 256 4 lv_ramp = [0, 1, 2, 3]"
    using lv_ramp_window [of 256 4] by simp
  ultimately show ?thesis
    using unlock_build_image [OF codec_crates cur.image_reader_axioms, of "cursor_new img" 4 256] img(1) by auto
qed

end
