(* ===== verification/Clients.thy ===== *)
theory Clients
  imports Vfs Forensic Test_Support
begin

text \<open>
  The clients of the library over the synthetic image: the VFS adapter with the fixtures of its
  tests (\<open>core/src/vfs.rs\<close>) and the auditor. What the image builder puts in is what a client of the
  mounted source reads and what an auditor of the locked image reports.
\<close>

section \<open>Fixtures of the adapter\<close>

text \<open>A credential source that offers the same candidates for everything.\<close>

datatype 'cred FixedCreds = FixedCreds "'cred list"

fun credentials_for :: "'cred FixedCreds \<Rightarrow> 'scheme \<Rightarrow> string \<Rightarrow> 'cred list" where
  "credentials_for (FixedCreds creds) _ _ = creds"

text \<open>The image as a byte source; \<open>SeekPoolSource::single\<close> of \<open>forensic-vfs\<close> is a parameter.\<close>

definition synthetic_source :: "(cursor \<Rightarrow> u64 \<Rightarrow> 'src) \<Rightarrow> prims \<Rightarrow> encoders \<Rightarrow> 'src fv" where
  "synthetic_source single P E =
    chain (build_image P E) (\<lambda>image. let len = of_nat (length image) in Ok (single (cursor_new image) len))"

section \<open>Passwords of the image\<close>

text \<open>A password whose key does not unwrap the KEK that the image's own password wraps.\<close>

definition rejected :: "prims \<Rightarrow> encoders \<Rightarrow> bytes \<Rightarrow> bool" where
  "rejected P E p \<longleftrightarrow>
    (case kw_wrap E (passphrase_key P PASSWORD SALT ITERS) KEK of
      None \<Rightarrow> False
    | Some wk \<Rightarrow> kw_unwrap P (passphrase_key P p SALT ITERS) wk = None)"

lemma synthetic_rejected:
  assumes "crates_documented P E" and "build_image P E = Ok img" and "rejected P E p"
  shows "unlock_spec P p img = Err (KeyUnwrap ''KEK'')"
proof -
  obtain pk wk wv md where w: "wraps P E pk wk wv" and h: "chain (image_at img 0 512) parse = Ok synthetic_header"
    and m: "metadata_spec P img synthetic_header = Ok md"
    and c: "extract_context P md = Ok (synthetic_context wk wv)" and l: "extract_lv_info md = Ok (synthetic_lv P)"
    using synthetic_pipeline [OF assms(1,2)] by metis
  have fam: "parse_uuid_bytes P (lv_family_uuid (synthetic_lv P)) = Some FAMILY"
    using assms(1) by (simp add: parse_uuid_bytes_def synthetic_lv_def crates_documented_def uuid_documented_def)
  have "derive_volume_keys P p (synthetic_context wk wv) FAMILY = Err (KeyUnwrap ''KEK'')"
    using assms(3) w passphrase_key_synthetic [OF w]
    by (simp add: derive_volume_keys_def aes_kw_unwrap_def synthetic_context_def rejected_def wraps_def)
  then show ?thesis
    by (simp add: unlock_spec_def h m c l fam del: chain_assoc)
qed

lemma synthetic_aligned:
  assumes "crates_documented P E" and "build_image P E = Ok img"
  shows "aligned_image img"
proof -
  have "chain (image_at img 0 512) parse = Ok synthetic_header"
    using synthetic_pipeline [OF assms] by metis
  then show ?thesis
    by (simp add: aligned_image_def synthetic_header_def)
qed

lemma synthetic_mounted:
  assumes "crates_documented P E" and "build_image P E = Ok (img r)" and "ok r"
  defines "dec \<equiv> FileVaultSource_new (assemble r (synthetic_keys P, 65536, 0x4000, synthetic_info P))"
  shows "source_ok P ok dec" and "source_bytes P img dec = lv_ramp" and "FileVaultSource_len dec = 0x4000"
  using assms(3) synthetic_specs(4) [OF assms(1,2)] synthetic_keys_ok [OF assms(1)] assms(1)
  by (simp_all add: dec_def source_ok_def source_bytes_def FileVaultSource_new_def FileVaultSource_len_def volume_ok_def
      volume_bytes_def DecryptedVolume_new_def extent_ok_def assemble_def FileVaultVolume_size_def
      DecryptedVolume_size_def crates_documented_def)

lemma find_unique:
  "(\<And>x. x \<in> set xs \<Longrightarrow> Q x \<longleftrightarrow> x = a) \<Longrightarrow> find Q xs = (if a \<in> set xs then Some a else None)"
  by (induction xs) auto

lemma lv_ramp_tail: "drop 16380 lv_ramp = [252, 253, 254, 255]"
  unfolding lv_ramp_def drop_map drop_upt by (simp add: LV_BLOCKS_def BLOCK_def)

text \<open>Opening the layer over the image, with the source it gives.\<close>

lemma synthetic_open:
  fixes VE :: "('src, 'r, 'scheme, 'cred, 'hex) vfs_env"
  defines "cursor0 \<equiv> \<lambda>src. ve_cursor VE src 0 (ve_len VE src)"
  assumes "crates_documented P E" and "image_reader ops ok img pos patience"
    and "ok (cursor0 src)" and "build_image P E = Ok (img (cursor0 src))"
    and "\<forall>p \<in> set (List.map_filter (ve_password VE) cands). p \<noteq> PASSWORD \<longrightarrow> rejected P E p"
  shows "let pws = List.map_filter (ve_password VE) cands;
      opened = FileVaultLayer_open P ops VE (FileVaultLayer_new VE src) (credentials_for (FixedCreds cands))
    in if PASSWORD \<in> set pws
      then \<exists>dec. opened = Some (Ok dec) \<and> source_ok P ok dec \<and> source_bytes P img dec = lv_ramp \<and>
        FileVaultSource_len dec = 0x4000
      else opened = Some (Err (if pws = [] then NeedCredentials ''filevault'' ''''
        else map_fvde_err VE (KeyUnwrap ''KEK'')))"
proof -
  let ?layer = "FileVaultLayer_new VE src" and ?pws = "List.map_filter (ve_password VE) cands"
  let ?r = "ve_cursor VE (fl_encrypted ?layer) 0 (fl_len ?layer)"
  let ?open = "FileVaultLayer_open P ops VE ?layer (credentials_for (FixedCreds cands))"
  have r: "?r = cursor0 src"
    by (simp add: FileVaultLayer_new_def cursor0_def)
  note built = assms(5) [folded r]
  note specs = synthetic_specs [OF assms(2) built]
  have doc: "xts_documented P" "kdf_documented P"
    using assms(2) by (simp_all add: crates_documented_def)
  have rej: "unlock_spec P p (img ?r) = Err (KeyUnwrap ''KEK'')" if "p \<in> set ?pws" "p \<noteq> PASSWORD" for p
    using synthetic_rejected [OF assms(2) built] assms(6) that by blast
  have offered: "credentials_for (FixedCreds cands) (ve_filevault VE) '''' = cands"
    by simp
  have "find (unlocks P (img ?r)) ?pws = (if PASSWORD \<in> set ?pws then Some PASSWORD else None)"
    using rej specs(2) by (intro find_unique) (force simp: unlocks_def)
  note outcome = image_reader.layer_open_outcome [OF assms(3) assms(4) [folded r] refl doc
      synthetic_aligned [OF assms(2) built], of "credentials_for (FixedCreds cands)", unfolded offered this]
  consider "PASSWORD \<in> set ?pws" | "?pws = []" | "PASSWORD \<notin> set ?pws" "?pws \<noteq> []"
    by auto
  then show ?thesis
  proof cases
    case 1
    with outcome obtain r' where r': "ok r'" "img r' = img ?r" "?open =
        Some (Ok (FileVaultSource_new (assemble r' (synthetic_keys P, 65536, 0x4000, synthetic_info P))))"
      using specs(2) by auto
    note mounted = synthetic_mounted [where img = img and r = r' and ok = ok, OF assms(2) built [folded r'(2)] r'(1)]
    show ?thesis
      using 1 r'(3) mounted by (simp add: Let_def)
  next
    case 2
    then show ?thesis
      using outcome by (simp add: Let_def)
  next
    case 3
    then have "unlock_spec P (last ?pws) (img ?r) = Err (KeyUnwrap ''KEK'')"
      using rej last_in_set by metis
    then show ?thesis
      using outcome 3 by (auto simp: Let_def io_eq_def)
  qed
qed

section \<open>Properties\<close>

text \<open>
  C8 Mounting the synthetic image: whatever the crates provide, if the reader of the byte source
  presents the image and every candidate but the image's password is rejected by the key unwrap, then
  opening the layer succeeds exactly when the password is among the candidates, wherever it stands;
  the source has the length of the logical volume and every access returns the requested window of
  the plaintext, cut at its end. Otherwise the error is the decode error of the KEK, or the request
  for credentials when no candidate is a password.
\<close>

theorem open_build_image:
  fixes VE :: "('src, 'r, 'scheme, 'cred, 'hex) vfs_env"
  assumes "crates_documented P E" and "image_reader ops ok img pos patience"
    and "synthetic_source single P E = Ok src"
    and "ok (ve_cursor VE src 0 (ve_len VE src))"
    and "build_image P E = Ok (img (ve_cursor VE src 0 (ve_len VE src)))"
    and "\<forall>p \<in> set (List.map_filter (ve_password VE) cands). p \<noteq> PASSWORD \<longrightarrow> rejected P E p"
  shows "let pws = List.map_filter (ve_password VE) cands;
      opened = FileVaultLayer_open P ops VE (FileVaultLayer_new VE src) (credentials_for (FixedCreds cands))
    in if PASSWORD \<in> set pws
      then \<exists>dec. opened = Some (Ok dec) \<and> FileVaultSource_len dec = 0x4000 \<and>
        (\<forall>off n. n < 2 ^ 64 \<longrightarrow> (\<exists>dec'. FileVaultSource_read_at P ops VE off n dec =
          Some (dec', Ok (window (unat off) n lv_ramp))))
      else opened = Some (Err (if pws = [] then NeedCredentials ''filevault'' ''''
        else map_fvde_err VE (KeyUnwrap ''KEK'')))"
  using synthetic_open [OF assms(1,2,4-6)] image_reader.source_read [OF assms(2), of P _ _ VE]
  by (simp add: Let_def split: if_splits) metis

theorem open_build_image_witness:
  "\<exists>src dec dec'. synthetic_source (\<lambda>c len. cur_data c) codec_prims codec_encoders = Ok src \<and>
    FileVaultLayer_open codec_prims cursor_ops sample_env (FileVaultLayer_new sample_env src)
      (credentials_for (FixedCreds [str ''wrong'', PASSWORD])) = Some (Ok dec) \<and>
    FileVaultSource_len dec = 0x4000 \<and>
    FileVaultSource_read_at codec_prims cursor_ops sample_env 16380 512 dec = Some (dec', Ok [252, 253, 254, 255])"
proof -
  let ?cs = "[str ''wrong'', PASSWORD]"
  obtain img where img: "build_image codec_prims codec_encoders = Ok img" "length img = 81920"
    using build_image_total [OF codec_crates] .
  have src: "synthetic_source (\<lambda>c len. cur_data c) codec_prims codec_encoders = Ok img"
    by (simp add: synthetic_source_def img(1) cursor_new_def Let_def)
  have cur: "ve_cursor sample_env img 0 (ve_len sample_env img) = cursor_new img" "List.map_filter (ve_password sample_env) cs = cs"
    "cursor_ok (cursor_new img)" "cur_data (cursor_new img) = img" for cs
    using img(2) by (simp_all add: sample_env_def cursor_ok_def cursor_new_def List.map_filter_def comp_def)
  have "rejected codec_prims codec_encoders (str ''wrong'')"
    by (simp add: rejected_def passphrase_key_def codec_prims_def codec_encoders_def demo_prims_def PASSWORD_def)
  then have "\<forall>p \<in> set (List.map_filter (ve_password sample_env) ?cs).
      p \<noteq> PASSWORD \<longrightarrow> rejected codec_prims codec_encoders p"
    unfolding cur by simp
  from open_build_image [OF codec_crates cur.image_reader_axioms src _ _ this] img(1)
  obtain dec where dec: "FileVaultLayer_open codec_prims cursor_ops sample_env (FileVaultLayer_new sample_env img)
        (credentials_for (FixedCreds ?cs)) = Some (Ok dec)" "FileVaultSource_len dec = 0x4000"
      "\<And>off n. n < 2 ^ 64 \<Longrightarrow> \<exists>dec'. FileVaultSource_read_at codec_prims cursor_ops sample_env off n dec =
        Some (dec', Ok (window (unat off) n lv_ramp))"
    unfolding cur Let_def using cur(3) by (auto simp del: str_Cons)
  have "window (unat (16380 :: u64)) 512 lv_ramp = [252, 253, 254, 255]"
    by (simp add: lv_ramp_tail)
  then show ?thesis
    using src dec(1,2) dec(3) [of 512 16380] by auto
qed

text \<open>
  Auditing the synthetic image: without a password, over every conforming reader, the audit
  reports the one password protector, the conversion status and the iteration count that the image
  was built with (which is below the threshold), and nothing else.
\<close>

theorem audit_build_image:
  assumes "crates_documented P E" and "image_reader ops ok img pos patience" and "ok r"
    and "build_image P E = Ok (img r)"
  shows "\<exists>r'. img r' = img r \<and> audit V P ops r = Some (r', Ok (map (Anomaly_new V)
    [ProtectorInventory (str ''password'') 1, EncryptionState (str ''Complete''), WeakKdfIterations ITERS]))"
proof -
  have "audit_info V (synthetic_info P) = map (Anomaly_new V)
      [ProtectorInventory (str ''password'') 1, EncryptionState (str ''Complete''), WeakKdfIterations ITERS]"
    by (simp add: audit_info_def synthetic_info_def protector_summary_def WEAK_KDF_THRESHOLD_def ITERS_def)
  then show ?thesis
    using image_reader.reads_as_audit [OF assms(2), of "img r" V P] assms(3) synthetic_specs(1) [OF assms(1,4)]
    unfolding reads_as_def by auto
qed

theorem audit_build_image_witness:
  "\<exists>img r'. build_image codec_prims codec_encoders = Ok img \<and>
    audit sample_vocab codec_prims cursor_ops (cursor_new img) = Some (r', Ok (map (Anomaly_new sample_vocab)
      [ProtectorInventory (str ''password'') 1, EncryptionState (str ''Complete''), WeakKdfIterations ITERS]))"
proof -
  obtain img where img: "build_image codec_prims codec_encoders = Ok img" "length img = 81920"
    using build_image_total [OF codec_crates] .
  then have "cursor_ok (cursor_new img)" and "cur_data (cursor_new img) = img"
    by (simp_all add: cursor_ok_def cursor_new_def)
  then show ?thesis
    using audit_build_image [OF codec_crates cur.image_reader_axioms, of "cursor_new img" sample_vocab] img(1) by auto
qed

end
