(* ===== verification/Unit_Tests_Entry.thy ===== *)
theory Unit_Tests_Entry
  imports Unit_Tests_Volume Clients
begin

text \<open>
  The unit tests of the entry points (\<open>core/src/lib.rs\<close>), over in-memory images, for all crates that
  behave as documented.
\<close>

section \<open>Entry points\<close>

fun given_run :: "('s \<times> ('e, 'a) comp) option \<Rightarrow> ('a \<Rightarrow> unit fv option) \<Rightarrow> unit fv option" where
  "given_run None f = None"
| "given_run (Some (s, c)) f = given (unwrap c) f"

definition observing :: "('s \<Rightarrow> bool) \<Rightarrow> ('s, FileVaultError, unit) action" where
  "observing f s = expect (f s) s"

definition fv_seeking :: "seek_from \<Rightarrow> ('r FileVaultVolume, io_error, u64) action" where
  "fv_seeking p v = Some (FileVaultVolume_seek v p)"

definition test_unlock_synthetic_volume_end_to_end :: "prims \<Rightarrow> encoders \<Rightarrow> unit fv option" where
  "test_unlock_synthetic_volume_end_to_end P E =
    given (build_image P E) (\<lambda>image.
    given_run (unlock_with_password P cursor_ops PASSWORD (cursor_new image)) (\<lambda>vol.
    on_volume vol
      (andThen (observing (\<lambda>vol. FileVaultVolume_size vol = 0x4000)) (\<lambda>_.
       andThen (observing (\<lambda>vol. fvi_pbkdf2_iterations (FileVaultVolume_info vol) = ITERS)) (\<lambda>_.
       andThen (observing (\<lambda>vol. fvi_lv_name (FileVaultVolume_info vol) = Some (str ''SynthLV''))) (\<lambda>_.
       andThen (observing (\<lambda>vol. fvi_encryption_method (FileVaultVolume_info vol) = str ''AES-XTS-128'')) (\<lambda>_.
       andThen (observing (\<lambda>vol. fvi_conversion_status (FileVaultVolume_info vol) = Some (str ''Complete''))) (\<lambda>_.
       andThen (observing (\<lambda>vol. length (fvi_protectors (FileVaultVolume_info vol)) = 1)) (\<lambda>_.
       andThen (unwrapped (FileVaultVolume_read_at P cursor_ops 0 512)) (\<lambda>bs.
       andThen (expect (length bs = 512)) (\<lambda>_.
       andThen (expect (copy_at 0 bs (replicate 512 0) = map (\<lambda>i. of_nat (i AND 0xff)) [0..<512])) (\<lambda>_.
       andThen (unwrapped (fv_seeking (Start 512))) (\<lambda>p.
       andThen (expect (p = 512)) (\<lambda>_.
       andThen (unwrapped (FileVaultVolume_read P cursor_ops 16)) (\<lambda>bs.
       andThen (expect (length bs > 0)) (\<lambda>_.
       \<lambda>vol. map_option (\<lambda>c. (vol, c))
         (given (build_image P E) (\<lambda>image2.
          given_run (parse_info P cursor_ops (cursor_new image2)) (\<lambda>info.
          given (in_order [
            assert_that (fvi_family_uuid info = fvi_family_uuid (FileVaultVolume_info vol)),
            assert_that (fvi_lv_size info = 0x4000),
            assert_that (fvi_physical_volume_identifier info = uuid_hyphenated P PV_ID)]) (\<lambda>_.
          on_volume (into_decrypted vol)
            (andThen (observing (\<lambda>dec. DecryptedVolume_size dec = 0x4000)) (\<lambda>_.
             andThen (unwrapped (DecryptedVolume_read_at P cursor_ops 0 16)) (\<lambda>bs.
               expect (length bs = 16))))))))))))))))))))))))"

definition test_unlock_wrong_password_fails :: "prims \<Rightarrow> encoders \<Rightarrow> unit fv option" where
  "test_unlock_wrong_password_fails P E =
    given (build_image P E) (\<lambda>image.
      map_option (\<lambda>(_, c). assert_matches c (\<lambda>c. case c of Err (KeyUnwrap _) \<Rightarrow> True | _ \<Rightarrow> False))
        (unlock_with_password P cursor_ops (str ''nope'') (cursor_new image)))"

definition test_unlock_non_corestorage_fails :: "prims \<Rightarrow> unit fv option" where
  "test_unlock_non_corestorage_fails P =
    (let image = replicate 4096 0 in
     map_option (\<lambda>(_, c). assert_matches c not_corestorage)
       (unlock_with_password P cursor_ops PASSWORD (cursor_new image)))"

definition test_truncated_image_errors_loudly :: "prims \<Rightarrow> unit fv option" where
  "test_truncated_image_errors_loudly P =
    given (
      chain (write_at 88 (str ''C'') (replicate 600 0)) (\<lambda>image.
      chain (write_at 89 (str ''S'') image) (\<lambda>image.
      chain (write_at 96 (to_le_bytes 4 (of_nat BLOCK :: u32)) image) (\<lambda>image.
      chain (write_at 172 (to_le_bytes 4 (2 :: u32)) image) (\<lambda>image.
        write_at 104 (to_le_bytes 8 (1 :: u64)) image))))) (\<lambda>image.
    map_option (\<lambda>(_, c). chain (unwrap_err c) (\<lambda>err. assert_that (case err of Io _ \<Rightarrow> True | _ \<Rightarrow> False)))
      (parse_info P cursor_ops (cursor_new image)))"

definition test_zero_block_size_header_errors :: "prims \<Rightarrow> unit fv option" where
  "test_zero_block_size_header_errors P =
    given (
      chain (write_at 88 (str ''C'') (replicate 4096 0)) (\<lambda>image.
      chain (write_at 89 (str ''S'') image) (\<lambda>image.
      chain (write_at 96 (to_le_bytes 4 (0 :: u32)) image) (\<lambda>image.
        write_at 172 (to_le_bytes 4 (2 :: u32)) image)))) (\<lambda>image.
    map_option (\<lambda>(_, c). chain (unwrap_err c) (\<lambda>err. assert_that (case err of OutOfRange _ \<Rightarrow> True | _ \<Rightarrow> False)))
      (parse_info P cursor_ops (cursor_new image)))"

definition test_format_and_parse_uuid_roundtrip :: "prims \<Rightarrow> unit fv" where
  "test_format_and_parse_uuid_roundtrip P =
    (let s = format_uuid P FAMILY in
     in_order [
       assert_that (parse_uuid_bytes P s = Some FAMILY),
       assert_that (parse_uuid_bytes P (str ''not-a-uuid'') = None)])"

definition extent_header :: VolumeHeader where
  "extent_header =
    \<lparr>vh_block_size = of_nat BLOCK, vh_bytes_per_sector = 512, vh_physical_volume_size = 0,
     vh_metadata_block_numbers = [1, 0, 0, 0], vh_key_data = KEY1, vh_physical_volume_identifier = PV_ID\<rparr>"

definition test_resolve_extent_uses_segment_blocks_when_lv_size_zero :: "unit fv" where
  "test_resolve_extent_uses_segment_blocks_when_lv_size_zero =
    (let header = extent_header; payload = 64; entry = payload + 8;
         lv = \<lparr>lv_size = 0, lv_family_uuid = str ''x'', lv_identifier = None, lv_name = None\<rparr> in
     chain (write_at 10 (to_le_bytes 2 (0x0305 :: u16)) (replicate BLOCK 0)) (\<lambda>meta.
     chain (write_at payload (to_le_bytes 4 (1 :: u32)) meta) (\<lambda>meta.
     chain (write_at (entry + 16) (to_le_bytes 4 (2 :: u32)) meta) (\<lambda>meta.
     chain (write_at (entry + 32) (to_le_bytes 8 (5 :: u64)) meta) (\<lambda>meta.
     chain (resolve_lv_extent meta header lv) (\<lambda>(base, size).
     in_order [
       assert_that (base = 5 * of_nat BLOCK),
       assert_that (size = 2 * of_nat BLOCK)]))))))"

definition test_resolve_extent_no_segment_falls_back_to_lv_size :: "unit fv" where
  "test_resolve_extent_no_segment_falls_back_to_lv_size =
    (let header = extent_header; meta = replicate BLOCK 0;
         lv = \<lparr>lv_size = 12345, lv_family_uuid = str ''x'', lv_identifier = None, lv_name = None\<rparr> in
     chain (resolve_lv_extent meta header lv) (\<lambda>(base, size).
     in_order [
       assert_that (base = 0),
       assert_that (size = 12345)]))"

lemma extent_tests_pass:
  "test_resolve_extent_uses_segment_blocks_when_lv_size_zero = Ok ()"
  "test_resolve_extent_no_segment_falls_back_to_lv_size = Ok ()"
  subgoal
    by (simp add: test_resolve_extent_uses_segment_blocks_when_lv_size_zero_def extent_header_def resolve_lv_extent_eq
        segments_of_block type_at_def const_defs field_copied from_le_to_le segment_count_def segment_capacity_def
        segment_at_def saturating_mul_def)
  subgoal
    by (simp add: test_resolve_extent_no_segment_falls_back_to_lv_size_def extent_header_def resolve_lv_extent_eq
        segments_of_block type_at_def field_zeros const_defs)
  done

section \<open>The entry points pass\<close>

lemma info_run:
  assumes "length img < 2 ^ 63"
  obtains r c where "parse_info P cursor_ops (cursor_new img) = Some (r, c)" and "io_eq c (info_spec P img)"
  using cur.reads_as_info [of img P] cursor_image assms unfolding reads_as_def by metis

lemma unlock_run:
  assumes "length img < 2 ^ 63"
  obtains r where "cursor_ok r" and "cur_data r = img"
    and "case unlock_spec P pw img of
      Ok x \<Rightarrow> unlock_with_password P cursor_ops pw (cursor_new img) = Some (r, Ok (assemble r x))
    | Err e \<Rightarrow> (\<exists>e'. unlock_with_password P cursor_ops pw (cursor_new img) = Some (r, Err e') \<and>
        (e' = e \<or> (\<exists>i j. e = Io i \<and> e' = Io j)))
    | Panic \<Rightarrow> unlock_with_password P cursor_ops pw (cursor_new img) = Some (r, Panic)"
  using cur.unlock_image [OF cursor_image(1) [OF assms], of P pw] cursor_image(2) [of img] by auto

text \<open>Images with nothing but a header.\<close>

definition bare_header :: "nat \<Rightarrow> u32 \<Rightarrow> bytes" where
  "bare_header n block_size =
    copy_at 172 (to_le_bytes 4 (2 :: u32))
    (copy_at 96 (to_le_bytes 4 block_size)
    (copy_at 88 (to_le_bytes 2 CS_SIGNATURE_LE) (replicate n 0)))"

lemma length_bare_header [simp]: "512 \<le> n \<Longrightarrow> length (bare_header n bs) = n"
  by (simp add: bare_header_def)

lemma header_read:
  assumes "512 \<le> length b" and "signature_of b = CS_SIGNATURE_LE" and "method_of b = ENCRYPTION_METHOD_AES_XTS_128"
  shows "chain (image_at b 0 512) parse = Ok (header_fields b)"
proof -
  have "header_fields (take 512 b) = header_fields b"
    by (simp add: header_fields_def field_take upt_rec)
  then show ?thesis
    using assms by (simp add: image_at_def parse_eq field_take)
qed

lemma non_corestorage_test_passes: "test_unlock_non_corestorage_fails P = Some (Ok ())"
proof -
  have "parse (replicate 512 0) = Err (NotCoreStorage 0)"
    by (simp add: parse_eq field_zeros const_defs)
  then have "unlock_spec P PASSWORD (replicate 4096 0) = Err (NotCoreStorage 0)"
    by (simp add: unlock_spec_def image_at_def)
  moreover obtain r where "case unlock_spec P PASSWORD (replicate 4096 0) of
      Ok x \<Rightarrow> unlock_with_password P cursor_ops PASSWORD (cursor_new (replicate 4096 0)) = Some (r, Ok (assemble r x))
    | Err e \<Rightarrow> (\<exists>e'. unlock_with_password P cursor_ops PASSWORD (cursor_new (replicate 4096 0)) = Some (r, Err e') \<and>
        (e' = e \<or> (\<exists>i j. e = Io i \<and> e' = Io j)))
    | Panic \<Rightarrow> unlock_with_password P cursor_ops PASSWORD (cursor_new (replicate 4096 0)) = Some (r, Panic)"
    by (rule unlock_run [of "replicate 4096 0" P PASSWORD]) auto
  ultimately show ?thesis
    by (auto simp: test_unlock_non_corestorage_fails_def)
qed

lemma truncated_test_passes: "test_truncated_image_errors_loudly P = Some (Ok ())"
proof -
  let ?b = "copy_at 104 (to_le_bytes 8 (1 :: u64)) (bare_header 600 4096)"
  have len: "length ?b = 600"
    by simp
  have "signature_of ?b = CS_SIGNATURE_LE" "method_of ?b = ENCRYPTION_METHOD_AES_XTS_128"
    by (simp_all add: bare_header_def field_copied from_le_to_le const_defs)
  then have h: "chain (image_at ?b 0 512) parse = Ok (header_fields ?b)"
    by (intro header_read) simp_all
  have bs: "vh_block_size (header_fields ?b) = 4096" "vh_metadata_block_numbers (header_fields ?b) = [1, 0, 0, 0]"
    by (simp_all add: header_fields_def upt_rec bare_header_def field_copied from_le_to_le field_zeros)
  then have "fst (plaintext_metadata_region (header_fields ?b)) = 4096"
    by (simp add: plaintext_metadata_region_def saturating_mul_def Let_def)
  then have "metadata_spec P ?b (header_fields ?b) = Err (Io UnexpectedEof)"
    using bs(1) len by (simp add: metadata_spec_def image_at_def)
  then have "info_spec P ?b = Err (Io UnexpectedEof)"
    unfolding info_spec_def h by simp
  moreover obtain r c where "parse_info P cursor_ops (cursor_new ?b) = Some (r, c)" "io_eq c (info_spec P ?b)"
    by (rule info_run [of ?b P]) (simp_all add: len)
  ultimately show ?thesis
    by (auto simp: test_truncated_image_errors_loudly_def signature_bytes BLOCK_def io_eq_def bare_header_def
        simp del: str_Cons)
qed

lemma zero_block_size_test_passes: "test_zero_block_size_header_errors P = Some (Ok ())"
proof -
  let ?b = "bare_header 4096 0"
  have "signature_of ?b = CS_SIGNATURE_LE" "method_of ?b = ENCRYPTION_METHOD_AES_XTS_128"
    by (simp_all add: bare_header_def field_copied from_le_to_le const_defs)
  then have h: "chain (image_at ?b 0 512) parse = Ok (header_fields ?b)"
    by (intro header_read) simp_all
  have "vh_block_size (header_fields ?b) = 0"
    by (simp add: header_fields_def bare_header_def field_copied from_le_to_le)
  then have "info_spec P ?b = Err (OutOfRange ''block size is zero'')"
    unfolding info_spec_def h by (simp add: metadata_spec_def)
  moreover obtain r c where "parse_info P cursor_ops (cursor_new ?b) = Some (r, c)" "io_eq c (info_spec P ?b)"
    by (rule info_run [of ?b P]) simp_all
  ultimately show ?thesis
    by (auto simp: test_zero_block_size_header_errors_def signature_bytes io_eq_def bare_header_def simp del: str_Cons)
qed

lemma crate_tests_pass:
  assumes "crates_documented P E" and "uuid_parse P (str ''not-a-uuid'') = None" and "rejected P E (str ''nope'')"
  shows "test_format_and_parse_uuid_roundtrip P = Ok ()" and "test_unlock_wrong_password_fails P E = Some (Ok ())"
proof -
  show "test_format_and_parse_uuid_roundtrip P = Ok ()"
    using assms(1,2)
    by (simp add: test_format_and_parse_uuid_roundtrip_def format_uuid_def parse_uuid_bytes_def crates_documented_def
        uuid_documented_def del: str_Cons)
  obtain img where img: "build_image P E = Ok img" "length img = 81920"
    using build_image_total [OF assms(1)] .
  have "unlock_spec P (str ''nope'') img = Err (KeyUnwrap ''KEK'')"
    by (rule synthetic_rejected [OF assms(1) img(1) assms(3)])
  then show "test_unlock_wrong_password_fails P E = Some (Ok ())"
    using cur.unlock_image [OF cursor_image(1), of img P "str ''nope''"] img cursor_image(2) [of img]
    by (auto simp: test_unlock_wrong_password_fails_def simp del: str_Cons)
qed

section \<open>End to end\<close>

text \<open>An unlocked volume over a cursor, with the plaintext it decrypts to and what it says of itself.\<close>

definition holds_fv :: "prims \<Rightarrow> FileVaultInfo \<Rightarrow> bytes \<Rightarrow> cursor FileVaultVolume \<Rightarrow> bool" where
  "holds_fv P info plain v \<longleftrightarrow> holds_plain P (into_decrypted v) plain \<and> FileVaultVolume_info v = info"

lemma holds_fv_info: "holds_fv P info plain v \<Longrightarrow> FileVaultVolume_info v = info"
  by (simp add: holds_fv_def)

lemma holds_plain_size: "holds_plain P dv plain \<Longrightarrow> unat (dv_size dv) = length plain"
  using cur.volume_bytes_length [of P dv] by (auto simp: holds_plain_def)

lemma holds_fv_size: "holds_fv P info plain v \<Longrightarrow> unat (FileVaultVolume_size v) = length plain"
  using holds_plain_size by (auto simp: holds_fv_def FileVaultVolume_size_def DecryptedVolume_size_def into_decrypted_def)

lemma passes_observing: "\<lbrakk>f s; passes (g ()) s\<rbrakk> \<Longrightarrow> passes (andThen (observing f) g) s"
  by (simp add: passes_def observing_def expect_def andThen_def return_def)

lemma passes_here: "t s = Some (Ok ()) \<Longrightarrow> passes (\<lambda>s. map_option (\<lambda>c. (s, c)) (t s)) s"
  by (simp add: passes_def)

lemma passes_fv_read_at:
  assumes "holds_fv P info plain v" and "n < 2 ^ 64"
    and "\<And>v'. holds_fv P info plain v' \<Longrightarrow> passes (f (window (unat off) n plain)) v'"
  shows "passes (andThen (unwrapped (FileVaultVolume_read_at P cursor_ops off n)) f) v"
proof -
  obtain d where "holds_plain P d plain"
      "DecryptedVolume_read_at P cursor_ops off n (into_decrypted v) = Some (d, Ok (window (unat off) n plain))"
    using read_at_holds [of P "into_decrypted v" plain n off] assms(1,2) by (auto simp: holds_fv_def)
  then show ?thesis
    using assms(1,3)
    by (intro passes_call [where s' = "v\<lparr>fv_decrypted := d\<rparr>"])
      (auto simp: holds_fv_def FileVaultVolume_read_at_def on_decrypted_def into_decrypted_def FileVaultVolume_info_def)
qed

lemma passes_fv_read:
  assumes "holds_fv P info plain v" and "dv_position (into_decrypted v) = p" and "n < 2 ^ 64"
    and "\<And>v'. holds_fv P info plain v' \<Longrightarrow> passes (f (window (unat p) n plain)) v'"
  shows "passes (andThen (unwrapped (FileVaultVolume_read P cursor_ops n)) f) v"
proof -
  obtain d where "holds_plain P d plain"
      "DecryptedVolume_read P cursor_ops n (into_decrypted v) = Some (d, Ok (window (unat p) n plain))"
    using read_holds [of P "into_decrypted v" plain n] assms(1-3) by (auto simp: holds_fv_def)
  then show ?thesis
    using assms(1,4)
    by (intro passes_call [where s' = "v\<lparr>fv_decrypted := d\<rparr>"])
      (auto simp: holds_fv_def FileVaultVolume_read_def on_decrypted_def into_decrypted_def FileVaultVolume_info_def)
qed

lemma passes_fv_seek:
  assumes "holds_fv P info plain v"
    and "\<And>v'. \<lbrakk>holds_fv P info plain v'; dv_position (into_decrypted v') = q\<rbrakk> \<Longrightarrow> passes (f q) v'"
  shows "passes (andThen (unwrapped (fv_seeking (Start q))) f) v"
  using assms
  by (intro passes_call [where s' = "v\<lparr>fv_decrypted := (into_decrypted v)\<lparr>dv_position := q\<rparr>\<rparr>"])
    (auto simp: holds_fv_def holds_plain_def volume_ok_def volume_bytes_def fv_seeking_def FileVaultVolume_seek_def
      DecryptedVolume_seek_def into_decrypted_def FileVaultVolume_info_def)

lemma synthetic_unlocked:
  assumes "crates_documented P E" and "build_image P E = Ok img"
  obtains v where "holds_fv P (synthetic_info P) lv_ramp v"
    and "\<exists>r. unlock_with_password P cursor_ops PASSWORD (cursor_new img) = Some (r, Ok v)"
proof -
  note specs = synthetic_specs [OF assms]
  obtain r where r: "cursor_ok r" "cur_data r = img" "unlock_with_password P cursor_ops PASSWORD (cursor_new img) =
      Some (r, Ok (assemble r (synthetic_keys P, 65536, 0x4000, synthetic_info P)))"
    using unlock_run [of img P PASSWORD] specs(2,3) by auto
  have "holds_fv P (synthetic_info P) lv_ramp (assemble r (synthetic_keys P, 65536, 0x4000, synthetic_info P))"
    using r(1,2) specs(4) synthetic_keys_ok [OF assms(1)] assms(1)
    by (simp add: holds_fv_def holds_plain_def volume_ok_def volume_bytes_def extent_ok_def DecryptedVolume_new_def
        crates_documented_def)
  with r(3) show thesis
    using that by blast
qed

lemma synthetic_audited:
  assumes "crates_documented P E" and "build_image P E = Ok img"
  obtains r where "parse_info P cursor_ops (cursor_new img) = Some (r, Ok (synthetic_info P))"
  using info_run [of img P] synthetic_specs(1,3) [OF assms] by (auto simp: io_eq_def)

lemma end_to_end_test_passes:
  assumes "crates_documented P E"
  shows "test_unlock_synthetic_volume_end_to_end P E = Some (Ok ())"
proof -
  obtain img where built: "build_image P E = Ok img"
    using build_image_total [OF assms] .
  obtain v r where v: "holds_fv P (synthetic_info P) lv_ramp v"
    and u: "unlock_with_password P cursor_ops PASSWORD (cursor_new img) = Some (r, Ok v)"
    using synthetic_unlocked [OF assms built] by blast
  obtain r' where i: "parse_info P cursor_ops (cursor_new img) = Some (r', Ok (synthetic_info P))"
    using synthetic_audited [OF assms built] .
  have size: "FileVaultVolume_size v' = 0x4000" "DecryptedVolume_size (into_decrypted v') = 0x4000"
    if "holds_fv P info lv_ramp v'" for v' info
    using holds_fv_size [OF that]
    by (simp_all add: word_unat_eq_iff FileVaultVolume_size_def into_decrypted_def)
  have last: "on_volume (into_decrypted v')
      (andThen (observing (\<lambda>dec. DecryptedVolume_size dec = 0x4000)) (\<lambda>_.
       andThen (unwrapped (DecryptedVolume_read_at P cursor_ops 0 16)) (\<lambda>bs. expect (length bs = 16)))) = Some (Ok ())"
    if "holds_fv P info lv_ramp v'" for v' info
    using that size(2) [OF that]
    by (intro on_volume_passes passes_observing passes_read_at [where plain = lv_ramp] passes_expect)
      (auto simp: holds_fv_def)
  have ramp: "take 512 lv_ramp = map (\<lambda>i. of_nat (i AND 0xff)) [0..<512]"
    using lv_ramp_window [of 0 512] by simp
  have info: "fvi_pbkdf2_iterations (synthetic_info P) = ITERS" "fvi_lv_name (synthetic_info P) = Some (str ''SynthLV'')"
      "fvi_encryption_method (synthetic_info P) = str ''AES-XTS-128''"
      "fvi_conversion_status (synthetic_info P) = Some (str ''Complete'')" "fvi_lv_size (synthetic_info P) = 0x4000"
      "fvi_physical_volume_identifier (synthetic_info P) = uuid_hyphenated P PV_ID"
      "length (fvi_protectors (synthetic_info P)) = 1"
    by (simp_all add: synthetic_info_def)
  show ?thesis
    unfolding test_unlock_synthetic_volume_end_to_end_def built given.simps given_run.simps u unwrap.simps i
    by (intro on_volume_passes passes_observing passes_fv_read_at [OF v] passes_expect_then)
      (auto intro!: passes_fv_seek passes_fv_read passes_expect_then passes_here
        simp: holds_fv_info [OF v] holds_fv_info size(1) [OF v] info last copy_at_def ramp v simp del: str_Cons)
qed

end
