(* ===== verification/Unit_Tests_Vfs.thy ===== *)
theory Unit_Tests_Vfs
  imports Unit_Tests_Entry
begin

text \<open>
  The unit tests of the adapter (\<open>core/src/vfs.rs\<close>) over the synthetic image. What they use of
  \<open>forensic-vfs\<close> is a parameter: \<open>SeekPoolSource::single\<close> and the constructors of \<open>Credential\<close>, with
  what the crate documents of them as hypotheses. The test over an external disk image is in \<open>Unit_Tests_Oracle\<close>.
\<close>

section \<open>Tests\<close>

fun given_returned :: "('e, 'a) comp option \<Rightarrow> ('a \<Rightarrow> unit fv option) \<Rightarrow> unit fv option" where
  "given_returned None f = None"
| "given_returned (Some c) f = given (unwrap c) f"

fun given_rejected :: "('e, 'a) comp option \<Rightarrow> ('e \<Rightarrow> unit fv option) \<Rightarrow> unit fv option" where
  "given_rejected None f = None"
| "given_rejected (Some c) f = given (unwrap_err c) f"

record ('src, 'cred) vfs_fixture =
  vx_single :: "cursor \<Rightarrow> u64 \<Rightarrow> 'src"
  vx_Password :: "bytes \<Rightarrow> 'cred"
  vx_KeyBytes :: "bytes \<Rightarrow> 'cred"

fun decode_error :: "'hex VfsError \<Rightarrow> bool" where
  "decode_error (Decode layer _ _ _) \<longleftrightarrow> layer = ''filevault''"
| "decode_error _ \<longleftrightarrow> False"

fun needs_credentials :: "'hex VfsError \<Rightarrow> bool" where
  "needs_credentials (NeedCredentials what _) \<longleftrightarrow> what = ''filevault''"
| "needs_credentials _ \<longleftrightarrow> False"

definition test_synthetic_open_decrypts_and_reads ::
  "prims \<Rightarrow> encoders \<Rightarrow> 'r read_seek \<Rightarrow> ('src, 'r, 'scheme, 'cred, 'hex) vfs_env \<Rightarrow> ('src, 'cred) vfs_fixture \<Rightarrow>
    unit fv option" where
  "test_synthetic_open_decrypts_and_reads P E ops VE X =
    given (synthetic_source (vx_single X) P E) (\<lambda>src.
    let layer = FileVaultLayer_new VE src in
    given (assert_that (scheme VE layer = ve_filevault VE)) (\<lambda>_.
    let creds = FixedCreds [vx_Password X PASSWORD] in
    given_returned (FileVaultLayer_open P ops VE layer (credentials_for creds)) (\<lambda>dec.
    on_volume dec
      (andThen (observing (\<lambda>dec. FileVaultSource_len dec = 0x4000)) (\<lambda>_.
       andThen (unwrapped (FileVaultSource_read_at P ops VE 0 512)) (\<lambda>bs.
       andThen (expect (length bs = 512)) (\<lambda>_.
       andThen (expect (copy_at 0 bs (replicate 512 0) = map (\<lambda>i. of_nat (i AND 0xff)) [0..<512])) (\<lambda>_.
       andThen (unwrapped (FileVaultSource_read_at P ops VE 0x4000 512)) (\<lambda>bs.
       andThen (expect (length bs = 0)) (\<lambda>_.
       andThen (unwrapped (FileVaultSource_read_at P ops VE 0x9000 512)) (\<lambda>bs.
       andThen (expect (length bs = 0)) (\<lambda>_.
       andThen (unwrapped (FileVaultSource_read_at P ops VE (0x4000 - 100) 512)) (\<lambda>bs.
         expect (length bs = 100))))))))))))))"

definition test_synthetic_wrong_password_is_decode_error ::
  "prims \<Rightarrow> encoders \<Rightarrow> 'r read_seek \<Rightarrow> ('src, 'r, 'scheme, 'cred, 'hex) vfs_env \<Rightarrow> ('src, 'cred) vfs_fixture \<Rightarrow>
    unit fv option" where
  "test_synthetic_wrong_password_is_decode_error P E ops VE X =
    given (synthetic_source (vx_single X) P E) (\<lambda>src.
    let layer = FileVaultLayer_new VE src; creds = FixedCreds [vx_Password X (str ''wrong'')] in
    given_rejected (FileVaultLayer_open P ops VE layer (credentials_for creds)) (\<lambda>err.
      Some (assert_that (decode_error err))))"

definition test_non_password_credential_is_skipped_then_needs_credentials ::
  "prims \<Rightarrow> encoders \<Rightarrow> 'r read_seek \<Rightarrow> ('src, 'r, 'scheme, 'cred, 'hex) vfs_env \<Rightarrow> ('src, 'cred) vfs_fixture \<Rightarrow>
    unit fv option" where
  "test_non_password_credential_is_skipped_then_needs_credentials P E ops VE X =
    given (synthetic_source (vx_single X) P E) (\<lambda>src.
    let layer = FileVaultLayer_new VE src; creds = FixedCreds [vx_KeyBytes X (replicate 16 0)] in
    given_rejected (FileVaultLayer_open P ops VE layer (credentials_for creds)) (\<lambda>err.
      Some (assert_that (needs_credentials err))))"

definition test_empty_credentials_needs_credentials ::
  "prims \<Rightarrow> encoders \<Rightarrow> 'r read_seek \<Rightarrow> ('src, 'r, 'scheme, 'cred, 'hex) vfs_env \<Rightarrow> ('src, 'cred) vfs_fixture \<Rightarrow>
    unit fv option" where
  "test_empty_credentials_needs_credentials P E ops VE X =
    given (synthetic_source (vx_single X) P E) (\<lambda>src.
    let layer = FileVaultLayer_new VE src in
    given_rejected (FileVaultLayer_open P ops VE layer (credentials_for (FixedCreds []))) (\<lambda>err.
      Some (assert_that (needs_credentials err))))"

section \<open>They pass\<close>

text \<open>
  What the adapter's crate documents of the fixtures: the source \<open>SeekPoolSource::single\<close> makes of an
  in-memory image is read by \<open>SourceCursor\<close> as that image, and a credential is a password exactly
  when it was made as one.
\<close>

definition fixture_documented ::
  "('r \<Rightarrow> bool) \<Rightarrow> ('r \<Rightarrow> bytes) \<Rightarrow> ('src, 'r, 'scheme, 'cred, 'hex) vfs_env \<Rightarrow> ('src, 'cred) vfs_fixture \<Rightarrow> bool" where
  "fixture_documented ok img VE X \<longleftrightarrow>
    (\<forall>bs. length bs < 2 ^ 63 \<longrightarrow>
      (let src = vx_single X (cursor_new bs) (of_nat (length bs)); r = ve_cursor VE src 0 (ve_len VE src)
       in ok r \<and> img r = bs)) \<and>
    (\<forall>p. ve_password VE (vx_Password X p) = Some p) \<and> (\<forall>k. ve_password VE (vx_KeyBytes X k) = None)"

lemma fixture_source:
  assumes "crates_documented P E" and "fixture_documented ok img VE X"
  obtains src where "synthetic_source (vx_single X) P E = Ok src"
    and "ok (ve_cursor VE src 0 (ve_len VE src))"
    and "build_image P E = Ok (img (ve_cursor VE src 0 (ve_len VE src)))"
proof -
  obtain bs where bs: "build_image P E = Ok bs" "length bs = 81920"
    using build_image_total [OF assms(1)] .
  then have "length bs < 2 ^ 63"
    by simp
  then show thesis
    using that [of "vx_single X (cursor_new bs) (of_nat (length bs))"] assms(2) bs(1)
    by (simp add: synthetic_source_def fixture_documented_def Let_def)
qed

lemma passes_source_read:
  assumes "image_reader ops ok img pos patience" and "source_ok P ok dec" and "source_bytes P img dec = plain"
    and "n < 2 ^ 64"
    and "\<And>dec'. \<lbrakk>source_ok P ok dec'; source_bytes P img dec' = plain\<rbrakk> \<Longrightarrow>
      passes (f (window (unat off) n plain)) dec'"
  shows "passes (andThen (unwrapped (FileVaultSource_read_at P ops VE off n)) f) dec"
  using image_reader.source_read [OF assms(1,2,4), of VE off] assms(3,5) passes_call by metis

lemma adapter_read_test_passes:
  assumes "crates_documented P E" and "image_reader ops ok img pos patience" and "fixture_documented ok img VE X"
  shows "test_synthetic_open_decrypts_and_reads P E ops VE X = Some (Ok ())"
proof -
  obtain src where src: "synthetic_source (vx_single X) P E = Ok src" "ok (ve_cursor VE src 0 (ve_len VE src))"
      "build_image P E = Ok (img (ve_cursor VE src 0 (ve_len VE src)))"
    using fixture_source [OF assms(1,3)] .
  have pws: "List.map_filter (ve_password VE) [vx_Password X PASSWORD] = [PASSWORD]"
    using assms(3) by (simp add: fixture_documented_def List.map_filter_def)
  obtain dec where dec: "FileVaultLayer_open P ops VE (FileVaultLayer_new VE src)
        (credentials_for (FixedCreds [vx_Password X PASSWORD])) = Some (Ok dec)"
      "source_ok P ok dec" "source_bytes P img dec = lv_ramp" "FileVaultSource_len dec = 0x4000"
    using synthetic_open [OF assms(1,2) src(2,3), of "[vx_Password X PASSWORD]"] unfolding pws Let_def by auto
  have ramp: "take 512 lv_ramp = map (\<lambda>i. of_nat (i AND 0xff)) [0..<512]"
    using lv_ramp_window [of 0 512] by simp
  show ?thesis
    unfolding test_synthetic_open_decrypts_and_reads_def src(1) given.simps Let_def scheme_def dec(1)
      assert_True given_returned.simps unwrap.simps simp_thms(6)
    by (intro on_volume_passes passes_observing dec(4) passes_source_read [OF assms(2) dec(2,3)] passes_expect_then)
      (auto intro!: passes_source_read [OF assms(2)] passes_expect_then passes_expect simp: ramp copy_at_def)
qed

lemma adapter_error_tests_pass:
  assumes "crates_documented P E" and "image_reader ops ok img pos patience" and "fixture_documented ok img VE X"
    and "rejected P E (str ''wrong'')"
  shows "test_synthetic_wrong_password_is_decode_error P E ops VE X = Some (Ok ())"
    and "test_non_password_credential_is_skipped_then_needs_credentials P E ops VE X = Some (Ok ())"
    and "test_empty_credentials_needs_credentials P E ops VE X = Some (Ok ())"
proof -
  obtain src where src: "synthetic_source (vx_single X) P E = Ok src" "ok (ve_cursor VE src 0 (ve_len VE src))"
      "build_image P E = Ok (img (ve_cursor VE src 0 (ve_len VE src)))"
    using fixture_source [OF assms(1,3)] .
  have pws: "List.map_filter (ve_password VE) [vx_Password X p] = [p]"
      "List.map_filter (ve_password VE) [vx_KeyBytes X k] = []" "List.map_filter (ve_password VE) [] = []" for p k
    using assms(3) by (simp_all add: fixture_documented_def List.map_filter_def)
  have wrong: "PASSWORD \<noteq> str ''wrong''"
    by (simp add: PASSWORD_def)
  note opened = synthetic_open [OF assms(1,2) src(2,3)]
  show "test_synthetic_wrong_password_is_decode_error P E ops VE X = Some (Ok ())"
    using opened [of "[vx_Password X (str ''wrong'')]"] wrong assms(4) unfolding pws
    by (simp add: test_synthetic_wrong_password_is_decode_error_def src(1) map_fvde_err_def Let_def del: str_Cons)
  show "test_non_password_credential_is_skipped_then_needs_credentials P E ops VE X = Some (Ok ())"
    using opened [of "[vx_KeyBytes X (replicate 16 0)]"] unfolding pws
    by (simp add: test_non_password_credential_is_skipped_then_needs_credentials_def src(1) Let_def)
  show "test_empty_credentials_needs_credentials P E ops VE X = Some (Ok ())"
    using opened [of "[]"] unfolding pws
    by (simp add: test_empty_credentials_needs_credentials_def src(1) Let_def)
qed

section \<open>The hypotheses can hold\<close>

text \<open>The fixtures over an adapter whose sources are images in memory and whose credentials are tagged.\<close>

definition memory_env :: "(bytes, cursor, unit, bool \<times> bytes, unit) vfs_env" where
  "memory_env = \<lparr>ve_len = (\<lambda>s. of_nat (length s)), ve_cursor = (\<lambda>s a b. cursor_new s), ve_filevault = (),
    ve_password = (\<lambda>(is_password, p). if is_password then Some p else None), ve_no_bytes = (),
    ve_show_io = (\<lambda>_. ''io'')\<rparr>"

definition memory_fixture :: "(bytes, bool \<times> bytes) vfs_fixture" where
  "memory_fixture = \<lparr>vx_single = (\<lambda>c len. cur_data c), vx_Password = Pair True, vx_KeyBytes = Pair False\<rparr>"

lemma adapter_hypotheses_hold:
  "fixture_documented cursor_ok cur_data memory_env memory_fixture"
  "rejected codec_prims codec_encoders (str ''nope'')" "rejected codec_prims codec_encoders (str ''wrong'')"
  by (simp_all add: fixture_documented_def memory_env_def memory_fixture_def cursor_ok_def cursor_new_def
      rejected_def passphrase_key_def codec_prims_def codec_encoders_def demo_prims_def PASSWORD_def)

end
