(* ===== verification/Unit_Tests_Oracle.thy ===== *)
theory Unit_Tests_Oracle
  imports Unit_Tests_Vfs
begin

text \<open>
  The test of the adapter over an external disk image (\<open>core/src/vfs.rs\<close>). The environment, the files
  and the image are not in the repository: they are parameters, and what is shown is on which images
  the test passes, namely on those that hold what it compares with.
\<close>

section \<open>The image and the digest\<close>

definition encrypted :: "(bytes \<Rightarrow> bytes option) \<Rightarrow> (bytes \<Rightarrow> (io_error, 'src) comp) \<Rightarrow> 'src option" where
  "encrypted env_var open_file =
    (let path = (case env_var (str ''FVDE_ORACLE_IMAGE'') of
        Some path \<Rightarrow> path
      | None \<Rightarrow> str ''/tmp/fvde-oracle/fvde_cs_p1.raw'')
     in case open_file path of Ok src \<Rightarrow> Some src | _ \<Rightarrow> None)"

text \<open>\<open>{b:02x}\<close>.\<close>

definition hex02 :: "u8 \<Rightarrow> bytes" where
  "hex02 b = (let ds = show_radix 16 (unat b) in str (replicate (2 - length ds) (CHR ''0'') @ ds))"

definition sha256_hex :: "prims \<Rightarrow> bytes \<Rightarrow> bytes" where
  "sha256_hex P data = foldl (\<lambda>s b. s @ hex02 b) [] (sha256 P data)"

definition fvdetest_digest :: bytes where
  "fvdetest_digest = str ''ebedb80407fc8bfdd3cce9c68de94efece7ed748df1babf35deeaacf008990af''"

section \<open>The test\<close>

definition test_filevault_cryptolayer_decrypts_fvdetest ::
  "prims \<Rightarrow> 'r read_seek \<Rightarrow> ('src, 'r, 'scheme, 'cred, 'hex) vfs_env \<Rightarrow> ('src, 'cred) vfs_fixture \<Rightarrow>
    'src option \<Rightarrow> unit fv option" where
  "test_filevault_cryptolayer_decrypts_fvdetest P ops VE X encrypted_source =
    (case encrypted_source of
      None \<Rightarrow> Some (Ok ())
    | Some enc \<Rightarrow>
        let layer = FileVaultLayer_new VE enc in
        given (assert_that (scheme VE layer = ve_filevault VE)) (\<lambda>_.
        let creds = FixedCreds [vx_Password X (str ''fvde-TEST'')] in
        given_returned (FileVaultLayer_open P ops VE layer (credentials_for creds)) (\<lambda>dec.
        given (assert_that (FileVaultSource_len dec = 167772160)) (\<lambda>_.
        let sector = replicate 512 0 in
        given_returned (map_option snd (FileVaultSource_read_at P ops VE 1024 512 dec)) (\<lambda>bs.
        given (assert_that (length bs = 512)) (\<lambda>_.
        let sector = copy_at 0 bs sector in
        given (assert_that (sha256_hex P sector = fvdetest_digest)) (\<lambda>_.
        map_option (\<lambda>c. assert_matches c (\<lambda>c. case c of Err _ \<Rightarrow> True | _ \<Rightarrow> False))
          (FileVaultLayer_open P ops VE layer (credentials_for (FixedCreds []))))))))))"

section \<open>On which images it passes\<close>

lemma oracle_skips:
  "encrypted env_var open_file = None \<Longrightarrow>
    test_filevault_cryptolayer_decrypts_fvdetest P ops VE X (encrypted env_var open_file) = Some (Ok ())"
  by (simp add: test_filevault_cryptolayer_decrypts_fvdetest_def)

text \<open>
  On an image that the password unlocks, the test passes exactly if the volume has the expected size
  and its plaintext the expected digest; a failure is a failed assertion.
\<close>

lemma oracle_outcome:
  fixes VE :: "('src, 'r, 'scheme, 'cred, 'hex) vfs_env"
  defines "cursor0 \<equiv> \<lambda>src. ve_cursor VE src 0 (ve_len VE src)"
  assumes "xts_documented P" and "kdf_documented P" and "image_reader ops ok img pos patience"
    and "ok (cursor0 src)" and "aligned_image (img (cursor0 src))"
    and "ve_password VE (vx_Password X (str ''fvde-TEST'')) = Some (str ''fvde-TEST'')"
    and spec: "unlock_spec P (str ''fvde-TEST'') (img (cursor0 src)) = Ok (keys, base, sz, info)" and "extent_ok base sz"
  shows "test_filevault_cryptolayer_decrypts_fvdetest P ops VE X (Some src) = Some
    (if sz = 167772160 \<and>
        sha256_hex P (window 1024 512 (plaintext P keys (unat base) (unat sz) (img (cursor0 src)))) = fvdetest_digest
     then Ok () else Panic)"
proof -
  let ?layer = "FileVaultLayer_new VE src" and ?plain = "plaintext P keys (unat base) (unat sz) (img (cursor0 src))"
  let ?creds = "\<lambda>cs. credentials_for (FixedCreds cs) :: 'scheme \<Rightarrow> string \<Rightarrow> 'cred list"
  have layer: "ve_cursor VE (fl_encrypted ?layer) 0 (fl_len ?layer) = cursor0 src"
    by (simp add: FileVaultLayer_new_def cursor0_def)
  obtain r' where r': "ok r'" "img r' = img (cursor0 src)"
      "FileVaultLayer_open P ops VE ?layer (?creds [vx_Password X (str ''fvde-TEST'')]) =
        Some (Ok (FileVaultSource_new (assemble r' (keys, base, sz, info))))"
    using image_reader.layer_open_outcome [OF assms(4), of VE ?layer, unfolded layer, OF assms(5) refl assms(2,3,6),
        of "?creds [vx_Password X (str ''fvde-TEST'')]"] spec assms(7)
    by (auto simp: List.map_filter_def unlocks_def simp del: str_Cons)
  let ?dec = "FileVaultSource_new (assemble r' (keys, base, sz, info))"
  have dec: "source_ok P ok ?dec" "source_bytes P img ?dec = ?plain" "FileVaultSource_len ?dec = sz"
    using r'(1,2) assms(2) unlock_spec_keys_ok [OF assms(3) spec] assms(9)
    by (simp_all add: source_ok_def source_bytes_def FileVaultSource_new_def FileVaultSource_len_def volume_ok_def
        volume_bytes_def DecryptedVolume_new_def assemble_def FileVaultVolume_size_def DecryptedVolume_size_def)
  obtain dec' where read: "FileVaultSource_read_at P ops VE 1024 512 ?dec = Some (dec', Ok (window 1024 512 ?plain))"
    using image_reader.source_read [OF assms(4) dec(1), of 512 VE 1024] dec(2) by auto
  have "length ?plain = unat sz"
    using length_plaintext [OF assms(2) unlock_spec_keys_ok [OF assms(3) spec], of "unat sz"] assms(9)
    by (simp add: extent_ok_def)
  then have "length (window 1024 512 ?plain) = 512" if "sz = 167772160"
    using that by simp
  moreover have "FileVaultLayer_open P ops VE ?layer (?creds []) = Some (Err (NeedCredentials ''filevault'' ''''))"
    by (simp add: FileVaultLayer_open_def)
  ultimately show ?thesis
    by (simp add: test_filevault_cryptolayer_decrypts_fvdetest_def scheme_def r'(3) dec(3) read assert_that_def
        copy_at_def del: str_Cons credentials_for.simps)
qed

end
