(* ===== verification/Unit_Tests_Unlock.thy ===== *)
theory Unit_Tests_Unlock
  imports Unit_Tests Fixtures_Context
begin

text \<open>
  The unit tests of the key hierarchy (\<open>core/src/unlock.rs\<close>) against the test vectors of a real
  volume. The vectors are values of PBKDF2, RFC 3394 and SHA-256, published in \<open>docs/RESEARCH.md\<close>:
  they are hypotheses on the crates, and the tests show what the hierarchy makes of them.
\<close>

section \<open>Test vectors\<close>

definition vector_pk :: bytes where
  "vector_pk =
    [0x0e, 0xc2, 0x84, 0x93, 0x49, 0xf9, 0x14, 0xe8, 0xbd, 0xbc, 0x18, 0x9a, 0xc0, 0x9c, 0x8b, 0xc7]"

definition vector_kek :: bytes where
  "vector_kek =
    [0xa2, 0x54, 0x3f, 0x0b, 0x8a, 0x6f, 0xc5, 0xcf, 0x2e, 0xaf, 0x7e, 0x76, 0xc9, 0x5e, 0xf4, 0x9c]"

definition vector_vmk :: bytes where
  "vector_vmk =
    [0xd0, 0xd9, 0xc3, 0x23, 0x19, 0x7c, 0x62, 0x40, 0x1c, 0x6e, 0x6b, 0x48, 0xf1, 0xc0, 0xf9, 0xd7]"

definition vector_family :: bytes where
  "vector_family =
    [0x1f, 0x01, 0xca, 0x34, 0x5f, 0x6c, 0x41, 0x23, 0xac, 0x0c, 0xb0, 0xa2, 0x56, 0x88, 0x9d, 0xb2]"

definition vector_tweak_key :: bytes where
  "vector_tweak_key =
    [0x53, 0xa1, 0x7b, 0xa3, 0x21, 0x3e, 0xc2, 0x13, 0xbe, 0xdc, 0xc3, 0x4f, 0xe4, 0xe2, 0x39, 0xaf]"

lemmas vector_defs = truth_salt_def vector_pk_def truth_wrapped_kek_def vector_kek_def truth_wrapped_vmk_def
  vector_vmk_def vector_family_def vector_tweak_key_def

lemma vector_literals:
  "hexn 16 (str ''9bfcf480e4d9ad0eddd9ac6f47b85955'') = Ok truth_salt"
  "hexn 16 (str ''0ec2849349f914e8bdbc189ac09c8bc7'') = Ok vector_pk"
  "hexn 24 (str ''ebbc1f64b9684eb4b26bfba3f85578677bab8cfafaf7b2c1'') = Ok truth_wrapped_kek"
  "hexn 16 (str ''a2543f0b8a6fc5cf2eaf7e76c95ef49c'') = Ok vector_kek"
  "hexn 24 (str ''9a5b30e99f902ed8e2f03989e5f9c1543ed60512aa1dc9d1'') = Ok truth_wrapped_vmk"
  "hexn 16 (str ''d0d9c323197c62401c6e6b48f1c0f9d7'') = Ok vector_vmk"
  "hexn 16 (str ''1f01ca345f6c4123ac0cb0a256889db2'') = Ok vector_family"
  "hexn 16 (str ''53a17ba3213ec213bedcc34fe4e239af'') = Ok vector_tweak_key"
  by (rule hexn_literal; simp add: digit_byte vector_defs)+

lemma vector_lengths [simp]: "length vector_vmk = 16" "length vector_kek = 16"
  by (simp_all add: vector_defs)

section \<open>Tests\<close>

definition test_pbkdf2_matches_ground_truth :: "prims \<Rightarrow> unit fv" where
  "test_pbkdf2_matches_ground_truth P =
    chain (hexn 16 (str ''9bfcf480e4d9ad0eddd9ac6f47b85955'')) (\<lambda>salt.
    let pk = passphrase_key P (str ''fvde-TEST'') salt 90506 in
      assert_reads (hexn 16 (str ''0ec2849349f914e8bdbc189ac09c8bc7'')) pk)"

definition test_aes_kw_unwrap_kek_matches_ground_truth :: "prims \<Rightarrow> unit fv" where
  "test_aes_kw_unwrap_kek_matches_ground_truth P =
    chain (hexn 16 (str ''0ec2849349f914e8bdbc189ac09c8bc7'')) (\<lambda>pk.
    chain (hexn 24 (str ''ebbc1f64b9684eb4b26bfba3f85578677bab8cfafaf7b2c1'')) (\<lambda>wrapped.
    chain (unwrap (aes_kw_unwrap P pk wrapped ''KEK'')) (\<lambda>kek.
      assert_reads (hexn 16 (str ''a2543f0b8a6fc5cf2eaf7e76c95ef49c'')) kek)))"

definition test_aes_kw_unwrap_vmk_matches_ground_truth :: "prims \<Rightarrow> unit fv" where
  "test_aes_kw_unwrap_vmk_matches_ground_truth P =
    chain (hexn 16 (str ''a2543f0b8a6fc5cf2eaf7e76c95ef49c'')) (\<lambda>kek.
    chain (hexn 24 (str ''9a5b30e99f902ed8e2f03989e5f9c1543ed60512aa1dc9d1'')) (\<lambda>wrapped.
    chain (unwrap (aes_kw_unwrap P kek wrapped ''VMK'')) (\<lambda>vmk.
      assert_reads (hexn 16 (str ''d0d9c323197c62401c6e6b48f1c0f9d7'')) vmk)))"

definition test_wrong_key_fails_unwrap_loudly :: "prims \<Rightarrow> unit fv" where
  "test_wrong_key_fails_unwrap_loudly P =
    (let bad = replicate 16 0 in
     chain (hexn 24 (str ''ebbc1f64b9684eb4b26bfba3f85578677bab8cfafaf7b2c1'')) (\<lambda>wrapped.
       assert_matches (aes_kw_unwrap P bad wrapped ''KEK'') (\<lambda>c. c = Err (KeyUnwrap ''KEK''))))"

text \<open>The context that the last two tests share.\<close>

definition vector_context :: "EncryptionContext fv" where
  "vector_context =
    chain (hexn 16 (str ''9bfcf480e4d9ad0eddd9ac6f47b85955'')) (\<lambda>salt.
    chain (hexn 24 (str ''ebbc1f64b9684eb4b26bfba3f85578677bab8cfafaf7b2c1'')) (\<lambda>wrapped_kek.
    chain (hexn 24 (str ''9a5b30e99f902ed8e2f03989e5f9c1543ed60512aa1dc9d1'')) (\<lambda>wrapped_vmk.
      Ok \<lparr>ec_salt = salt, ec_iterations = 90506, ec_wrapped_kek = wrapped_kek, ec_wrapped_vmk = wrapped_vmk,
          ec_protectors = [], ec_conversion_status = None\<rparr>)))"

definition test_full_hierarchy_derives_vmk_and_tweak_key :: "prims \<Rightarrow> unit fv" where
  "test_full_hierarchy_derives_vmk_and_tweak_key P =
    chain vector_context (\<lambda>ctx.
    chain (hexn 16 (str ''1f01ca345f6c4123ac0cb0a256889db2'')) (\<lambda>family.
    chain (unwrap (derive_volume_keys P (str ''fvde-TEST'') ctx family)) (\<lambda>keys.
    in_order [
      assert_reads (hexn 16 (str ''d0d9c323197c62401c6e6b48f1c0f9d7'')) (vk_vmk keys),
      assert_reads (hexn 16 (str ''53a17ba3213ec213bedcc34fe4e239af'')) (vk_tweak_key keys)])))"

definition test_wrong_password_surfaces_key_unwrap_error :: "prims \<Rightarrow> unit fv" where
  "test_wrong_password_surfaces_key_unwrap_error P =
    chain vector_context (\<lambda>ctx.
    chain (hexn 16 (str ''1f01ca345f6c4123ac0cb0a256889db2'')) (\<lambda>family.
      assert_matches (derive_volume_keys P (str ''wrong-password'') ctx family)
        (\<lambda>c. case c of Err (KeyUnwrap _) \<Rightarrow> True | _ \<Rightarrow> False)))"

section \<open>They pass\<close>

text \<open>What is published of the functions: their values at the test vectors.\<close>

definition vectors_documented :: "prims \<Rightarrow> bool" where
  "vectors_documented P \<longleftrightarrow> kdf_documented P \<and>
    pbkdf2_sha256 P (str ''fvde-TEST'') truth_salt 90506 = Some vector_pk \<and>
    kw_unwrap P vector_pk truth_wrapped_kek = Some vector_kek \<and>
    kw_unwrap P vector_kek truth_wrapped_vmk = Some vector_vmk \<and>
    take 16 (sha256 P (vector_vmk @ vector_family)) = vector_tweak_key"

text \<open>Neither the zero key nor the key of another password unwraps the KEK.\<close>

definition wrong_keys_fail :: "prims \<Rightarrow> bool" where
  "wrong_keys_fail P \<longleftrightarrow> kw_unwrap P (replicate 16 0) truth_wrapped_kek = None \<and>
    (\<forall>pk. pbkdf2_sha256 P (str ''wrong-password'') truth_salt 90506 = Some pk \<longrightarrow>
      kw_unwrap P pk truth_wrapped_kek = None)"

lemma vector_context_eq: "vector_context =
    Ok \<lparr>ec_salt = truth_salt, ec_iterations = 90506, ec_wrapped_kek = truth_wrapped_kek,
        ec_wrapped_vmk = truth_wrapped_vmk, ec_protectors = [], ec_conversion_status = None\<rparr>"
  unfolding vector_context_def vector_literals by simp

lemma vector_passphrase_key:
  assumes "kdf_documented P"
  shows "pbkdf2_sha256 P pw salt 90506 = Some (passphrase_key P pw salt 90506)"
proof -
  have rounds: "max (90506 :: u32) 1 = 90506"
    by (simp add: max_def word_le_nat_alt)
  have "(0 :: u32) < 90506"
    by simp
  then obtain k where "pbkdf2_sha256 P pw salt 90506 = Some k"
    using assms unfolding kdf_documented_def by blast
  then show ?thesis
    by (simp add: passphrase_key_def rounds)
qed

lemma vector_keys:
  assumes "vectors_documented P"
  shows "passphrase_key P (str ''fvde-TEST'') truth_salt 90506 = vector_pk"
    and "aes_kw_unwrap P vector_pk truth_wrapped_kek what = Ok vector_kek"
    and "aes_kw_unwrap P vector_kek truth_wrapped_vmk what = Ok vector_vmk"
    and "slice_get (sha256 P (vector_vmk @ vector_family)) 0 16 = Some vector_tweak_key"
  using assms vector_passphrase_key [of P "str ''fvde-TEST''" truth_salt] tweak_slice [of P "vector_vmk @ vector_family"]
  by (auto simp: vectors_documented_def aes_kw_unwrap_def simp del: str_Cons)

lemma vector_tests_pass:
  assumes "vectors_documented P"
  shows "test_pbkdf2_matches_ground_truth P = Ok ()"
    and "test_aes_kw_unwrap_kek_matches_ground_truth P = Ok ()"
    and "test_aes_kw_unwrap_vmk_matches_ground_truth P = Ok ()"
    and "test_full_hierarchy_derives_vmk_and_tweak_key P = Ok ()"
  using vector_keys [OF assms]
  by (simp_all add: test_pbkdf2_matches_ground_truth_def test_aes_kw_unwrap_kek_matches_ground_truth_def
      test_aes_kw_unwrap_vmk_matches_ground_truth_def test_full_hierarchy_derives_vmk_and_tweak_key_def
      vector_literals vector_context_eq derive_volume_keys_def Let_def del: str_Cons)

lemma wrong_key_tests_pass:
  assumes "kdf_documented P" and "wrong_keys_fail P"
  shows "test_wrong_key_fails_unwrap_loudly P = Ok ()"
    and "test_wrong_password_surfaces_key_unwrap_error P = Ok ()"
proof -
  have "kw_unwrap P (passphrase_key P (str ''wrong-password'') truth_salt 90506) truth_wrapped_kek = None"
    using vector_passphrase_key [OF assms(1)] assms(2) unfolding wrong_keys_fail_def by blast
  then show "test_wrong_password_surfaces_key_unwrap_error P = Ok ()"
    by (simp add: test_wrong_password_surfaces_key_unwrap_error_def vector_literals vector_context_eq
        derive_volume_keys_def aes_kw_unwrap_def Let_def del: str_Cons)
  show "test_wrong_key_fails_unwrap_loudly P = Ok ()"
    using assms(2)
    by (simp add: test_wrong_key_fails_unwrap_loudly_def vector_literals wrong_keys_fail_def aes_kw_unwrap_def
        del: str_Cons)
qed

text \<open>Functions given by the table of vectors satisfy both.\<close>

definition table_prims :: "prims \<Rightarrow> prims" where
  "table_prims P = P
    \<lparr>pbkdf2_sha256 := (\<lambda>pw salt rounds. Some (if pw = str ''fvde-TEST'' then vector_pk else replicate 16 0)),
     kw_unwrap := (\<lambda>kek w.
       if kek = vector_pk \<and> w = truth_wrapped_kek then Some vector_kek
       else if kek = vector_kek \<and> w = truth_wrapped_vmk then Some vector_vmk
       else None),
     sha256 := (\<lambda>bs. vector_tweak_key @ replicate 16 0)\<rparr>"

lemma table_documented: "vectors_documented (table_prims P)" "wrong_keys_fail (table_prims P)"
proof -
  have "length vector_pk = 16" "length vector_tweak_key = 16"
    by (simp_all add: vector_defs)
  moreover have "hd vector_pk = 0x0e" "hd vector_kek = 0xa2" "hd (replicate 16 0 :: bytes) = 0"
    by (simp_all add: vector_defs)
  then have "vector_kek \<noteq> vector_pk" "replicate 16 0 \<noteq> vector_pk" "replicate 16 0 \<noteq> vector_kek"
    by (auto dest: arg_cong [of _ _ hd])
  ultimately show "vectors_documented (table_prims P)" "wrong_keys_fail (table_prims P)"
    by (auto simp: vectors_documented_def wrong_keys_fail_def kdf_documented_def table_prims_def split: if_splits)
qed

end
