(* ===== verification/Unit_Tests_Auditor.thy ===== *)
theory Unit_Tests_Auditor
  imports Unit_Tests_Volume Auditor_Image
begin

text \<open>
  The tests of the anomaly auditor: the unit tests over an information built by hand
  (\<open>forensic/src/tests.rs\<close>) and the tests of its entry points over the synthetic image
  (\<open>forensic/tests/entry_points.rs\<close>). The fields of a finding belong to the crate \<open>forensicnomicon\<close>
  and the file system to the operating system; both are parameters.
\<close>

section \<open>The vocabulary of the tests\<close>

text \<open>\<open>str::contains\<close> on byte strings.\<close>

fun contains :: "bytes \<Rightarrow> bytes \<Rightarrow> bool" where
  "contains [] p \<longleftrightarrow> p = []"
| "contains (x # xs) p \<longleftrightarrow> take (length p) (x # xs) = p \<or> contains xs p"

definition the_code :: "string \<Rightarrow> 'sev Anomaly list \<Rightarrow> 'sev Anomaly fv" where
  "the_code c anomalies = or_panic (find (\<lambda>a. an_code a = str c) anomalies)"

definition no_code :: "string \<Rightarrow> 'sev Anomaly list \<Rightarrow> bool" where
  "no_code c anomalies \<longleftrightarrow> list_all (\<lambda>a. an_code a \<noteq> str c) anomalies"

record ('f, 'loc) finding_fields =
  ff_code :: "'f \<Rightarrow> bytes"
  ff_source :: "'f \<Rightarrow> Source"
  ff_evidence :: "'f \<Rightarrow> 'loc Evidence list"

text \<open>\<open>to_finding\<close> hands the code and the evidence of the observation and its source on to the finding.\<close>

definition to_finding_documented ::
  "('f, 'loc) finding_fields \<Rightarrow> (('sev, 'cat, 'sub, 'loc) Observation \<Rightarrow> Source \<Rightarrow> 'f) \<Rightarrow> bool" where
  "to_finding_documented F to_finding \<longleftrightarrow>
    (\<forall>obs source. ff_code F (to_finding obs source) = obs_code obs \<and>
      ff_source F (to_finding obs source) = source \<and> ff_evidence F (to_finding obs source) = obs_evidence obs)"

record ('fs, 'path, 'r) file_system =
  fl_write :: "'path \<Rightarrow> bytes \<Rightarrow> 'fs \<Rightarrow> (io_error, 'fs) comp"
  fl_open :: "'fs \<Rightarrow> 'path \<Rightarrow> (io_error, 'r) comp"

text \<open>A file that was written is opened as a reader of what was written.\<close>

definition file_documented ::
  "('fs, 'path, 'r) file_system \<Rightarrow> ('r \<Rightarrow> bool) \<Rightarrow> ('r \<Rightarrow> bytes) \<Rightarrow> 'path \<Rightarrow> 'fs \<Rightarrow> bool" where
  "file_documented Fl ok img path fs \<longleftrightarrow>
    (\<forall>bs. length bs < 2 ^ 63 \<longrightarrow> (\<exists>fs' r. fl_write Fl path bs fs = Ok fs' \<and> fl_open Fl fs' path = Ok r \<and> ok r \<and> img r = bs))"

section \<open>Tests over an information\<close>

definition test_info :: "u32 \<Rightarrow> string option \<Rightarrow> ProtectorKind list \<Rightarrow> FileVaultInfo" where
  "test_info iterations status kinds =
    \<lparr>fvi_physical_volume_identifier = str ''3273a055-3b8b-47e8-b970-df35eecda81b'',
     fvi_pbkdf2_iterations = iterations, fvi_pbkdf2_salt = replicate 16 0,
     fvi_family_uuid = str ''1F01CA34-5F6C-4123-AC0C-B0A256889DB2'',
     fvi_lv_identifier = Some (str ''420AF122-CF73-4A30-8B0A-A593A65FBEF5''),
     fvi_lv_name = Some (str ''TestLV''), fvi_lv_size = 167772160,
     fvi_encryption_method = str ''AES-XTS-128'', fvi_conversion_status = map_option str status,
     fvi_protectors = map (\<lambda>kind. \<lparr>pr_user_type = 0, pr_kind = kind\<rparr>) kinds\<rparr>"

definition test_reports_protector_inventory :: "('sev, 'cat) report_vocab \<Rightarrow> unit fv" where
  "test_reports_protector_inventory V =
    (let anomalies = audit_info V (test_info 90506 (Some ''Complete'') [Password]) in
     chain (the_code ''FVDE-PROTECTOR-INVENTORY'' anomalies) (\<lambda>inv.
     in_order [
       assert_that (an_severity inv = rv_info V),
       assert_that (contains (an_note inv) (str ''password'')),
       assert_that (contains (an_note inv) (str ''1''))]))"

definition test_protector_summary_is_sorted_and_deduped_labels :: "('sev, 'cat) report_vocab \<Rightarrow> unit fv" where
  "test_protector_summary_is_sorted_and_deduped_labels V =
    (let anomalies = audit_info V (test_info 90506 (Some ''Complete'') [Recovery, Password]) in
     chain (the_code ''FVDE-PROTECTOR-INVENTORY'' anomalies) (\<lambda>inv.
       assert_that (contains (an_note inv) (str ''password, recovery''))))"

definition test_empty_protectors_reports_none :: "('sev, 'cat) report_vocab \<Rightarrow> unit fv" where
  "test_empty_protectors_reports_none V =
    (let anomalies = audit_info V (test_info 90506 None []) in
     chain (the_code ''FVDE-PROTECTOR-INVENTORY'' anomalies) (\<lambda>inv.
       assert_that (contains (an_note inv) (str ''none''))))"

definition test_reports_encryption_state :: "('sev, 'cat) report_vocab \<Rightarrow> unit fv" where
  "test_reports_encryption_state V =
    (let anomalies = audit_info V (test_info 90506 (Some ''Complete'') [Password]) in
     chain (the_code ''FVDE-ENCRYPTION-STATE'' anomalies) (\<lambda>state.
     in_order [
       assert_that (an_severity state = rv_info V),
       assert_that (contains (an_note state) (str ''Complete''))]))"

definition test_no_conversion_status_omits_encryption_state :: "('sev, 'cat) report_vocab \<Rightarrow> unit fv" where
  "test_no_conversion_status_omits_encryption_state V =
    assert_that (no_code ''FVDE-ENCRYPTION-STATE'' (audit_info V (test_info 90506 None [Password])))"

definition test_fvdetest_iterations_not_flagged_weak :: "('sev, 'cat) report_vocab \<Rightarrow> unit fv" where
  "test_fvdetest_iterations_not_flagged_weak V =
    assert_that (no_code ''FVDE-WEAK-KDF-ITERATIONS'' (audit_info V (test_info 90506 (Some ''Complete'') [Password])))"

definition test_low_iterations_flagged_weak :: "('sev, 'cat) report_vocab \<Rightarrow> unit fv" where
  "test_low_iterations_flagged_weak V =
    (let anomalies = audit_info V (test_info 1000 (Some ''Complete'') [Password]) in
     chain (the_code ''FVDE-WEAK-KDF-ITERATIONS'' anomalies) (\<lambda>weak.
     in_order [
       assert_that (an_severity weak = rv_medium V),
       assert_that (contains (an_note weak) (str ''1000'')),
       assert_that (category V (an_kind weak) = rv_integrity V)]))"

definition test_observation_trait_maps_to_finding ::
  "('sev, 'cat) report_vocab \<Rightarrow> ('f, 'loc) finding_fields \<Rightarrow>
    (('sev, 'cat, 'sub, 'loc) Observation \<Rightarrow> Source \<Rightarrow> 'f) \<Rightarrow> unit fv" where
  "test_observation_trait_maps_to_finding V F to_finding =
    (let anomalies = audit_info V (test_info 90506 (Some ''Complete'') [Password]);
         source = \<lparr>so_analyzer = ANALYZER, so_scope = str ''test.raw'', so_version = None\<rparr>
     in chain (or_panic (if anomalies = [] then None else Some (hd anomalies))) (\<lambda>first.
        let finding = to_finding (observe V first) source in
        in_order [
          assert_that (ff_code F finding = str ''FVDE-PROTECTOR-INVENTORY''),
          assert_that (so_analyzer (ff_source F finding) = str ''filevault-forensic''),
          assert_that (ff_evidence F finding \<noteq> [])]))"

definition test_mitre_and_subjects_are_empty :: "('sev, 'cat) report_vocab \<Rightarrow> ('sub \<times> 'loc) itself \<Rightarrow> unit fv" where
  "test_mitre_and_subjects_are_empty V T =
    (let a = Anomaly_new V (EncryptionState (str ''Complete''));
         obs = observe V a :: ('sev, 'cat, 'sub, 'loc) Observation
     in in_order [
       assert_that (mitre (an_kind a) = []),
       assert_that (obs_subjects obs = []),
       assert_that (obs_code obs = str ''FVDE-ENCRYPTION-STATE''),
       assert_that (obs_note obs = an_note a),
       assert_that (obs_severity obs = Some (rv_info V))])"

section \<open>Tests of the entry points\<close>

definition test_audit_over_synthetic_image_yields_all_kinds ::
  "('sev, 'cat) report_vocab \<Rightarrow> prims \<Rightarrow> encoders \<Rightarrow> unit fv option" where
  "test_audit_over_synthetic_image_yields_all_kinds V P E =
    given (auditor_image E 1000 (str ''Converting'')) (\<lambda>img.
    on_volume (cursor_new img) (andThen (unwrapped (audit V P cursor_ops)) (\<lambda>anomalies.
    let codes = map an_code anomalies in
    return (in_order [
      assert_that (str ''FVDE-PROTECTOR-INVENTORY'' \<in> set codes),
      assert_that (str ''FVDE-ENCRYPTION-STATE'' \<in> set codes),
      assert_that (str ''FVDE-WEAK-KDF-ITERATIONS'' \<in> set codes),
      chain (the_code ''FVDE-ENCRYPTION-STATE'' anomalies) (\<lambda>state.
        assert_that (contains (an_note state) (str ''Converting''))),
      chain (the_code ''FVDE-WEAK-KDF-ITERATIONS'' anomalies) (\<lambda>weak.
        in_order [
          assert_that (an_severity weak = rv_medium V),
          assert_that (contains (an_note weak) (str ''1000''))])]))))"

definition test_audit_findings_maps_every_kind_with_evidence ::
  "('sev, 'cat) report_vocab \<Rightarrow> prims \<Rightarrow> encoders \<Rightarrow> ('f, 'loc) finding_fields \<Rightarrow>
    (('sev, 'cat, 'sub, 'loc) Observation \<Rightarrow> Source \<Rightarrow> 'f) \<Rightarrow> bytes \<Rightarrow> unit fv option" where
  "test_audit_findings_maps_every_kind_with_evidence V P E F to_finding pkg_version =
    given (auditor_image E 1000 (str ''Converting'')) (\<lambda>img.
    on_volume (cursor_new img)
      (andThen (unwrapped (audit_findings V P to_finding pkg_version cursor_ops (str ''synthetic.raw''))) (\<lambda>findings.
    return (in_order [
      assert_that (length findings = 3),
      in_order (map (\<lambda>f. in_order [
        assert_that (so_analyzer (ff_source F f) = str ''filevault-forensic''),
        assert_that (so_scope (ff_source F f) = str ''synthetic.raw''),
        assert_that (ff_evidence F f \<noteq> [])]) findings),
      chain (or_panic (find (\<lambda>f. ff_code F f = str ''FVDE-ENCRYPTION-STATE'') findings)) (\<lambda>state.
        assert_that (list_ex (\<lambda>e. evi_field e = str ''conversion_status'') (ff_evidence F state))),
      chain (or_panic (find (\<lambda>f. ff_code F f = str ''FVDE-WEAK-KDF-ITERATIONS'') findings)) (\<lambda>weak.
        assert_that (list_ex (\<lambda>e. evi_field e = str ''pbkdf2_iterations'') (ff_evidence F weak)))]))))"

text \<open>The file is removed at the end of the test, which ignores whether that succeeds.\<close>

definition test_audit_path_reads_a_file ::
  "('sev, 'cat) report_vocab \<Rightarrow> prims \<Rightarrow> encoders \<Rightarrow> 'r read_seek \<Rightarrow> ('fs, 'path, 'r) file_system \<Rightarrow>
    'path \<Rightarrow> 'fs \<Rightarrow> unit fv option" where
  "test_audit_path_reads_a_file V P E ops Fl path fs =
    given (auditor_image E 50000 (str ''Complete'')) (\<lambda>img.
    given (unwrap (fl_write Fl path img fs)) (\<lambda>fs.
    map_option (\<lambda>c. chain (unwrap c) (\<lambda>anomalies.
      in_order [
        assert_that (no_code ''FVDE-WEAK-KDF-ITERATIONS'' anomalies),
        assert_that (list_ex (\<lambda>a. an_code a = str ''FVDE-PROTECTOR-INVENTORY'') anomalies)]))
      (audit_path V P ops (fl_open Fl fs) path)))"

definition test_audit_path_missing_file_errors ::
  "('sev, 'cat) report_vocab \<Rightarrow> prims \<Rightarrow> 'r read_seek \<Rightarrow> ('fs, 'path, 'r) file_system \<Rightarrow>
    'path \<Rightarrow> 'fs \<Rightarrow> unit fv option" where
  "test_audit_path_missing_file_errors V P ops Fl missing_path fs =
    map_option (\<lambda>c. assert_matches c (\<lambda>c. case c of Err _ \<Rightarrow> True | _ \<Rightarrow> False))
      (audit_path V P ops (fl_open Fl fs) missing_path)"

section \<open>They pass\<close>

lemma audit_of_test_info:
  "audit_info V (test_info i st ks) = map (Anomaly_new V)
    ([ProtectorInventory (protector_summary (test_info i st ks)) (length ks)] @
     (case st of Some s \<Rightarrow> [EncryptionState (str s)] | None \<Rightarrow> []) @
     (if i < 20000 then [WeakKdfIterations i] else []))"
  by (simp add: audit_info_def test_info_def WEAK_KDF_THRESHOLD_def split: option.split)

lemma codes_differ [simp]:
  "str ''FVDE-PROTECTOR-INVENTORY'' \<noteq> str ''FVDE-ENCRYPTION-STATE''"
  "str ''FVDE-PROTECTOR-INVENTORY'' \<noteq> str ''FVDE-WEAK-KDF-ITERATIONS''"
  "str ''FVDE-ENCRYPTION-STATE'' \<noteq> str ''FVDE-WEAK-KDF-ITERATIONS''"
  by simp_all

lemma summaries:
  "protector_summary (test_info i st []) = str ''none''"
  "protector_summary (test_info i st [Password]) = str ''password''"
  "protector_summary (test_info i st [Recovery, Password]) = str ''password, recovery''"
  by (simp_all add: protector_summary_def test_info_def)

lemma contains_prefix: "contains (p @ ys) p"
  by (cases p; cases ys) simp_all

lemma contains_after: "contains ys p \<Longrightarrow> contains (xs @ ys) p"
  by (induction xs) simp_all

lemma contains_end: "contains (xs @ p) p"
  using contains_after [OF contains_prefix [of p "[]"]] by simp

lemma note_texts:
  "contains (anomaly_note (ProtectorInventory s n)) s"
  "contains (anomaly_note (ProtectorInventory s n)) (str (show_nat n))"
  "contains (anomaly_note (EncryptionState s)) s"
  "contains (anomaly_note (WeakKdfIterations i)) (str (show_nat (unat i)))"
  by (simp_all add: contains_end contains_prefix contains_after del: str_Cons)

lemma show_nats: "show_nat 1 = ''1''" "show_nat (unat (1000 :: u32)) = ''1000''"
  by code_simp+

lemma digit_notes:
  "contains (anomaly_note (ProtectorInventory s 1)) (str ''1'')"
  "contains (anomaly_note (WeakKdfIterations 1000)) (str ''1000'')"
  using note_texts(2) [of s 1] note_texts(4) [of 1000] by (simp_all only: show_nats)

lemmas auditor_test_simps = Let_def audit_of_test_info the_code_def no_code_def Anomaly_new_def observe_def summaries
  note_texts digit_notes [unfolded One_nat_def]

lemma info_tests_pass:
  "test_reports_protector_inventory V = Ok ()"
  "test_protector_summary_is_sorted_and_deduped_labels V = Ok ()"
  "test_empty_protectors_reports_none V = Ok ()"
  "test_reports_encryption_state V = Ok ()"
  "test_no_conversion_status_omits_encryption_state V = Ok ()"
  "test_fvdetest_iterations_not_flagged_weak V = Ok ()"
  "test_low_iterations_flagged_weak V = Ok ()"
  "test_mitre_and_subjects_are_empty V T = Ok ()"
  by (simp_all add: test_reports_protector_inventory_def test_protector_summary_is_sorted_and_deduped_labels_def
      test_empty_protectors_reports_none_def test_reports_encryption_state_def
      test_no_conversion_status_omits_encryption_state_def test_fvdetest_iterations_not_flagged_weak_def
      test_low_iterations_flagged_weak_def test_mitre_and_subjects_are_empty_def mitre_def subjects_def
      auditor_test_simps del: str_Cons anomaly_note.simps)

lemma finding_test_passes:
  assumes "to_finding_documented F to_finding"
  shows "test_observation_trait_maps_to_finding V F to_finding = Ok ()"
  using assms
  by (simp add: test_observation_trait_maps_to_finding_def to_finding_documented_def auditor_test_simps ANALYZER_def
      del: str_Cons anomaly_note.simps)

lemma fixture_statuses:
  "lt \<notin> set (str ''Converting'')" "utf8_valid (str ''Converting'')" "length (str ''Converting'') \<le> 6257"
  "lt \<notin> set (str ''Complete'')" "utf8_valid (str ''Complete'')" "length (str ''Complete'') \<le> 6257"
  by (auto intro!: utf8_valid_str)

lemma weak_image_kinds:
  "image_kinds 1000 s = [ProtectorInventory (str ''password'') 1, EncryptionState s, WeakKdfIterations 1000]"
  "image_kinds 50000 s = [ProtectorInventory (str ''password'') 1, EncryptionState s]"
  by (simp_all add: image_kinds_def)

lemma entry_point_tests_pass:
  assumes "xts_documented P" and "encrypt_documented P E" and "text_documented P E"
  shows "test_audit_over_synthetic_image_yields_all_kinds V P E = Some (Ok ())"
    and "to_finding_documented F to_finding \<Longrightarrow>
      test_audit_findings_maps_every_kind_with_evidence V P E F to_finding pkg_version = Some (Ok ())"
proof -
  obtain bs where bs: "auditor_image E 1000 (str ''Converting'') = Ok bs" "length bs = 12288"
      "\<forall>r. cursor_ok r \<and> cur_data r = bs \<longrightarrow> (\<exists>r'. audit V P cursor_ops r =
        Some (r', Ok (map (Anomaly_new V) (image_kinds 1000 (str ''Converting'')))))"
    using auditor_image_audited [OF assms fixture_statuses(1-3) cur.image_reader_axioms] .
  then obtain r where audit: "audit V P cursor_ops (cursor_new bs) =
      Some (r, Ok (map (Anomaly_new V) (image_kinds 1000 (str ''Converting''))))"
    using cursor_image [of bs] by auto
  show "test_audit_over_synthetic_image_yields_all_kinds V P E = Some (Ok ())"
    by (simp add: test_audit_over_synthetic_image_yields_all_kinds_def bs(1) on_volume_def unwrapped_def andThen_def
        return_def audit weak_image_kinds auditor_test_simps del: str_Cons anomaly_note.simps)
  show "test_audit_findings_maps_every_kind_with_evidence V P E F to_finding pkg_version = Some (Ok ())"
    if "to_finding_documented F to_finding"
    using that
    by (simp add: test_audit_findings_maps_every_kind_with_evidence_def bs(1) on_volume_def unwrapped_def andThen_def
        return_def audit_findings_def audit weak_image_kinds to_finding_documented_def ANALYZER_def evidence_item_def
        auditor_test_simps del: str_Cons anomaly_note.simps)
qed

lemma path_tests_pass:
  assumes "xts_documented P" and "encrypt_documented P E" and "text_documented P E"
    and "image_reader ops ok img pos patience"
  shows "file_documented Fl ok img path fs \<Longrightarrow> test_audit_path_reads_a_file V P E ops Fl path fs = Some (Ok ())"
    and "fl_open Fl fs missing_path = Err e \<Longrightarrow>
      test_audit_path_missing_file_errors V P ops Fl missing_path fs = Some (Ok ())"
proof -
  obtain bs where bs: "auditor_image E 50000 (str ''Complete'') = Ok bs" "length bs = 12288"
      "\<forall>r. ok r \<and> img r = bs \<longrightarrow> (\<exists>r'. audit V P ops r =
        Some (r', Ok (map (Anomaly_new V) (image_kinds 50000 (str ''Complete'')))))"
    using auditor_image_audited [OF assms(1-3) fixture_statuses(4-6) assms(4)] .
  show "test_audit_path_reads_a_file V P E ops Fl path fs = Some (Ok ())" if files: "file_documented Fl ok img path fs"
  proof -
    have "length bs < 2 ^ 63"
      using bs(2) by simp
    then obtain fs' r where "fl_write Fl path bs fs = Ok fs'" "fl_open Fl fs' path = Ok r" "ok r" "img r = bs"
      using files unfolding file_documented_def by blast
    with bs(3) show ?thesis
      by (auto simp: test_audit_path_reads_a_file_def bs(1) audit_path_def weak_image_kinds
          auditor_test_simps simp del: str_Cons anomaly_note.simps)
  qed
  show "test_audit_path_missing_file_errors V P ops Fl missing_path fs = Some (Ok ())"
    if "fl_open Fl fs missing_path = Err e"
    using that by (simp add: test_audit_path_missing_file_errors_def audit_path_def)
qed

section \<open>Property\<close>

text \<open>
  The model passes the program's own tests of the auditor: on the information of a volume the
  inventory with its sorted labels, the encryption state exactly if it is known, the weak key
  derivation exactly for few iterations, each with its severity, note, category and finding; and
  through its entry points the anomalies and findings of the synthetic image, of an image in a file,
  and the error for a file that is missing. This holds for all crates that encrypt, decode and report
  as documented, and for every file system and conforming reader.
\<close>

theorem auditor_tests_pass:
  assumes "xts_documented P" and "encrypt_documented P E" and "text_documented P E"
    and "to_finding_documented F to_finding"
    and "image_reader ops ok img pos patience" and "file_documented Fl ok img path fs"
    and "fl_open Fl fs' missing_path = Err e"
  shows "list_all (\<lambda>test. test = Ok ()) [
      test_reports_protector_inventory V, test_protector_summary_is_sorted_and_deduped_labels V,
      test_empty_protectors_reports_none V, test_reports_encryption_state V,
      test_no_conversion_status_omits_encryption_state V, test_fvdetest_iterations_not_flagged_weak V,
      test_low_iterations_flagged_weak V, test_observation_trait_maps_to_finding V F to_finding,
      test_mitre_and_subjects_are_empty V T] \<and>
    list_all (\<lambda>test. test = Some (Ok ())) [
      test_audit_over_synthetic_image_yields_all_kinds V P E,
      test_audit_findings_maps_every_kind_with_evidence V P E F to_finding pkg_version,
      test_audit_path_reads_a_file V P E ops Fl path fs,
      test_audit_path_missing_file_errors V P ops Fl missing_path fs']"
  by (simp only: list.pred_inject simp_thms info_tests_pass finding_test_passes [OF assms(4)]
      entry_point_tests_pass [OF assms(1-3)] entry_point_tests_pass(2) [OF assms(1-4)]
      path_tests_pass(1) [OF assms(1-3,5,6)] path_tests_pass(2) [OF assms(1-3,5,7)])

text \<open>Findings that are the observation with its source, and files as a map of their contents.\<close>

definition memory_files :: "(nat \<rightharpoonup> bytes, nat, cursor) file_system" where
  "memory_files = \<lparr>fl_write = (\<lambda>path bs fs. Ok (fs(path \<mapsto> bs))),
    fl_open = (\<lambda>fs path. case fs path of Some bs \<Rightarrow> Ok (cursor_new bs) | None \<Rightarrow> Err (Message ''not found''))\<rparr>"

definition observation_fields :: "((nat, nat, unit, unit) Observation \<times> Source, unit) finding_fields" where
  "observation_fields = \<lparr>ff_code = obs_code \<circ> fst, ff_source = snd, ff_evidence = obs_evidence \<circ> fst\<rparr>"

theorem auditor_tests_pass_witness:
  "test_audit_over_synthetic_image_yields_all_kinds sample_vocab codec_prims codec_encoders = Some (Ok ()) \<and>
    test_audit_path_reads_a_file sample_vocab codec_prims codec_encoders cursor_ops memory_files 1 (\<lambda>_. None) =
      Some (Ok ())"
proof -
  have "to_finding_documented observation_fields Pair"
    by (simp add: to_finding_documented_def observation_fields_def)
  moreover have "file_documented memory_files cursor_ok cur_data 1 (\<lambda>_. None)"
    by (simp add: file_documented_def memory_files_def cursor_image)
  moreover have "fl_open memory_files (\<lambda>_. None) 2 = Err (Message ''not found'')"
    by (simp add: memory_files_def)
  ultimately show ?thesis
    using auditor_tests_pass [OF codec_documented(1) codec_encoders_documented(1,3) _ cur.image_reader_axioms,
        of observation_fields Pair memory_files 1 "\<lambda>_. None" "\<lambda>_. None" 2 "Message ''not found''" sample_vocab
          "TYPE(unit \<times> unit)" "[]"] by simp
qed

end
