(* ===== verification/Spec2Isabelle.thy ===== *)
theory Spec2Isabelle
  imports Session Concurrent Truncation Profiles Fuzz Auditor_Image Context_Roundtrip
    Unit_Tests_Context Unit_Tests_Oracle Unit_Tests_Unlock Unit_Tests_Auditor
begin

text \<open>
  A verification of \<open>filevault-forensic\<close>, a reader and decryptor for Apple CoreStorage / FileVault 2
  volumes (\<open>core/\<close>) with an auditor on top of it (\<open>forensic/\<close>).

  \<^bold>\<open>The program.\<close> An image of a physical volume starts with a 512-byte header. From it the program
  finds a plaintext metadata region, in that region the location of the encrypted metadata, and
  decrypts the latter with AES-XTS keys of the header. The decrypted metadata is scanned, as text,
  for the encryption context (wrapped keys, KDF parameters, protectors) and for the logical volume's
  family UUID and size, and as blocks for a segment map. \<open>parse_info\<close> stops there, without a password.
  \<open>unlock_with_password\<close> also derives the volume keys and returns a volume that decrypts 512-byte
  sectors on demand. The VFS adapter tries passwords and serves the decrypted volume; the auditor
  turns the information of a locked volume into anomalies.

  \<^bold>\<open>The theories\<close>, in the order of the code's layers.

  \<^item> \<open>Prelude\<close>: words, outcomes (value, error, panic), arithmetic on \<open>usize\<close> and \<open>u64\<close> with the
    program's overflow behaviour, slices, little-endian bytes. \<open>Errors\<close>: \<open>core/src/error.rs\<close>.
  \<^item> \<open>Io\<close>: the traits \<open>Read\<close> and \<open>Seek\<close> as a record of functions, \<open>read_exact\<close>, the locale
    \<open>image_reader\<close> (the contract of a reader over a byte image: arbitrarily short reads, finitely many
    interruptions), and \<open>std::io::Cursor\<close> as its first interpretation. A reader that breaks the contract
    may report more bytes than it was asked for; then \<open>read_exact\<close> panics, as slicing does.
  \<^item> \<open>Read_LE\<close>: \<open>core/src/read.rs\<close>; the locale \<open>field_reader\<close> is interpreted by all five readers.
  \<^item> \<open>Volume_Header\<close>: \<open>core/src/volume_header.rs\<close>. \<open>Primitives\<close>: the third-party crates as the record
    \<open>prims\<close>, with what they document as named hypotheses and a concrete instance. \<open>Xts\<close>: \<open>core/src/xts.rs\<close>.
  \<^item> \<open>Metadata\<close>: \<open>core/src/metadata.rs\<close>.
  \<^item> \<open>Rust_Str\<close>: the parts of the standard library's strings that the scanner uses. \<open>Context_Scan\<close> and
    \<open>Context\<close>: \<open>core/src/context.rs\<close>; the locale \<open>scanner\<close> (a scan moves the cursor forward inside the
    metadata) is interpreted by the tag scanner and by the integer scanner.
  \<^item> \<open>Unlock\<close>: \<open>core/src/unlock.rs\<close>. \<open>Volume\<close>: \<open>core/src/volume.rs\<close>; the volume is a second
    interpretation of \<open>image_reader\<close>, over its plaintext.
  \<^item> \<open>FileVault\<close>: \<open>core/src/lib.rs\<close>. \<open>Vfs\<close>: \<open>core/src/vfs.rs\<close>. \<open>Forensic\<close>: \<open>forensic/src/lib.rs\<close>.
  \<^item> \<open>Session\<close>: sequences of calls on an unlocked volume, as a step relation over \<open>read_at\<close>, \<open>read\<close> and
    \<open>seek\<close>. \<open>Concurrent\<close>: the clients of one decrypted source. Every call of the shared reader inside
    \<open>DecryptedVolume::read_at\<close> (the seek, each read of the loop) is a step of its own, and steps of all
    clients interleave; only the mutex of \<open>FileVaultSource::read_at\<close>, with its poisoning, keeps one
    client's seek from another's reads. \<open>Truncation\<close>: images that were cut off or damaged. \<open>Profiles\<close>: the
    volume in the two build profiles, with the arithmetic of the profile as an argument, also of the
    count of bytes filled; the locale \<open>machine_arithmetic\<close> (exact as long as nothing overflows) is
    interpreted by both, the locale \<open>counted_reader\<close> (a reader that reports fewer than \<open>2^63\<close> bytes) by
    cursors and by every \<open>image_reader\<close>. \<open>Fuzz\<close>: the fuzz
    target of \<open>core/fuzz/\<close>.
  \<^item> \<open>Encoders\<close>: the encrypting side of the crates (XTS encryption, key wrap, base64) as the record
    \<open>encoders\<close> with its documented laws, an instance with a real base64 and UUID codec, and \<open>encrypt_units\<close>
    of \<open>core/src/xts.rs\<close>. \<open>Context_Roundtrip\<close>: a layout of the encryption context, struct by struct, and
    that extraction inverts it. \<open>Plist\<close>: scans of property lists given as sequences of elements.
  \<^item> \<open>Test_Support\<close>: the image builder \<open>core/src/test_support.rs\<close>. \<open>Fixtures\<close> and \<open>Fixtures_Context\<close>: the
    builders and readers inside the test modules of the parsers. \<open>Clients\<close>: the adapter and the
    auditor over the built image. \<open>Auditor_Image\<close>: the image builder of the auditor's integration tests
    (\<open>forensic/tests/entry_points.rs\<close>), with its count and status as arguments.
  \<^item> \<open>Unit_Tests\<close>, \<open>Unit_Tests_Context\<close>, \<open>Unit_Tests_Unlock\<close>, \<open>Unit_Tests_Volume\<close>, \<open>Unit_Tests_Entry\<close>,
    \<open>Unit_Tests_Vfs\<close>, \<open>Unit_Tests_Oracle\<close> and \<open>Unit_Tests_Auditor\<close>: the unit tests of the modules and the tests of the auditor
    (\<open>forensic/src/tests.rs\<close>, \<open>forensic/tests/entry_points.rs\<close>), as computations that panic when an
    assertion fails. A test is named after its function, with \<open>test_\<close> in front.
  \<^item> \<open>Sample\<close>: further concrete images on which the properties of the entry points are shown to apply.

  Definitions keep the names of the source; a method that clashes has its type's name in front
  (\<open>DecryptedVolume_read_at\<close>), and the fields of a struct have a short prefix. A string is the list of
  its UTF-8 bytes. A function that fills a buffer takes the buffer or its length and returns the bytes
  written to its front; the loop of \<open>read_full_or_eof\<close> returns the whole buffer, as it is left behind also
  by a failure. Arithmetic that is unchecked in the source panics on overflow, as in a debug build;
  \<open>Profiles\<close> compares that with the wrapping arithmetic of a release build. A stateful function maps the reader's state to the new state and the outcome,
  or to \<open>None\<close> if it does not return.

  \<^bold>\<open>What is shown.\<close>

  \<^item> The decrypted volume refines its plaintext: random access, sequential access and access by
    several clients through the VFS source return exactly the bytes of the sectors decrypted as a
    whole, over every conforming reader, and do return (\<open>Volume\<close>, \<open>Vfs\<close>, and end to end below).
  \<^item> Concurrent clients: every interleaving of their single seeks, reads and other steps has the results
    of the same accesses made one after the other, errors and panics included; no two are in the
    critical section, none waits for ever, and a poisoned mutex is taken like any other. Without the
    mutex this fails: one client would get bytes from where another one sought (\<open>Concurrent\<close>).
  \<^item> Truncated and damaged images: what is read from a cut-off image is what the whole image holds,
    or the error is loud; a read depends on the sectors it touches and on no others (\<open>Truncation\<close>).
  \<^item> The entry points are functions of the image's bytes: \<open>info_spec\<close> and \<open>unlock_spec\<close> say which
    (\<open>FileVault\<close>); an unlocked volume agrees with the audit of the locked one; the audit does not
    depend on any key function; a wrong password ends in the error that names the KEK.
  \<^item> Panics: images with a block size that is a multiple of sixteen never make the entry points
    panic; the exact condition for a panic of the audit is given below.
  \<^item> Build profiles: a release build reads exactly as a debug build does, over any reader that reports
    fewer than \<open>2^63\<close> bytes per read, unless the physical offset of the first sector leaves the 64-bit
    range; the bound is needed, since a reader that reports more than it was asked for makes the
    count of bytes filled overflow, and the builds differ there. Beyond that range the debug build panics and the
    release build returns bytes from elsewhere in the image without an error (\<open>Profiles\<close>).
  \<^item> Every parser: its outcome on all inputs, bounds on what it returns, and round trips with the
    layout it parses (header, little-endian fields, segment map, plist strings, integers and crypto
    users, the encryption context as a whole); the loops stop and return the first or the maximal match.
  \<^item> The pipeline inverts its image builder: for all crates that behave as documented, the image
    built from a password, keys and a plaintext is audited, unlocked, mounted and read back to exactly
    these (\<open>Test_Support\<close>, \<open>Clients\<close>); so do the parts (XTS units, backing of a volume, metadata region,
    context plist) invert theirs (\<open>Encoders\<close>, \<open>Fixtures\<close>, \<open>Fixtures_Context\<close>).
  \<^item> Sessions: what unlocking returns is well typed, and no sequence of calls changes its keys, extent
    or information; a client that keeps reading gets at least a byte each time and reaches the end.
  \<^item> The fuzz target returns on every input, and the inputs on which it panics are known exactly.
  \<^item> The key hierarchy: which failures there are, the lengths of keys, recovery of a wrapped key.
  \<^item> The auditor: it reports exactly what the information holds, in an order-independent form; and of an image built
    with any count and status it reports exactly these (\<open>Auditor_Image\<close>).
  \<^item> Each of the program's own unit tests and of those of the auditor's entry points passes, one lemma
    per test or group of tests, for all crates that behave as documented and, for the key hierarchy,
    have the published values at the test vectors of \<open>docs/RESEARCH.md\<close>; tests of a wrong password or a
    malformed UUID assume that the crates reject it. These lemmas tie the definitions to the code's own
    expectations; what is shown of all inputs does not rest on them. The two tests of \<open>xts.rs\<close> also assert that AES hides the plaintext and
    depends on the unit; they pass exactly when it does (\<open>Unit_Tests_Volume\<close>). The adapter's test over
    an external disk image passes exactly on images with the expected size and digest (\<open>Unit_Tests_Oracle\<close>).

  \<^bold>\<open>Bounds.\<close> Loops over a reader are partial functions; that they return is proved from the bound
  \<open>patience\<close> on interruptions in \<open>image_reader\<close>. All other loops are total functions: the block search
  and the scans move an offset towards the end of the metadata, the protectors loop counts to 64.
  No fuel is used. A \<open>usize\<close> has 64 bits. Images are shorter than \<open>2^63\<close> bytes, as offsets of files
  are; the volume theorems ask for an extent below that bound.

  \<^bold>\<open>Not modelled.\<close> The cryptographic and encoding crates, \<open>forensic-vfs\<close>, \<open>forensicnomicon\<close> and the
  operating system's files are parameters. Memory exhaustion, timing and the zeroing of secrets are
  outside the model. The test programs \<open>oracle.rs\<close> and \<open>oracle_fvde.rs\<close>, which compare with values taken
  from disk images that are not in the repository, and build files are left out.
\<close>

section \<open>From the image to the plaintext\<close>

text \<open>An unlocked volume over a conforming reader, with the specification's parts.\<close>

lemma unlocked_parts:
  assumes "image_reader ops ok img pos patience" and "ok r"
    and "unlock_with_password P ops password r = Some (r', Ok v)"
  shows "\<exists>keys base sz info. unlock_spec P password (img r) = Ok (keys, base, sz, info) \<and>
    v = assemble r' (keys, base, sz, info) \<and> ok r' \<and> img r' = img r"
  using image_reader.unlock_image [OF assms(1,2), of P password] assms(3)
  by (cases "unlock_spec P password (img r)") auto

text \<open>
  C2 End to end: whatever image a conforming reader presents, once \<open>unlock_with_password\<close> has
  returned a volume, every read of the volume returns the requested window of the plaintext: the
  sectors that start at the physical base in the image, decrypted with the keys derived from the
  password, cut to the size in the volume's information. (The extent must lie below the largest
  offset a file can be sought to.)
\<close>

theorem unlock_then_read:
  assumes "image_reader ops ok img pos patience" and "ok r"
    and "xts_documented P" and "kdf_documented P"
    and "unlock_with_password P ops password r = Some (r', Ok v)"
    and "extent_ok (dv_physical_base (into_decrypted v)) (FileVaultVolume_size v)"
    and "n < 2 ^ 64"
  shows "\<exists>v' keys base. unlock_spec P password (img r) =
      Ok (keys, base, FileVaultVolume_size v, FileVaultVolume_info v) \<and> keys_ok keys \<and>
    FileVaultVolume_read_at P ops off n v =
      Some (v', Ok (window (unat off) n
        (plaintext P keys (unat base) (unat (fvi_lv_size (FileVaultVolume_info v))) (img r)))) \<and>
    FileVaultVolume_info v' = FileVaultVolume_info v"
proof -
  obtain keys base sz info where spec: "unlock_spec P password (img r) = Ok (keys, base, sz, info)"
    and v: "v = assemble r' (keys, base, sz, info)" and r': "ok r'" "img r' = img r"
    using unlocked_parts [OF assms(1,2,5)] by blast
  have keys: "keys_ok keys"
    by (rule unlock_spec_keys_ok [OF assms(4) spec])
  have sz: "fvi_lv_size info = sz"
    using spec by (auto simp: unlock_spec_def comp_iff build_info_def split: prod.splits)
  have "extent_ok base sz"
    using assms(6) by (simp add: v DecryptedVolume_new_def)
  from image_reader.assembled_read [OF assms(1) r'(1) assms(3) keys this assms(7)]
  obtain v' where "FileVaultVolume_read_at P ops off n v =
      Some (v', Ok (window (unat off) n (plaintext P keys (unat base) (unat sz) (img r))))"
    "FileVaultVolume_info v' = info"
    unfolding v r'(2) [symmetric] by blast
  then show ?thesis
    using spec keys sz by (simp add: v)
qed

theorem unlock_then_read_witness:
  "\<exists>r' v v'. unlock_with_password demo_prims cursor_ops sample_password (cursor_new sample_image) = Some (r', Ok v) \<and>
    FileVaultVolume_size v = 9 \<and>
    FileVaultVolume_read_at demo_prims cursor_ops 2 100 v = Some (v', Ok (replicate 7 7))"
proof -
  obtain r' where u: "unlock_with_password demo_prims cursor_ops sample_password (cursor_new sample_image) =
      Some (r', Ok (assemble r' (sample_keys, 2560, 9,
        build_info demo_prims (plain_header 512) sample_ctx sample_lv_info 9)))"
    using cur.unlock_image [OF sample_reader(1), of demo_prims sample_password]
    by (auto simp: sample_reader(2) sample_unlock)
  let ?v = "assemble r' (sample_keys, 2560, 9, build_info demo_prims (plain_header 512) sample_ctx sample_lv_info 9)"
  have v: "FileVaultVolume_size ?v = 9" "dv_physical_base (into_decrypted ?v) = 2560"
      "fvi_lv_size (FileVaultVolume_info ?v) = 9"
    by (simp_all add: assemble_def FileVaultVolume_size_def DecryptedVolume_size_def DecryptedVolume_new_def
        into_decrypted_def FileVaultVolume_info_def build_info_def)
  have "extent_ok (dv_physical_base (into_decrypted ?v)) (FileVaultVolume_size ?v)"
    unfolding v by (simp add: extent_ok_def)
  from unlock_then_read [OF cur.image_reader_axioms sample_reader(1) demo_documented(1,2) u this, of 100 2]
  obtain v' where "FileVaultVolume_read_at demo_prims cursor_ops 2 100 ?v = Some (v', Ok (replicate 7 7))"
    by (auto simp: sample_reader(2) sample_unlock v sample_plaintext build_info_def)
  with u v show ?thesis
    by blast
qed

text \<open>
  C3 A wrong password never opens a volume: if the key derived from the password does not unwrap the
  KEK of the volume's encryption context, unlocking fails with the error \<open>KeyUnwrap\<close> that names the
  KEK, over every conforming reader, even though the locked volume's information can be read.
\<close>

theorem wrong_password_fails:
  assumes "image_reader ops ok img pos patience" and "ok r"
    and "chain (image_at (img r) 0 512) parse = Ok h" and "metadata_spec P (img r) h = Ok md"
    and "extract_context P md = Ok ctx" and "extract_lv_info md = Ok lv"
    and "parse_uuid_bytes P (lv_family_uuid lv) = Some fam"
    and "kw_unwrap P (passphrase_key P password (ec_salt ctx) (ec_iterations ctx)) (ec_wrapped_kek ctx) = None"
  shows "\<exists>r'. unlock_with_password P ops password r = Some (r', Err (KeyUnwrap ''KEK''))"
proof -
  have "derive_volume_keys P password ctx fam = Err (KeyUnwrap ''KEK'')"
    by (simp add: derive_volume_keys_def aes_kw_unwrap_def assms(8))
  then have "unlock_spec P password (img r) = Err (KeyUnwrap ''KEK'')"
    using assms(3-7) by (simp add: unlock_spec_def del: chain_assoc)
  then show ?thesis
    using image_reader.unlock_image [OF assms(1,2), of P password] by auto
qed

theorem wrong_password_fails_witness:
  "\<exists>r'. unlock_with_password demo_prims cursor_ops (replicate 16 0x42) (cursor_new sample_image) =
    Some (r', Err (KeyUnwrap ''KEK''))"
  using wrong_password_fails [OF cur.image_reader_axioms sample_reader(1), unfolded sample_reader(2),
      OF sample_header_image sample_decrypted sample_context sample_lv sample_uuid sample_keys_wrong] .

text \<open>
  C4 The exact condition for a panic: auditing a locked image panics if and only if the image has a
  valid header, its metadata is found and read, and the encrypted metadata ends in a partial XTS
  unit of one to fifteen bytes. No other content of an image makes it panic.
\<close>

theorem parse_info_panics_iff:
  assumes "image_reader ops ok img pos patience" and "ok r" and "xts_documented P"
  shows "(\<exists>r'. parse_info P ops r = Some (r', Panic)) \<longleftrightarrow>
    (\<exists>h ct. chain (image_at (img r) 0 512) parse = Ok h \<and> ciphertext_spec (img r) h = Ok ct \<and> short_unit ct)"
proof -
  obtain r' c where c: "parse_info P ops r = Some (r', c)" "io_eq c (info_spec P (img r))"
    using image_reader.reads_as_info [OF assms(1), of "img r" P] assms(2) unfolding reads_as_def by blast
  then have "(\<exists>r'. parse_info P ops r = Some (r', Panic)) \<longleftrightarrow> info_spec P (img r) = Panic"
    by (auto dest: io_eq_PanicD)
  then show ?thesis
    unfolding info_spec_Panic [OF assms(3)] .
qed

theorem parse_info_panics_iff_witness:
  "\<exists>r'. parse_info demo_prims cursor_ops (cursor_new short_unit_image) = Some (r', Panic)"
proof -
  have "chain (image_at short_unit_image 0 512) parse = Ok (plain_header 683)"
    unfolding short_unit_image_def by (rule layout_header)
  moreover have "ciphertext_spec short_unit_image (plain_header 683) = Ok (replicate 8196 0)"
    unfolding short_unit_image_def by (rule layout_ciphertext) simp_all
  moreover have "short_unit (replicate 8196 0)"
    by (simp add: short_unit_def)
  ultimately show ?thesis
    using parse_info_panics_iff [OF cur.image_reader_axioms short_unit_reader(1) demo_documented(1)]
    unfolding short_unit_reader(2) by blast
qed

end
